(* ===== verification/Kasli_Prelude.thy ===== *)
theory Kasli_Prelude
  imports Main "HOL-Library.Sublist" "HOL-Library.Char_ord" "HOL-Library.List_Lexorder"
begin

text \<open>
  What every component of the development shares: the exceptions the C++ code throws and the
  result type of code that may throw, the operations of \<open>std::string\<close> and
  \<open>std::string_view\<close> the sources call (with \<open>npos\<close> as \<open>None\<close>), the line
  readers, \<open>std::to_string\<close> and \<open>std::map\<close> with string keys as a sorted association
  list. Strings are byte strings (\<open>char list\<close>), compared bytewise as \<open>std::string\<close> does.
\<close>

named_theorems text_simps \<open>evaluation of the string operations\<close>
named_theorems result_simps \<open>results and exceptions\<close>
named_theorems bounded_simps \<open>lengths of bounded texts\<close>

section \<open>Exceptions and results\<close>

text \<open>
  The exceptions that cross a component border. \<open>JsonExn\<close> is an exception of the JSON
  library, \<open>ConnectExn\<close> the one error class of the program that carries a number
  (\<open>UnixSocketConnectError\<close>), \<open>ForeignExn\<close> anything not derived from
  \<open>std::exception\<close>, which only \<open>catch (...)\<close> sees.
\<close>

datatype json_error =
    JsonParseError
  | JsonMissingKey string
  | JsonMissingIndex nat
  | JsonWrongType
  | JsonInvalidUtf8

datatype exn =
    RuntimeError string
  | InvalidArgument string
  | FilesystemError string
  | ConnectExn int string
  | JsonExn json_error
  | ForeignExn

type_synonym 'a result = "exn + 'a"

fun is_std_exception :: "exn \<Rightarrow> bool" where
  "is_std_exception ForeignExn = False"
| "is_std_exception _ = True"

text \<open>
  \<open>error.what()\<close>. The texts of the JSON library's exceptions are the library's own, so they
  come from a parameter; a foreign exception has no \<open>what\<close>, and no caller asks for it.
\<close>

fun what :: "(json_error \<Rightarrow> string) \<Rightarrow> exn \<Rightarrow> string" where
  "what jw (RuntimeError m) = m"
| "what jw (InvalidArgument m) = m"
| "what jw (FilesystemError m) = m"
| "what jw (ConnectExn _ m) = m"
| "what jw (JsonExn e) = jw e"
| "what jw ForeignExn = []"

definition bind_result :: "'e + 'a \<Rightarrow> ('a \<Rightarrow> 'e + 'b) \<Rightarrow> 'e + 'b" where
  "bind_result r f = (case r of Inl e \<Rightarrow> Inl e | Inr x \<Rightarrow> f x)"

lemma bind_result_simps [simp, result_simps]:
  "bind_result (Inl e) f = Inl e"
  "bind_result (Inr x) f = f x"
  by (simp_all add: bind_result_def)

lemma bind_result_eq_Inr [result_simps]:
  "bind_result r f = Inr y \<longleftrightarrow> (\<exists>x. r = Inr x \<and> f x = Inr y)"
  by (cases r) auto

lemma bind_result_eq_Inl:
  "bind_result r f = Inl e \<longleftrightarrow> r = Inl e \<or> (\<exists>x. r = Inr x \<and> f x = Inl e)"
  by (cases r) auto

lemma bind_result_cong [fundef_cong]:
  "\<lbrakk>r = r'; \<And>x. r' = Inr x \<Longrightarrow> f x = f' x\<rbrakk> \<Longrightarrow> bind_result r f = bind_result r' f'"
  by (cases r') auto

text \<open>Run a fallible function over a list, stopping at the first exception.\<close>

fun map_result :: "('a \<Rightarrow> 'e + 'b) \<Rightarrow> 'a list \<Rightarrow> 'e + 'b list" where
  "map_result f [] = Inr []"
| "map_result f (x # xs) =
     bind_result (f x) (\<lambda>y. bind_result (map_result f xs) (\<lambda>ys. Inr (y # ys)))"

lemma map_result_all_Inr:
  "(\<And>x. x \<in> set xs \<Longrightarrow> f x = Inr (g x)) \<Longrightarrow> map_result f xs = Inr (map g xs)"
  by (induction xs) auto

lemma map_result_length: "map_result f xs = Inr ys \<Longrightarrow> length ys = length xs"
  by (induction xs arbitrary: ys) (auto simp: bind_result_eq_Inr)

section \<open>Characters and strings\<close>

abbreviation newline :: char where
  "newline \<equiv> CHR 0x0A"

abbreviation carriage_return :: char where
  "carriage_return \<equiv> CHR 0x0D"

abbreviation tab :: char where
  "tab \<equiv> CHR 0x09"

abbreviation backslash :: char where
  "backslash \<equiv> CHR 0x5C"

abbreviation dquote :: char where
  "dquote \<equiv> CHR 0x22"

text \<open>\<open>find(c)\<close>: the index of the first \<open>c\<close>, or \<open>npos\<close>.\<close>

fun find_char :: "char \<Rightarrow> string \<Rightarrow> nat option" where
  "find_char c [] = None"
| "find_char c (x # xs) = (if x = c then Some 0 else map_option Suc (find_char c xs))"

text \<open>\<open>find(pattern, from)\<close>: the least index at or after \<open>from\<close> at which the pattern occurs.\<close>

fun find_str :: "string \<Rightarrow> string \<Rightarrow> nat option" where
  "find_str pat [] = (if pat = [] then Some 0 else None)"
| "find_str pat (x # xs) =
     (if prefix pat (x # xs) then Some 0 else map_option Suc (find_str pat xs))"

definition find_str_from :: "string \<Rightarrow> string \<Rightarrow> nat \<Rightarrow> nat option" where
  "find_str_from pat s from =
     (if from \<le> length s then map_option ((+) from) (find_str pat (drop from s)) else None)"

definition find_char_from :: "char \<Rightarrow> string \<Rightarrow> nat \<Rightarrow> nat option" where
  "find_char_from c s from =
     (if from \<le> length s then map_option ((+) from) (find_char c (drop from s)) else None)"

text \<open>\<open>find_last_of(c)\<close>.\<close>

definition find_last_char :: "char \<Rightarrow> string \<Rightarrow> nat option" where
  "find_last_char c s = map_option (\<lambda>i. length s - Suc i) (find_char c (rev s))"

text \<open>\<open>substr(pos, count)\<close> for \<open>pos \<le> size()\<close>, which holds at every call of the sources.\<close>

definition substr :: "string \<Rightarrow> nat \<Rightarrow> nat \<Rightarrow> string" where
  "substr s pos count = take count (drop pos s)"

text \<open>What a C function sees of \<open>s.c_str()\<close>, and \<open>ends_with\<close>.\<close>

definition c_str :: "string \<Rightarrow> string" where
  "c_str s = takeWhile (\<lambda>c. c \<noteq> CHR 0x00) s"

definition ends_with :: "string \<Rightarrow> string \<Rightarrow> bool" where
  "ends_with s t \<longleftrightarrow> length t \<le> length s \<and> drop (length s - length t) s = t"

lemma ends_with_append: "ends_with (u @ t) t"
  by (simp add: ends_with_def)

definition contains_str :: "string \<Rightarrow> string \<Rightarrow> bool" where
  "contains_str s pat \<longleftrightarrow> find_str pat s \<noteq> None"

lemma find_char_None [simp]: "find_char c s = None \<longleftrightarrow> c \<notin> set s"
  by (induction s) auto

lemma find_char_Some:
  "find_char c s = Some i \<Longrightarrow> i < length s \<and> s ! i = c \<and> c \<notin> set (take i s)"
  by (induction s arbitrary: i) (auto split: if_splits)

lemma find_char_append [simp]:
  "c \<notin> set u \<Longrightarrow> find_char c (u @ c # v) = Some (length u)"
  by (induction u) auto

lemma find_char_split:
  "find_char c s = Some i \<Longrightarrow> s = take i s @ c # drop (Suc i) s"
  using find_char_Some id_take_nth_drop by metis

lemma find_str_SomeD:
  "find_str pat s = Some i \<Longrightarrow> i \<le> length s \<and> prefix pat (drop i s)"
  by (induction s arbitrary: i) (auto split: if_splits)

lemma find_str_bound: "find_str pat s = Some i \<Longrightarrow> i + length pat \<le> length s"
  using find_str_SomeD [of pat s i] prefix_length_le by fastforce

lemma find_str_least:
  "find_str pat s = Some i \<Longrightarrow> j < i \<Longrightarrow> \<not> prefix pat (drop j s)"
proof (induction s arbitrary: i j)
  case (Cons x xs)
  then show ?case by (cases j) (auto split: if_splits)
qed (auto split: if_splits)

lemma find_str_None:
  "find_str pat s = None \<longleftrightarrow> (\<forall>j \<le> length s. \<not> prefix pat (drop j s))"
proof (induction s)
  case (Cons x xs)
  have "(\<forall>j \<le> length (x # xs). \<not> prefix pat (drop j (x # xs)))
      \<longleftrightarrow> \<not> prefix pat (x # xs) \<and> (\<forall>j \<le> length xs. \<not> prefix pat (drop j xs))"
    by (metis Suc_le_mono drop_0 drop_Suc_Cons length_Cons less_eq_nat.simps(1) not0_implies_Suc)
  with Cons show ?case by auto
qed auto

lemma contains_str_iff: "contains_str s pat \<longleftrightarrow> sublist pat s"
proof -
  have "contains_str s pat \<longleftrightarrow> (\<exists>j \<le> length s. prefix pat (drop j s))"
    unfolding contains_str_def by (metis find_str_None)
  also have "\<dots> \<longleftrightarrow> sublist pat s"
  proof
    assume "\<exists>j \<le> length s. prefix pat (drop j s)"
    then obtain j v where "drop j s = pat @ v" by (auto simp: prefix_def)
    then have "s = take j s @ pat @ v" by (metis append_take_drop_id)
    then show "sublist pat s" unfolding sublist_def by blast
  next
    assume "sublist pat s"
    then obtain u v where "s = u @ pat @ v" unfolding sublist_def by blast
    then have "length u \<le> length s \<and> prefix pat (drop (length u) s)" by simp
    then show "\<exists>j \<le> length s. prefix pat (drop j s)" by blast
  qed
  finally show ?thesis .
qed

text \<open>
  \<open>value.find_first_not_of(" \t\r\n") == npos\<close>, the blank test several tools repeat.
\<close>

definition blank_char :: "char \<Rightarrow> bool" where
  "blank_char c \<longleftrightarrow> c = CHR '' '' \<or> c = tab \<or> c = carriage_return \<or> c = newline"

definition is_blank :: "string \<Rightarrow> bool" where
  "is_blank s \<longleftrightarrow> list_all blank_char s"

lemma is_blank_Nil [simp]: "is_blank []"
  by (simp add: is_blank_def)

text \<open>\<open>std::isspace\<close> and \<open>std::tolower\<close> in the classic locale.\<close>

definition is_space :: "char \<Rightarrow> bool" where
  "is_space c \<longleftrightarrow> c = CHR '' '' \<or> c = tab \<or> c = newline \<or> c = CHR 0x0B \<or> c = CHR 0x0C
     \<or> c = carriage_return"

definition to_lower :: "char \<Rightarrow> char" where
  "to_lower c = (let n = of_char c :: nat in if 65 \<le> n \<and> n \<le> 90 then char_of (n + 32) else c)"

lemma to_lower_idem [simp]: "to_lower (to_lower c) = to_lower c"
  by (simp add: to_lower_def Let_def)

section \<open>Lines\<close>

text \<open>
  \<open>while (std::getline(input, line))\<close>: the lines read from a stream. A final newline ends
  the last line and starts no new one.
\<close>

fun get_lines_acc :: "string \<Rightarrow> string \<Rightarrow> string list" where
  "get_lines_acc acc [] = (if acc = [] then [] else [rev acc])"
| "get_lines_acc acc (c # cs) =
     (if c = newline then rev acc # get_lines_acc [] cs else get_lines_acc (c # acc) cs)"

definition get_lines :: "string \<Rightarrow> string list" where
  "get_lines s = get_lines_acc [] s"

text \<open>
  The first line of a stream, as one \<open>std::getline\<close> leaves it in an empty string.
\<close>

definition first_line :: "string \<Rightarrow> string" where
  "first_line s = takeWhile (\<lambda>c. c \<noteq> newline) s"

text \<open>
  The other reading loop of the sources, \<open>while (start <= content.size())\<close> with
  \<open>find(sep, start)\<close>: every piece between separators, the last (possibly empty) one included.
\<close>

fun split_acc :: "char \<Rightarrow> string \<Rightarrow> string \<Rightarrow> string list" where
  "split_acc sep acc [] = [rev acc]"
| "split_acc sep acc (c # cs) =
     (if c = sep then rev acc # split_acc sep [] cs else split_acc sep (c # acc) cs)"

definition split_on :: "char \<Rightarrow> string \<Rightarrow> string list" where
  "split_on sep s = split_acc sep [] s"

fun join_with :: "string \<Rightarrow> string list \<Rightarrow> string" where
  "join_with sep [] = []"
| "join_with sep [x] = x"
| "join_with sep (x # y # ys) = x @ sep @ join_with sep (y # ys)"

lemma split_acc_no_sep: "sep \<notin> set s \<Longrightarrow> split_acc sep acc s = [rev acc @ s]"
  by (induction s arbitrary: acc) auto

lemma split_acc_append:
  "sep \<notin> set u \<Longrightarrow> split_acc sep acc (u @ sep # v) = (rev acc @ u) # split_acc sep [] v"
  by (induction u arbitrary: acc) auto

lemma split_on_no_sep [text_simps]: "sep \<notin> set s \<Longrightarrow> split_on sep s = [s]"
  by (simp add: split_on_def split_acc_no_sep)

lemma split_on_append [text_simps]:
  "sep \<notin> set u \<Longrightarrow> split_on sep (u @ sep # v) = u # split_on sep v"
  by (simp add: split_on_def split_acc_append)

lemma split_acc_not_Nil [simp]: "split_acc sep acc s \<noteq> []"
  by (induction s arbitrary: acc) auto

lemma join_with_Cons: "ys \<noteq> [] \<Longrightarrow> join_with sep (x # ys) = x @ sep @ join_with sep ys"
  by (cases ys) auto

lemma join_split_acc: "join_with [sep] (split_acc sep acc s) = rev acc @ s"
  by (induction s arbitrary: acc) (auto simp: join_with_Cons)

lemma join_split_on: "join_with [sep] (split_on sep s) = s"
  by (simp add: split_on_def join_split_acc)

lemma split_acc_pieces: "sep \<notin> set acc \<Longrightarrow> p \<in> set (split_acc sep acc s) \<Longrightarrow> sep \<notin> set p"
  by (induction s arbitrary: acc) (fastforce split: if_splits)+

lemma split_on_pieces: "p \<in> set (split_on sep s) \<Longrightarrow> sep \<notin> set p"
  by (auto simp: split_on_def dest: split_acc_pieces [rotated])

lemma split_join:
  "xs \<noteq> [] \<Longrightarrow> \<forall>x \<in> set xs. sep \<notin> set x \<Longrightarrow> split_on sep (join_with [sep] xs) = xs"
proof (induction "[sep]" xs rule: join_with.induct)
  case (3 x y ys)
  then show ?case by (simp add: split_on_append)
qed (simp_all add: split_on_no_sep)

lemma get_lines_acc_append:
  "newline \<notin> set u \<Longrightarrow> get_lines_acc acc (u @ newline # v) = (rev acc @ u) # get_lines_acc [] v"
  by (induction u arbitrary: acc) auto

lemma get_lines_append [text_simps]:
  "newline \<notin> set u \<Longrightarrow> get_lines (u @ newline # v) = u # get_lines v"
  by (simp add: get_lines_def get_lines_acc_append)

lemma get_lines_Nil [simp]: "get_lines [] = []"
  by (simp add: get_lines_def)

lemma get_lines_eq_Nil: "get_lines s = [] \<longleftrightarrow> s = []"
proof -
  have "get_lines_acc acc s = [] \<longleftrightarrow> acc = [] \<and> s = []" for acc
    by (induction s arbitrary: acc) auto
  then show ?thesis by (simp add: get_lines_def)
qed

lemma get_lines_acc_no_newline:
  "newline \<notin> set s \<Longrightarrow> get_lines_acc acc s = (if acc = [] \<and> s = [] then [] else [rev acc @ s])"
  by (induction s arbitrary: acc) auto

lemma get_lines_no_newline: "newline \<notin> set s \<Longrightarrow> get_lines s = (if s = [] then [] else [s])"
  by (simp add: get_lines_def get_lines_acc_no_newline)

lemma get_lines_acc_pieces:
  "newline \<notin> set acc \<Longrightarrow> l \<in> set (get_lines_acc acc s) \<Longrightarrow> newline \<notin> set l"
  by (induction s arbitrary: acc) (fastforce split: if_splits)+

lemma get_lines_pieces: "l \<in> set (get_lines s) \<Longrightarrow> newline \<notin> set l"
  by (auto simp: get_lines_def dest: get_lines_acc_pieces [rotated])

lemma get_lines_concat:
  "\<forall>l \<in> set ls. newline \<notin> set l \<Longrightarrow> get_lines (concat (map (\<lambda>l. l @ [newline]) ls)) = ls"
  by (induction ls) (auto simp: get_lines_append)

section \<open>\<open>std::map\<close> with string keys\<close>

text \<open>
  A \<open>std::map<std::string, T>\<close> is its list of entries in key order. \<open>smap_assign\<close> is
  \<open>m[k] = v\<close>, \<open>smap_emplace\<close> is \<open>m.emplace(k, v)\<close>, which keeps an existing entry.
\<close>

type_synonym 'a smap = "(string \<times> 'a) list"

fun smap_assign :: "string \<Rightarrow> 'a \<Rightarrow> 'a smap \<Rightarrow> 'a smap" where
  "smap_assign k v [] = [(k, v)]"
| "smap_assign k v ((k', v') # m) =
     (if k < k' then (k, v) # (k', v') # m
      else if k = k' then (k, v) # m
      else (k', v') # smap_assign k v m)"

definition smap_find :: "'a smap \<Rightarrow> string \<Rightarrow> 'a option" where
  "smap_find m k = map_of m k"

definition smap_emplace :: "string \<Rightarrow> 'a \<Rightarrow> 'a smap \<Rightarrow> 'a smap" where
  "smap_emplace k v m = (case smap_find m k of None \<Rightarrow> smap_assign k v m | Some _ \<Rightarrow> m)"

definition smap_ok :: "'a smap \<Rightarrow> bool" where
  "smap_ok m \<longleftrightarrow> sorted_wrt (<) (map fst m)"

definition smap_of :: "(string \<times> 'a) list \<Rightarrow> 'a smap" where
  "smap_of kvs = fold (\<lambda>(k, v) m. smap_emplace k v m) kvs []"

text \<open>The interface the components use.\<close>

locale string_map =
  fixes empty :: "'m"
    and find :: "'m \<Rightarrow> string \<Rightarrow> 'a option"
    and assign :: "string \<Rightarrow> 'a \<Rightarrow> 'm \<Rightarrow> 'm"
    and emplace :: "string \<Rightarrow> 'a \<Rightarrow> 'm \<Rightarrow> 'm"
    and ok :: "'m \<Rightarrow> bool"
  assumes find_empty: "find empty k = None"
    and find_assign: "find (assign k v m) k' = (if k' = k then Some v else find m k')"
    and find_emplace:
      "find (emplace k v m) k' = (if k' = k \<and> find m k = None then Some v else find m k')"
    and ok_empty: "ok empty"
    and ok_assign: "ok m \<Longrightarrow> ok (assign k v m)"
    and ok_emplace: "ok m \<Longrightarrow> ok (emplace k v m)"
begin

lemma ok_fold_assign: "ok m \<Longrightarrow> ok (fold (\<lambda>(k, v) m. assign k v m) kvs m)"
  by (induction kvs arbitrary: m) (auto simp: ok_assign)

lemma ok_fold_emplace: "ok m \<Longrightarrow> ok (fold (\<lambda>(k, v) m. emplace k v m) kvs m)"
  by (induction kvs arbitrary: m) (auto simp: ok_emplace)

text \<open>Assigning keeps the last value of a key, emplacing the first.\<close>

lemma find_fold_assign:
  "find (fold (\<lambda>(k, v) m. assign k v m) kvs m) k =
     (case map_of (rev kvs) k of None \<Rightarrow> find m k | Some v \<Rightarrow> Some v)"
  by (induction kvs rule: rev_induct) (auto simp: find_assign split: prod.splits)

lemma find_fold_emplace:
  "find (fold (\<lambda>(k, v) m. emplace k v m) kvs m) k =
     (case find m k of None \<Rightarrow> map_of kvs k | Some v \<Rightarrow> Some v)"
  by (induction kvs arbitrary: m) (auto simp: find_emplace split: option.splits if_splits)

end

lemma smap_find_assign: "smap_find (smap_assign k v m) k' = (if k' = k then Some v else smap_find m k')"
  by (induction k v m rule: smap_assign.induct) (auto simp: smap_find_def)

lemma keys_smap_assign: "fst ` set (smap_assign k v m) = insert k (fst ` set m)"
  by (induction k v m rule: smap_assign.induct) auto

lemma smap_ok_assign: "smap_ok m \<Longrightarrow> smap_ok (smap_assign k v m)"
proof (induction k v m rule: smap_assign.induct)
  case (2 k v k' v' m)
  have "\<forall>x \<in> fst ` set (smap_assign k v m). k' < x" if "\<not> k < k'" "k \<noteq> k'"
    using that 2 by (auto simp: keys_smap_assign smap_ok_def)
  with 2 show ?case by (auto simp: smap_ok_def dest: order.strict_trans)
qed (simp add: smap_ok_def)

interpretation smap: string_map "[]" smap_find smap_assign smap_emplace smap_ok
  by unfold_locales
    (auto simp: smap_find_assign smap_emplace_def smap_ok_assign smap_find_def [of "[]"]
      smap_ok_def [of "[]"] split: option.splits)

lemma smap_ok_of: "smap_ok (smap_of kvs)"
  unfolding smap_of_def by (rule smap.ok_fold_emplace) (rule smap.ok_empty)

lemma smap_find_of: "smap_find (smap_of kvs) k = map_of kvs k"
  unfolding smap_of_def by (simp add: smap.find_fold_emplace smap.find_empty)

lemma smap_ok_distinct: "smap_ok m \<Longrightarrow> distinct (map fst m)"
  unfolding smap_ok_def by (simp add: strict_sorted_iff)

text \<open>Two well-formed maps with the same entries are the same list.\<close>

lemma smap_assign_last:
  "sorted_wrt (<) (map fst m @ [k]) \<Longrightarrow> smap_assign k v m = m @ [(k, v)]"
proof (induction m)
  case (Cons e m)
  obtain k' v' where e: "e = (k', v')" by force
  from Cons.prems e have "k' < k" by auto
  with Cons e show ?case by auto
qed simp

lemma smap_of_id: "smap_ok m \<Longrightarrow> smap_of m = m"
proof (induction m rule: rev_induct)
  case (snoc e m)
  obtain k v where e: "e = (k, v)" by force
  from snoc.prems e have ok: "smap_ok m" and srt: "sorted_wrt (<) (map fst m @ [k])"
    by (auto simp: smap_ok_def sorted_wrt_append)
  from srt have "k \<notin> fst ` set m" by (auto simp: sorted_wrt_append)
  then have "smap_find m k = None" by (simp add: smap_find_def map_of_eq_None_iff)
  with snoc.IH ok srt e show ?case
    by (simp add: smap_of_def smap_emplace_def smap_assign_last)
qed (simp add: smap_of_def)

end
