(* ===== verification/Json_Value.thy ===== *)
theory Json_Value
  imports Kasli_Prelude
begin

text \<open>
  JSON values as the sources use them. The JSON library (nlohmann/json, fetched by the build) is
  not part of the repository: its printer, its parser and the texts of its exceptions are the
  fields of the record \<open>json_lib\<close>, an argument of every definition that uses them. What is
  written out here is the data it builds and the accessors of the sources: an object is a
  \<open>std::map\<close> from keys to values, \<open>at\<close> throws on a missing key and on a value of
  another kind, \<open>get<T>\<close> throws on a value of another kind.
\<close>

datatype json =
    JNull
  | JBool bool
  | JNumber string
  | JString string
  | JArray "json list"
  | JObject "(string \<times> json) list"

record json_lib =
  json_dump :: "json \<Rightarrow> string result"
  json_parse :: "string \<Rightarrow> json result"
  json_what :: "json_error \<Rightarrow> string"

text \<open>\<open>nlohmann::json{{"key", value}, ...}\<close>.\<close>

definition json_object :: "(string \<times> json) list \<Rightarrow> json" where
  "json_object kvs = JObject (smap_of kvs)"

fun json_is_object :: "json \<Rightarrow> bool" where
  "json_is_object (JObject _) = True"
| "json_is_object _ = False"

fun json_is_string :: "json \<Rightarrow> bool" where
  "json_is_string (JString _) = True"
| "json_is_string _ = False"

fun json_contains :: "json \<Rightarrow> string \<Rightarrow> bool" where
  "json_contains (JObject m) k = (smap_find m k \<noteq> None)"
| "json_contains _ k = False"

fun json_at :: "string \<Rightarrow> json \<Rightarrow> json result" where
  "json_at k (JObject m) =
     (case smap_find m k of None \<Rightarrow> Inl (JsonExn (JsonMissingKey k)) | Some v \<Rightarrow> Inr v)"
| "json_at k _ = Inl (JsonExn JsonWrongType)"

fun json_at_index :: "nat \<Rightarrow> json \<Rightarrow> json result" where
  "json_at_index i (JArray xs) =
     (if i < length xs then Inr (xs ! i) else Inl (JsonExn (JsonMissingIndex i)))"
| "json_at_index i _ = Inl (JsonExn JsonWrongType)"

fun json_get_string :: "json \<Rightarrow> string result" where
  "json_get_string (JString s) = Inr s"
| "json_get_string _ = Inl (JsonExn JsonWrongType)"

fun json_get_string_map :: "json \<Rightarrow> string smap result" where
  "json_get_string_map (JObject m) =
     map_result (\<lambda>(k, v). bind_result (json_get_string v) (\<lambda>s. Inr (k, s))) m"
| "json_get_string_map _ = Inl (JsonExn JsonWrongType)"

fun json_get_list :: "(json \<Rightarrow> 'a result) \<Rightarrow> json \<Rightarrow> 'a list result" where
  "json_get_list get (JArray xs) = map_result get xs"
| "json_get_list get _ = Inl (JsonExn JsonWrongType)"

text \<open>\<open>json.value(key, fallback)\<close>: the fallback is for a missing key only.\<close>

fun json_value :: "(json \<Rightarrow> 'a result) \<Rightarrow> string \<Rightarrow> 'a \<Rightarrow> json \<Rightarrow> 'a result" where
  "json_value get k fallback (JObject m) =
     (case smap_find m k of None \<Rightarrow> Inr fallback | Some v \<Rightarrow> get v)"
| "json_value get k fallback _ = Inl (JsonExn JsonWrongType)"

definition json_field :: "string \<Rightarrow> json \<Rightarrow> string result" where
  "json_field k j = bind_result (json_at k j) json_get_string"

definition json_string_map :: "string smap \<Rightarrow> json" where
  "json_string_map m = JObject (map (\<lambda>(k, v). (k, JString v)) m)"

section \<open>Facts\<close>

lemma json_at_object [simp, result_simps]:
  "json_at k (json_object kvs) =
     (case map_of kvs k of None \<Rightarrow> Inl (JsonExn (JsonMissingKey k)) | Some v \<Rightarrow> Inr v)"
  by (simp add: json_object_def smap_find_of)

lemma json_value_object [simp, result_simps]:
  "json_value get k d (json_object kvs) = (case map_of kvs k of None \<Rightarrow> Inr d | Some v \<Rightarrow> get v)"
  by (simp add: json_object_def smap_find_of)

lemma json_contains_object [simp, result_simps]:
  "json_contains (json_object kvs) k \<longleftrightarrow> map_of kvs k \<noteq> None"
  by (simp add: json_object_def smap_find_of)

lemma json_field_object [simp, result_simps]:
  "json_field k (json_object kvs) =
     (case map_of kvs k of None \<Rightarrow> Inl (JsonExn (JsonMissingKey k)) | Some v \<Rightarrow> json_get_string v)"
  by (simp add: json_field_def split: option.splits)

lemma json_get_string_map_string_map [simp, result_simps]:
  "json_get_string_map (json_string_map m) = Inr m"
  unfolding json_string_map_def by (induction m) auto

lemma json_is_object_object [simp]: "json_is_object (json_object kvs)"
  by (simp add: json_object_def)

section \<open>Codecs\<close>

text \<open>
  The contract of a pair \<open>to_json\<close>/\<open>from_json\<close>: what was written is read back.
\<close>

locale json_codec =
  fixes to_json :: "'a \<Rightarrow> json"
    and from_json :: "json \<Rightarrow> 'a result"
    and ok :: "'a \<Rightarrow> bool"
  assumes from_to: "ok x \<Longrightarrow> from_json (to_json x) = Inr x"
begin

lemma to_json_inject: "ok x \<Longrightarrow> ok y \<Longrightarrow> to_json x = to_json y \<longleftrightarrow> x = y"
  by (metis from_to sum.inject(2))

lemma list_from_to:
  "list_all ok xs \<Longrightarrow> json_get_list from_json (JArray (map to_json xs)) = Inr xs"
  by (induction xs) (auto simp: from_to)

lemma list_inject:
  "list_all ok xs \<Longrightarrow> list_all ok ys \<Longrightarrow>
     JArray (map to_json xs) = JArray (map to_json ys) \<longleftrightarrow> xs = ys"
  by (metis list_from_to sum.inject(2))

end

text \<open>The contract of a pair \<open>to_string\<close>/\<open>from_string\<close> of an enumeration.\<close>

locale enum_codec =
  fixes to_str :: "'a \<Rightarrow> string"
    and from_str :: "string \<Rightarrow> 'a result"
  assumes from_to_str: "from_str (to_str x) = Inr x"
    and to_from_str: "from_str s = Inr x \<Longrightarrow> to_str x = s"
begin

lemma from_str_eq_Inr: "from_str s = Inr x \<longleftrightarrow> s = to_str x"
  using from_to_str to_from_str by blast

lemma to_str_inject: "to_str x = to_str y \<longleftrightarrow> x = y"
  by (metis from_to_str sum.inject(2))

lemma from_str_rejects: "(\<exists>e. from_str s = Inl e) \<longleftrightarrow> s \<notin> range to_str"
  by (metis Inl_Inr_False from_str_eq_Inr from_to_str obj_sumE rangeE rangeI)

end

end
