(* ===== verification/Number_Text.thy ===== *)
theory Number_Text
  imports Kasli_Prelude "HOL-Library.Word"
begin

text \<open>
  Numbers as text, as the C++ standard library writes and reads them: \<open>std::to_string\<close> of
  an unsigned value, and \<open>std::stoull\<close>/\<open>std::stoul\<close> with a base. The readers return
  \<open>None\<close> where the library throws (\<open>std::invalid_argument\<close> when there are no digits,
  \<open>std::out_of_range\<close> above \<open>2 ^ 64 - 1\<close>); every caller of the sources catches both
  with one \<open>catch (...)\<close>.
\<close>

type_synonym u64 = "64 word"

section \<open>Writing\<close>

definition digit_char :: "nat \<Rightarrow> char" where
  "digit_char d = char_of (48 + d)"

fun decimal :: "nat \<Rightarrow> string" where
  "decimal n = (if n < 10 then [digit_char n] else decimal (n div 10) @ [digit_char (n mod 10)])"

declare decimal.simps [simp del]

definition to_string_u64 :: "u64 \<Rightarrow> string" where
  "to_string_u64 w = decimal (unat w)"

definition to_string_int :: "int \<Rightarrow> string" where
  "to_string_int i = (if i < 0 then CHR ''-'' # decimal (nat (- i)) else decimal (nat i))"

definition is_digit :: "char \<Rightarrow> bool" where
  "is_digit c \<longleftrightarrow> CHR ''0'' \<le> c \<and> c \<le> CHR ''9''"

section \<open>Reading\<close>

definition digit_value :: "nat \<Rightarrow> char \<Rightarrow> nat option" where
  "digit_value base c =
     (let n = of_char c :: nat;
          v = (if 48 \<le> n \<and> n \<le> 57 then n - 48
               else if 97 \<le> n \<and> n \<le> 122 then n - 87
               else if 65 \<le> n \<and> n \<le> 90 then n - 55 else 36)
      in if v < base then Some v else None)"

definition digits_value :: "nat \<Rightarrow> string \<Rightarrow> nat" where
  "digits_value base ds = foldl (\<lambda>acc c. acc * base + the (digit_value base c)) 0 ds"

definition strip_sign :: "string \<Rightarrow> bool \<times> string" where
  "strip_sign s = (case s of
       [] \<Rightarrow> (False, [])
     | c # cs \<Rightarrow> if c = CHR ''-'' then (True, cs) else if c = CHR ''+'' then (False, cs) else (False, s))"

definition strip_hex_prefix :: "nat \<Rightarrow> string \<Rightarrow> string" where
  "strip_hex_prefix base s = (case s of
       z # x # d # ds \<Rightarrow>
         if base = 16 \<and> z = CHR ''0'' \<and> (x = CHR ''x'' \<or> x = CHR ''X'') \<and> digit_value 16 d \<noteq> None
         then d # ds else s
     | _ \<Rightarrow> s)"

text \<open>A minus sign negates the value modulo \<open>2 ^ 64\<close>, as \<open>strtoull\<close> does.\<close>

definition stoull :: "nat \<Rightarrow> string \<Rightarrow> u64 option" where
  "stoull base s =
     (let (neg, s2) = strip_sign (dropWhile is_space s);
          ds = takeWhile (\<lambda>c. digit_value base c \<noteq> None) (strip_hex_prefix base s2);
          v = digits_value base ds
      in if ds = [] \<or> 2 ^ 64 \<le> v then None else Some (if neg then - of_nat v else of_nat v))"

section \<open>Facts\<close>

lemma of_char_digit_char: "d < 10 \<Longrightarrow> (of_char (digit_char d) :: nat) = 48 + d"
  by (simp add: digit_char_def)

lemma digit_value_digit_char: "d < 10 \<Longrightarrow> 10 \<le> base \<Longrightarrow> digit_value base (digit_char d) = Some d"
  by (simp add: digit_value_def of_char_digit_char Let_def)

lemma is_digit_of_char: "is_digit c \<longleftrightarrow> 48 \<le> (of_char c :: nat) \<and> (of_char c :: nat) \<le> 57"
  by (simp add: is_digit_def less_eq_char_def)

lemma is_digit_digit_char: "d < 10 \<Longrightarrow> is_digit (digit_char d)"
  by (simp add: is_digit_of_char of_char_digit_char)

lemma decimal_not_Nil [simp]: "decimal n \<noteq> []"
  by (subst decimal.simps) simp

lemma decimal_digits: "c \<in> set (decimal n) \<Longrightarrow> is_digit c"
proof (induction n rule: decimal.induct)
  case (1 n)
  show ?case
  proof (cases "n < 10")
    case True
    with 1 show ?thesis by (simp add: decimal.simps [of n] is_digit_digit_char)
  next
    case False
    with 1 show ?thesis by (auto simp: decimal.simps [of n] is_digit_digit_char)
  qed
qed

lemma digits_value_snoc:
  "digits_value base (ds @ [c]) = digits_value base ds * base + the (digit_value base c)"
  by (simp add: digits_value_def)

lemma digits_value_decimal: "digits_value 10 (decimal n) = n"
proof (induction n rule: decimal.induct)
  case (1 n)
  show ?case
  proof (cases "n < 10")
    case True
    then show ?thesis
      by (simp add: decimal.simps [of n] digits_value_def digit_value_digit_char)
  next
    case False
    with 1 show ?thesis
      by (simp add: decimal.simps [of n] digits_value_snoc digit_value_digit_char)
  qed
qed

lemma decimal_inject [simp]: "decimal m = decimal n \<longleftrightarrow> m = n"
  by (metis digits_value_decimal)

lemma is_digit_not_space: "is_digit c \<Longrightarrow> \<not> is_space c"
  by (auto simp: is_digit_of_char is_space_def)

lemma is_digit_value: "is_digit c \<Longrightarrow> digit_value 10 c \<noteq> None"
  by (auto simp: is_digit_of_char digit_value_def Let_def)

lemma decimal_hd: "is_digit (hd (decimal n))"
  by (metis decimal_digits decimal_not_Nil hd_in_set)

text \<open>Reading back what was written, whatever non-digit follows it.\<close>

lemma stoull_decimal_append:
  assumes "n < 2 ^ 64" and rest: "rest = [] \<or> digit_value 10 (hd rest) = None"
  shows "stoull 10 (decimal n @ rest) = Some (of_nat n)"
proof -
  obtain d ds where d: "decimal n = d # ds" by (cases "decimal n") auto
  have dig: "is_digit d" using decimal_hd [of n] d by simp
  then have sp: "dropWhile is_space (decimal n @ rest) = decimal n @ rest"
    using d by (simp add: is_digit_not_space)
  have sgn: "strip_sign (decimal n @ rest) = (False, decimal n @ rest)"
    using d dig by (auto simp: strip_sign_def is_digit_of_char)
  have hex: "strip_hex_prefix 10 s = s" for s
    by (simp add: strip_hex_prefix_def split: list.splits)
  have all: "\<forall>c \<in> set (decimal n). digit_value 10 c \<noteq> None"
    using decimal_digits is_digit_value by blast
  have "takeWhile (\<lambda>c. digit_value 10 c \<noteq> None) rest = []"
    using rest by (cases rest) auto
  with all have tw: "takeWhile (\<lambda>c. digit_value 10 c \<noteq> None) (decimal n @ rest) = decimal n"
    by (simp add: takeWhile_append2)
  show ?thesis
    using assms(1) unfolding stoull_def sp sgn by (simp add: Let_def hex tw [simplified] digits_value_decimal)
qed

lemma stoull_to_string: "stoull 10 (to_string_u64 w) = Some w"
proof -
  have "unat w < 2 ^ 64" using unsigned_less [of w, where 'a = nat] by simp
  then show ?thesis
    using stoull_decimal_append [of "unat w" "[]"] by (simp add: to_string_u64_def)
qed

lemma to_string_u64_inject: "to_string_u64 v = to_string_u64 w \<longleftrightarrow> v = w"
  by (metis option.inject stoull_to_string)

lemma decimal_no_newline: "newline \<notin> set (decimal n)"
  using decimal_digits [of newline n] by (auto simp: is_digit_of_char)

lemma decimal_no_char: "\<not> is_digit c \<Longrightarrow> c \<notin> set (decimal n)"
  using decimal_digits by blast

lemma length_decimal: "n < 10 ^ Suc k \<Longrightarrow> length (decimal n) \<le> Suc k"
proof (induction k arbitrary: n)
  case 0
  then show ?case by (simp add: decimal.simps [of n])
next
  case (Suc k)
  then have "n div 10 < 10 ^ Suc k" by (simp add: less_mult_imp_div_less mult.commute)
  from Suc.IH [OF this] show ?case by (simp add: decimal.simps [of n])
qed

lemma length_decimal_size: "n < 2 ^ 64 \<Longrightarrow> length (decimal n) \<le> 20"
  using length_decimal [of n 19] by simp

lemma length_to_string_u64: "length (to_string_u64 w) \<le> 20"
  unfolding to_string_u64_def by (rule length_decimal_size) (use unsigned_less [of w, where 'a = nat] in simp)

end
