(* ===== verification/Core_Types.thy ===== *)
theory Core_Types
  imports Json_Value Number_Text
begin

text \<open>
  \<open>include/kasli/core/types.hpp\<close>, \<open>src/core/types.cpp\<close> and \<open>src/core/uuid.cpp\<close>:
  the enumerations with their string forms, the structs that cross the program (evidence, tool
  request, tool response, audit event), their JSON encoders and decoders, the timestamp and the
  event ids. The lemmas are the round trips of every codec, stated once in the locales of
  \<open>Json_Value\<close> and interpreted here, and the uniqueness of event ids.
\<close>

section \<open>Enumerations\<close>

datatype risk_class = ReadOnly | LowRiskUser | Admin | Destructive

datatype tool_status = Ok | Denied | Error

fun risk_to_string :: "risk_class \<Rightarrow> string" where
  "risk_to_string ReadOnly = ''read_only''"
| "risk_to_string LowRiskUser = ''low_risk_user''"
| "risk_to_string Admin = ''admin''"
| "risk_to_string Destructive = ''destructive''"

definition risk_class_from_string :: "string \<Rightarrow> risk_class result" where
  "risk_class_from_string v =
     (if v = ''read_only'' then Inr ReadOnly
      else if v = ''low_risk_user'' then Inr LowRiskUser
      else if v = ''admin'' then Inr Admin
      else if v = ''destructive'' then Inr Destructive
      else Inl (InvalidArgument (''unknown risk class: '' @ v)))"

fun status_to_string :: "tool_status \<Rightarrow> string" where
  "status_to_string Ok = ''ok''"
| "status_to_string Denied = ''denied''"
| "status_to_string Error = ''error''"

definition tool_status_from_string :: "string \<Rightarrow> tool_status result" where
  "tool_status_from_string v =
     (if v = ''ok'' then Inr Ok
      else if v = ''denied'' then Inr Denied
      else if v = ''error'' then Inr Error
      else Inl (InvalidArgument (''unknown tool status: '' @ v)))"

text \<open>
  The risk classes in declaration order, which is the order \<open>enum class\<close> compares by: the
  least one is \<open>ReadOnly\<close>.
\<close>

fun risk_index :: "risk_class \<Rightarrow> nat" where
  "risk_index ReadOnly = 0"
| "risk_index LowRiskUser = 1"
| "risk_index Admin = 2"
| "risk_index Destructive = 3"

lemma risk_index_inject: "risk_index r = risk_index s \<longleftrightarrow> r = s"
  by (cases r; cases s) auto

instantiation risk_class :: linorder
begin

definition less_eq_risk_class :: "risk_class \<Rightarrow> risk_class \<Rightarrow> bool" where
  "less_eq_risk_class r s \<longleftrightarrow> risk_index r \<le> risk_index s"

definition less_risk_class :: "risk_class \<Rightarrow> risk_class \<Rightarrow> bool" where
  "less_risk_class r s \<longleftrightarrow> risk_index r < risk_index s"

instance
  by standard (auto simp: less_eq_risk_class_def less_risk_class_def risk_index_inject)

end

lemma ReadOnly_least: "ReadOnly \<le> r"
  by (simp add: less_eq_risk_class_def)

section \<open>Structs\<close>

record evidence =
  ev_id :: string
  ev_source :: string
  ev_summary :: string
  ev_body :: string
  ev_timestamp :: string

record tool_request =
  req_id :: string
  req_tool_name :: string
  req_risk :: risk_class
  req_params :: "string smap"

record tool_response =
  resp_request_id :: string
  resp_status :: tool_status
  resp_message :: string
  resp_evidence :: "evidence list"

record audit_event =
  ae_id :: string
  ae_timestamp :: string
  ae_actor :: string
  ae_type :: string
  ae_summary :: string
  ae_details :: "string smap"

section \<open>JSON encoders and decoders\<close>

definition evidence_to_json :: "evidence \<Rightarrow> json" where
  "evidence_to_json e = json_object
     [(''id'', JString (ev_id e)),
      (''source'', JString (ev_source e)),
      (''summary'', JString (ev_summary e)),
      (''body'', JString (ev_body e)),
      (''timestamp'', JString (ev_timestamp e))]"

definition evidence_from_json :: "json \<Rightarrow> evidence result" where
  "evidence_from_json j =
     bind_result (json_field ''id'' j) (\<lambda>i.
     bind_result (json_field ''source'' j) (\<lambda>src.
     bind_result (json_field ''summary'' j) (\<lambda>summ.
     bind_result (json_field ''body'' j) (\<lambda>bdy.
     bind_result (json_field ''timestamp'' j) (\<lambda>ts.
       Inr \<lparr>ev_id = i, ev_source = src, ev_summary = summ, ev_body = bdy, ev_timestamp = ts\<rparr>)))))"

definition request_to_json :: "tool_request \<Rightarrow> json" where
  "request_to_json r = json_object
     [(''id'', JString (req_id r)),
      (''tool_name'', JString (req_tool_name r)),
      (''risk'', JString (risk_to_string (req_risk r))),
      (''params'', json_string_map (req_params r))]"

definition request_from_json :: "json \<Rightarrow> tool_request result" where
  "request_from_json j =
     bind_result (json_field ''id'' j) (\<lambda>i.
     bind_result (json_field ''tool_name'' j) (\<lambda>nm.
     bind_result (bind_result (json_field ''risk'' j) risk_class_from_string) (\<lambda>rk.
     bind_result (json_value json_get_string_map ''params'' [] j) (\<lambda>ps.
       Inr \<lparr>req_id = i, req_tool_name = nm, req_risk = rk, req_params = ps\<rparr>))))"

definition response_to_json :: "tool_response \<Rightarrow> json" where
  "response_to_json r = json_object
     [(''request_id'', JString (resp_request_id r)),
      (''status'', JString (status_to_string (resp_status r))),
      (''message'', JString (resp_message r)),
      (''evidence'', JArray (map evidence_to_json (resp_evidence r)))]"

definition response_from_json :: "json \<Rightarrow> tool_response result" where
  "response_from_json j =
     bind_result (json_field ''request_id'' j) (\<lambda>i.
     bind_result (bind_result (json_field ''status'' j) tool_status_from_string) (\<lambda>st.
     bind_result (json_field ''message'' j) (\<lambda>msg.
     bind_result (json_value (json_get_list evidence_from_json) ''evidence'' [] j) (\<lambda>evs.
       Inr \<lparr>resp_request_id = i, resp_status = st, resp_message = msg, resp_evidence = evs\<rparr>))))"

definition audit_to_json :: "audit_event \<Rightarrow> json" where
  "audit_to_json e = json_object
     [(''id'', JString (ae_id e)),
      (''timestamp'', JString (ae_timestamp e)),
      (''actor'', JString (ae_actor e)),
      (''type'', JString (ae_type e)),
      (''summary'', JString (ae_summary e)),
      (''details'', json_string_map (ae_details e))]"

definition audit_from_json :: "json \<Rightarrow> audit_event result" where
  "audit_from_json j =
     bind_result (json_field ''id'' j) (\<lambda>i.
     bind_result (json_field ''timestamp'' j) (\<lambda>ts.
     bind_result (json_field ''actor'' j) (\<lambda>act.
     bind_result (json_field ''type'' j) (\<lambda>ty.
     bind_result (json_field ''summary'' j) (\<lambda>summ.
     bind_result (json_value json_get_string_map ''details'' [] j) (\<lambda>ds.
       Inr \<lparr>ae_id = i, ae_timestamp = ts, ae_actor = act, ae_type = ty, ae_summary = summ,
            ae_details = ds\<rparr>))))))"

section \<open>Timestamps and event ids\<close>

text \<open>
  \<open>utc_timestamp\<close> formats the broken-down time \<open>gmtime_r\<close> delivers with
  \<open>"%Y-%m-%dT%H:%M:%SZ"\<close>; the clock reading itself is an argument.
\<close>

record utc_tm =
  tm_year :: nat
  tm_mon :: nat
  tm_mday :: nat
  tm_hour :: nat
  tm_min :: nat
  tm_sec :: nat

definition two_digits :: "nat \<Rightarrow> string" where
  "two_digits n = [digit_char (n div 10 mod 10), digit_char (n mod 10)]"

definition utc_timestamp :: "utc_tm \<Rightarrow> string" where
  "utc_timestamp t =
     decimal (1900 + tm_year t) @ ''-'' @ two_digits (tm_mon t + 1) @ ''-'' @ two_digits (tm_mday t)
     @ ''T'' @ two_digits (tm_hour t) @ '':'' @ two_digits (tm_min t) @ '':'' @ two_digits (tm_sec t)
     @ ''Z''"

text \<open>
  \<open>make_event_id\<close>: the process-wide counter is an \<open>unsigned long long\<close>, so it wraps;
  the result is the id and the counter after \<open>fetch_add\<close>.
\<close>

definition make_event_id :: "int \<Rightarrow> u64 \<Rightarrow> string \<times> u64" where
  "make_event_id now counter =
     (''event-'' @ to_string_int now @ ''-'' @ to_string_u64 counter, counter + 1)"

section \<open>Round trips\<close>

interpretation risk: enum_codec risk_to_string risk_class_from_string
proof
  show "risk_class_from_string (risk_to_string x) = Inr x" for x
    by (cases x) (simp_all add: risk_class_from_string_def)
  show "risk_class_from_string s = Inr x \<Longrightarrow> risk_to_string x = s" for s x
    by (auto simp: risk_class_from_string_def split: if_splits)
qed

interpretation status: enum_codec status_to_string tool_status_from_string
proof
  show "tool_status_from_string (status_to_string x) = Inr x" for x
    by (cases x) (simp_all add: tool_status_from_string_def)
  show "tool_status_from_string s = Inr x \<Longrightarrow> status_to_string x = s" for s x
    by (auto simp: tool_status_from_string_def split: if_splits)
qed

interpretation evidence: json_codec evidence_to_json evidence_from_json "\<lambda>_. True"
  by unfold_locales (simp add: evidence_to_json_def evidence_from_json_def)

lemma evidence_list_from_to [result_simps]:
  "json_get_list evidence_from_json (JArray (map evidence_to_json es)) = Inr es"
  by (rule evidence.list_from_to) (simp add: list_all_iff)

interpretation request: json_codec request_to_json request_from_json "\<lambda>_. True"
  by unfold_locales (simp add: request_to_json_def request_from_json_def risk.from_to_str)

interpretation response: json_codec response_to_json response_from_json "\<lambda>_. True"
  by unfold_locales
    (simp add: response_to_json_def response_from_json_def status.from_to_str
      evidence_list_from_to del: json_get_list.simps)

interpretation audit: json_codec audit_to_json audit_from_json "\<lambda>_. True"
  by unfold_locales (simp add: audit_to_json_def audit_from_json_def)

section \<open>Event ids\<close>

text \<open>The counter is what follows the last dash of an id, so ids with different counters differ.\<close>

lemma dash_not_digit [simp]: "CHR ''-'' \<notin> set (decimal n)"
  by (rule decimal_no_char) (simp add: is_digit_of_char)

lemma last_dash_split:
  assumes "u @ CHR ''-'' # a = v @ CHR ''-'' # b" "CHR ''-'' \<notin> set a" "CHR ''-'' \<notin> set b"
  shows "a = b"
proof -
  define p where "p = (\<lambda>c. c \<noteq> CHR ''-'')"
  have upto: "takeWhile p (rev s @ CHR ''-'' # t) = rev s" if "CHR ''-'' \<notin> set s" for s t
    using that by (subst takeWhile_append2) (auto simp: p_def)
  have "rev a @ CHR ''-'' # rev u = rev b @ CHR ''-'' # rev v"
    using arg_cong [OF assms(1), of rev] by simp
  then have "rev a = rev b"
    using upto [OF assms(2), of "rev u"] upto [OF assms(3), of "rev v"] by simp
  then show ?thesis by simp
qed

lemma event_id_counter:
  assumes "fst (make_event_id n1 c1) = fst (make_event_id n2 c2)"
  shows "c1 = c2"
proof -
  have "(''event-'' @ to_string_int n1) @ CHR ''-'' # to_string_u64 c1
      = (''event-'' @ to_string_int n2) @ CHR ''-'' # to_string_u64 c2"
    using assms by (simp add: make_event_id_def)
  then have "to_string_u64 c1 = to_string_u64 c2"
    by (rule last_dash_split) (simp_all add: to_string_u64_def)
  then show ?thesis by (simp add: to_string_u64_inject)
qed

text \<open>The ids of a run of the program, one clock reading each.\<close>

fun event_ids :: "int list \<Rightarrow> u64 \<Rightarrow> string list" where
  "event_ids [] counter = []"
| "event_ids (now # nows) counter =
     (let (i, counter') = make_event_id now counter in i # event_ids nows counter')"

lemma event_ids_nth:
  "k < length nows \<Longrightarrow> event_ids nows c ! k = fst (make_event_id (nows ! k) (c + of_nat k))"
proof (induction nows arbitrary: c k)
  case (Cons now nows)
  then show ?case
    by (cases k) (simp_all add: make_event_id_def algebra_simps)
qed simp

lemma length_event_ids [simp]: "length (event_ids nows c) = length nows"
  by (induction nows arbitrary: c) (auto simp: make_event_id_def)

lemma of_nat_u64_inject:
  "i < 2 ^ 64 \<Longrightarrow> j < 2 ^ 64 \<Longrightarrow> (of_nat i :: u64) = of_nat j \<longleftrightarrow> i = j"
  by (simp add: word_of_nat_eq_iff take_bit_nat_eq_self)

lemma event_ids_distinct:
  assumes "length nows \<le> 2 ^ 64"
  shows "distinct (event_ids nows c)"
proof -
  have "event_ids nows c ! i \<noteq> event_ids nows c ! j"
    if "i < length nows" "j < length nows" "i \<noteq> j" for i j
  proof
    assume "event_ids nows c ! i = event_ids nows c ! j"
    with that have "c + of_nat i = c + of_nat j"
      using event_id_counter by (metis event_ids_nth)
    with that assms show False by (simp add: of_nat_u64_inject)
  qed
  then show ?thesis by (simp add: distinct_conv_nth)
qed

section \<open>Properties\<close>

text \<open>
  C28: Every struct of the wire protocol and of the audit log is read back from its JSON form as it
  was written: evidence with all five fields, a request with its risk class and parameters, a
  response with its status and every evidence item, an audit event with its details.
\<close>

theorem json_round_trips:
  "evidence_from_json (evidence_to_json e) = Inr e
   \<and> request_from_json (request_to_json q) = Inr q
   \<and> response_from_json (response_to_json r) = Inr r
   \<and> audit_from_json (audit_to_json a) = Inr a"
  by (intro conjI evidence.from_to request.from_to response.from_to audit.from_to TrueI)

text \<open>
  \<open>risk_class_from_string\<close> and \<open>tool_status_from_string\<close> accept exactly the
  strings the encoders write, each as the constructor it was written from, and throw
  \<open>std::invalid_argument\<close> with the offending text on every other string.
\<close>

theorem enum_strings_exact:
  "risk_class_from_string s =
     (case find (\<lambda>r. risk_to_string r = s) [ReadOnly, LowRiskUser, Admin, Destructive] of
        Some r \<Rightarrow> Inr r | None \<Rightarrow> Inl (InvalidArgument (''unknown risk class: '' @ s)))
   \<and> tool_status_from_string s =
     (case find (\<lambda>t. status_to_string t = s) [Ok, Denied, Error] of
        Some t \<Rightarrow> Inr t | None \<Rightarrow> Inl (InvalidArgument (''unknown tool status: '' @ s)))"
  by (auto simp: risk_class_from_string_def tool_status_from_string_def)

text \<open>
  The event ids one process makes are pairwise different, whatever the clock reads, as long as
  it makes at most \<open>2 ^ 64\<close> of them, which is where the counter wraps.
\<close>

theorem event_ids_unique:
  assumes "length nows \<le> 2 ^ 64"
  shows "distinct (event_ids nows c)"
  using assms by (rule event_ids_distinct)

lemma event_ids_unique_witness: "distinct (event_ids [5, 5, -3] (-1))"
  by (rule event_ids_unique) simp

end
