(* ===== verification/Policy_Broker.thy ===== *)
theory Policy_Broker
  imports Core_Types
begin

text \<open>
  \<open>src/policy/policy_broker.cpp\<close>: the allowlist of tools with their risk classes, and the
  decision on a request. The broker is the \<open>std::map\<close> its constructor fills; the decision
  looks at the registered risk, never at the risk the caller wrote into the request.
\<close>

record policy_decision =
  pd_allowed :: bool
  pd_reason :: string

record tool_policy =
  tp_tool_name :: string
  tp_risk :: risk_class

type_synonym broker = "risk_class smap"

definition policy_broker :: "tool_policy list \<Rightarrow> broker" where
  "policy_broker allowed_tools =
     fold (\<lambda>tool m. smap_emplace (tp_tool_name tool) (tp_risk tool) m) allowed_tools []"

definition decide :: "broker \<Rightarrow> tool_request \<Rightarrow> policy_decision" where
  "decide allowed_tools request =
     (case smap_find allowed_tools (req_tool_name request) of
        None \<Rightarrow>
          \<lparr>pd_allowed = False, pd_reason = ''tool is not registered in policy allowlist''\<rparr>
      | Some risk \<Rightarrow>
          if risk \<noteq> ReadOnly
          then \<lparr>pd_allowed = False, pd_reason = ''only read-only tools are allowed in v1''\<rparr>
          else \<lparr>pd_allowed = True, pd_reason = ''read-only tool allowed''\<rparr>)"

text \<open>The first policy given for a name is the one that counts.\<close>

lemma policy_broker_smap:
  "policy_broker ps = fold (\<lambda>(k, v) m. smap_emplace k v m) (map (\<lambda>p. (tp_tool_name p, tp_risk p)) ps) []"
  by (simp add: policy_broker_def fold_map comp_def)

lemma find_policy_broker:
  "smap_find (policy_broker ps) n = map_of (map (\<lambda>p. (tp_tool_name p, tp_risk p)) ps) n"
  by (simp add: policy_broker_smap smap.find_fold_emplace smap.find_empty)

lemma policy_broker_ok: "smap_ok (policy_broker ps)"
  unfolding policy_broker_smap by (rule smap.ok_fold_emplace) (rule smap.ok_empty)

lemma decide_allowed:
  "pd_allowed (decide b q) \<longleftrightarrow> smap_find b (req_tool_name q) = Some ReadOnly"
  by (simp add: decide_def split: option.splits)

lemma decide_reads_name: "req_tool_name q = req_tool_name q' \<Longrightarrow> decide b q = decide b q'"
  by (simp add: decide_def)

lemma decide_reason_length: "length (pd_reason (decide b q)) \<le> 2048"
  by (simp add: decide_def split: option.splits)

end
