(* ===== verification/Tool_Registry.thy ===== *)
theory Tool_Registry
  imports Policy_Broker
begin

text \<open>
  \<open>include/kasli/tools/tool.hpp\<close> and \<open>src/tools/tool_registry.cpp\<close>: a tool and the
  registry that owns the tools. A tool's virtual methods are the fields of a record; its
  \<open>call\<close> reads the operating system, whose state at the call is the argument of type
  \<open>'m\<close>. The locale \<open>tool_directory\<close> states what the session and the daemon rely on;
  in it the policy made from the registered tools is shown to allow exactly the registered
  read-only tools.
\<close>

record 'm tool =
  tool_name :: string
  tool_risk :: risk_class
  tool_call :: "'m \<Rightarrow> tool_request \<Rightarrow> tool_response result"

type_synonym 'm registry = "'m tool list"

definition registry_find :: "'m registry \<Rightarrow> string \<Rightarrow> 'm tool option" where
  "registry_find tools name = find (\<lambda>tool. tool_name tool = name) tools"

definition registry_add :: "'m tool option \<Rightarrow> 'm registry \<Rightarrow> 'm registry result" where
  "registry_add tool tools =
     (case tool of
        None \<Rightarrow> Inl (InvalidArgument ''tool registry cannot add null tool'')
      | Some t \<Rightarrow>
          if registry_find tools (tool_name t) \<noteq> None
          then Inl (InvalidArgument ''tool registry cannot add duplicate tool name'')
          else Inr (tools @ [t]))"

definition registry_names :: "'m registry \<Rightarrow> string list" where
  "registry_names tools = map tool_name tools"

definition registry_policies :: "'m registry \<Rightarrow> tool_policy list" where
  "registry_policies tools =
     map (\<lambda>t. \<lparr>tp_tool_name = tool_name t, tp_risk = tool_risk t\<rparr>) tools"

text \<open>Adding several tools in order, stopping at the first exception.\<close>

fun registry_add_all :: "'m tool option list \<Rightarrow> 'm registry \<Rightarrow> 'm registry result" where
  "registry_add_all [] tools = Inr tools"
| "registry_add_all (t # ts) tools =
     bind_result (registry_add t tools) (registry_add_all ts)"

section \<open>The tool interface\<close>

text \<open>
  What every tool of the program promises of \<open>call\<close>: it is registered as read-only, it answers
  under the request's id, it never claims a policy denial, and it has evidence when it succeeds. A
  bounded tool also promises that no evidence body is longer than its limit, and a plain tool that an
  error carries no evidence.
\<close>

locale tool_contract =
  fixes t :: "'m tool"
  assumes read_only: "tool_risk t = ReadOnly"
    and echoes: "tool_call t m q = Inr r \<Longrightarrow> resp_request_id r = req_id q"
    and never_denies: "tool_call t m q = Inr r \<Longrightarrow> resp_status r \<noteq> Denied"
    and ok_has_evidence: "tool_call t m q = Inr r \<Longrightarrow> resp_status r = Ok \<Longrightarrow> resp_evidence r \<noteq> []"
begin

lemma no_evidence_is_error: "tool_call t m q = Inr r \<Longrightarrow> resp_evidence r = [] \<Longrightarrow> resp_status r = Error"
  using never_denies [of m q r] ok_has_evidence [of m q r] by (cases "resp_status r") auto

end

locale plain_tool = tool_contract +
  assumes error_is_plain: "tool_call t m q = Inr r \<Longrightarrow> resp_status r = Error \<Longrightarrow> resp_evidence r = []"
begin

lemma evidence_iff_ok: "tool_call t m q = Inr r \<Longrightarrow> resp_status r = Ok \<longleftrightarrow> resp_evidence r \<noteq> []"
  using ok_has_evidence [of m q r] error_is_plain [of m q r] never_denies [of m q r]
  by (cases "resp_status r") auto

end

locale bounded_tool = tool_contract +
  fixes cap :: nat
  assumes bodies_bounded:
      "tool_call t m q = Inr r \<Longrightarrow> e \<in> set (resp_evidence r) \<Longrightarrow> length (ev_body e) \<le> cap"
begin

lemma weaken_cap: "cap \<le> cap' \<Longrightarrow> bounded_tool t cap'"
  using bodies_bounded by unfold_locales (fastforce intro: order.trans)

end

text \<open>A tool that reads a part of the machine is a tool on the whole machine.\<close>

definition lift_tool :: "('n \<Rightarrow> 'm) \<Rightarrow> 'm tool \<Rightarrow> 'n tool" where
  "lift_tool part t =
     \<lparr>tool_name = tool_name t, tool_risk = tool_risk t, tool_call = (\<lambda>m. tool_call t (part m))\<rparr>"

lemma lift_tool_simps [simp]:
  "tool_name (lift_tool part t) = tool_name t"
  "tool_risk (lift_tool part t) = tool_risk t"
  "tool_call (lift_tool part t) m = tool_call t (part m)"
  by (simp_all add: lift_tool_def)

lemma lift_tool_contract: "tool_contract t \<Longrightarrow> tool_contract (lift_tool part t)"
  by (simp add: tool_contract_def)

lemma lift_bounded_tool: "bounded_tool t cap \<Longrightarrow> bounded_tool (lift_tool part t) cap"
  by (simp add: bounded_tool_def bounded_tool_axioms_def lift_tool_contract)

text \<open>The contract of a registry: all its tools keep theirs.\<close>

definition tools_keep_contract :: "'m registry \<Rightarrow> bool" where
  "tools_keep_contract r \<longleftrightarrow> (\<forall>t \<in> set r. tool_contract t)"

section \<open>The directory interface\<close>

locale tool_directory =
  fixes empty :: "'r"
    and add :: "'m tool option \<Rightarrow> 'r \<Rightarrow> 'r result"
    and find_tool :: "'r \<Rightarrow> string \<Rightarrow> 'm tool option"
    and names :: "'r \<Rightarrow> string list"
    and policies :: "'r \<Rightarrow> tool_policy list"
    and ok :: "'r \<Rightarrow> bool"
  assumes ok_empty: "ok empty"
    and names_empty: "names empty = []"
    and add_null: "\<exists>msg. add None r = Inl (InvalidArgument msg)"
    and add_fresh:
      "tool_name t \<notin> set (names r) \<Longrightarrow> \<exists>r'. add (Some t) r = Inr r'"
    and add_duplicate:
      "tool_name t \<in> set (names r) \<Longrightarrow> \<exists>msg. add (Some t) r = Inl (InvalidArgument msg)"
    and ok_add: "ok r \<Longrightarrow> add x r = Inr r' \<Longrightarrow> ok r'"
    and names_add: "add (Some t) r = Inr r' \<Longrightarrow> names r' = names r @ [tool_name t]"
    and find_add:
      "add (Some t) r = Inr r' \<Longrightarrow>
         find_tool r' n = (if n = tool_name t then Some t else find_tool r n)"
    and find_name: "find_tool r n = Some t \<Longrightarrow> tool_name t = n"
    and find_names: "find_tool r n \<noteq> None \<longleftrightarrow> n \<in> set (names r)"
    and names_distinct: "ok r \<Longrightarrow> distinct (names r)"
    and policies_find:
      "map_of (map (\<lambda>p. (tp_tool_name p, tp_risk p)) (policies r)) n = map_option tool_risk (find_tool r n)"
begin

lemma broker_find: "smap_find (policy_broker (policies r)) n = map_option tool_risk (find_tool r n)"
  by (simp add: find_policy_broker policies_find)

lemma broker_allows:
  "pd_allowed (decide (policy_broker (policies r)) q) \<longleftrightarrow>
     (\<exists>t. find_tool r (req_tool_name q) = Some t \<and> tool_risk t = ReadOnly)"
  by (auto simp: decide_allowed broker_find)

lemma broker_reason:
  "decide (policy_broker (policies r)) q =
     (case find_tool r (req_tool_name q) of
        None \<Rightarrow> \<lparr>pd_allowed = False, pd_reason = ''tool is not registered in policy allowlist''\<rparr>
      | Some t \<Rightarrow>
          if tool_risk t = ReadOnly then \<lparr>pd_allowed = True, pd_reason = ''read-only tool allowed''\<rparr>
          else \<lparr>pd_allowed = False, pd_reason = ''only read-only tools are allowed in v1''\<rparr>)"
  by (simp add: decide_def broker_find split: option.splits)

text \<open>Adding a tool never changes what is decided or found for another name.\<close>

lemma add_keeps_decision:
  "add (Some t) r = Inr r' \<Longrightarrow> req_tool_name q \<noteq> tool_name t \<Longrightarrow>
     decide (policy_broker (policies r')) q = decide (policy_broker (policies r)) q"
  by (simp add: broker_reason find_add)

end

lemma find_add_name: "find P (xs @ [x]) = (case find P xs of None \<Rightarrow> (if P x then Some x else None) | Some y \<Rightarrow> Some y)"
  by (induction xs) auto

lemma registry_find_Some: "registry_find r n = Some t \<Longrightarrow> tool_name t = n \<and> t \<in> set r"
  by (auto simp: registry_find_def find_Some_iff)

lemma registry_find_None: "registry_find r n = None \<longleftrightarrow> n \<notin> set (registry_names r)"
  by (auto simp: registry_find_def registry_names_def find_None_iff)

lemma registry_policies_find:
  "map_of (map (\<lambda>p. (tp_tool_name p, tp_risk p)) (registry_policies r)) n =
     map_option tool_risk (registry_find r n)"
  by (induction r) (auto simp: registry_policies_def registry_find_def)

interpretation reg: tool_directory "[]" registry_add registry_find registry_names registry_policies
  "\<lambda>r. distinct (registry_names r)"
proof
  show "\<exists>msg. registry_add None r = Inl (InvalidArgument msg)" for r :: "'a registry"
    by (simp add: registry_add_def)
  show "tool_name t \<notin> set (registry_names r) \<Longrightarrow> \<exists>r'. registry_add (Some t) r = Inr r'" for t :: "'a tool" and r
    by (simp add: registry_add_def registry_find_None)
  show "tool_name t \<in> set (registry_names r) \<Longrightarrow> \<exists>msg. registry_add (Some t) r = Inl (InvalidArgument msg)"
    for t :: "'a tool" and r
    by (simp add: registry_add_def registry_find_None)
  show "distinct (registry_names r) \<Longrightarrow> registry_add x r = Inr r' \<Longrightarrow> distinct (registry_names r')"
    for x r and r' :: "'a registry"
    by (auto simp: registry_add_def registry_find_None registry_names_def split: option.splits if_splits)
  show "registry_add (Some t) r = Inr r' \<Longrightarrow> registry_names r' = registry_names r @ [tool_name t]"
    for t :: "'a tool" and r r'
    by (auto simp: registry_add_def registry_names_def split: if_splits)
  show "registry_add (Some t) r = Inr r' \<Longrightarrow>
      registry_find r' n = (if n = tool_name t then Some t else registry_find r n)"
    for t :: "'a tool" and r r' n
    by (auto simp: registry_add_def registry_find_def find_add_name split: if_splits option.splits)
  show "registry_find r n = Some t \<Longrightarrow> tool_name t = n" for t :: "'a tool" and r n
    by (simp add: registry_find_Some)
  show "registry_find r n \<noteq> None \<longleftrightarrow> n \<in> set (registry_names r)" for r :: "'a registry" and n
    by (simp add: registry_find_None)
  show "map_of (map (\<lambda>p. (tp_tool_name p, tp_risk p)) (registry_policies r)) n =
      map_option tool_risk (registry_find r n)" for r :: "'a registry" and n
    by (rule registry_policies_find)
qed (simp_all add: registry_names_def)

lemma registry_add_all_append:
  "registry_add_all (ts @ us) r = bind_result (registry_add_all ts r) (registry_add_all us)"
  by (induction ts arbitrary: r) (auto simp: bind_result_def split: sum.splits)

text \<open>Tools with fresh, pairwise different names are all added, in order.\<close>

lemma registry_add_all_fresh:
  "distinct (registry_names (r @ ts)) \<Longrightarrow> registry_add_all (map Some ts) r = Inr (r @ ts)"
proof (induction ts arbitrary: r)
  case (Cons t ts)
  then have "registry_find r (tool_name t) = None"
    by (auto simp: registry_find_None registry_names_def)
  with Cons show ?case by (simp add: registry_add_def)
qed simp

text \<open>
  The registry never holds two tools of one name: adding a null tool or a tool whose name is
  taken throws \<open>std::invalid_argument\<close>, any other tool is put last and found under its
  name, and every other name finds what it found before.
\<close>

theorem registry_add_behaviour:
  "registry_add None r = Inl (InvalidArgument ''tool registry cannot add null tool'')
   \<and> (if tool_name t \<in> set (registry_names r)
      then registry_add (Some t) r =
             Inl (InvalidArgument ''tool registry cannot add duplicate tool name'')
      else \<exists>r'. registry_add (Some t) r = Inr r'
             \<and> registry_names r' = registry_names r @ [tool_name t]
             \<and> registry_find r' n = (if n = tool_name t then Some t else registry_find r n))"
proof (cases "tool_name t \<in> set (registry_names r)")
  case True
  then show ?thesis by (auto simp: registry_add_def registry_find_None)
next
  case False
  then obtain r' where r': "registry_add (Some t) r = Inr r'" using reg.add_fresh by blast
  with False reg.names_add [OF r'] reg.find_add [OF r', of n] show ?thesis
    by (simp add: registry_add_def)
qed

text \<open>
  The policy the daemon builds from its registry allows a request exactly when a tool of that
  name is registered and the tool itself is read-only; the risk class, the id and the parameters
  the caller sends have no influence.
\<close>

theorem policy_follows_registry:
  "pd_allowed (decide (policy_broker (registry_policies r)) q) \<longleftrightarrow>
     (\<exists>t. registry_find r (req_tool_name q) = Some t \<and> tool_risk t = ReadOnly)"
  by (rule reg.broker_allows)

end
