(* ===== verification/Audit_Log.thy ===== *)
theory Audit_Log
  imports Core_Types
begin

text \<open>
  \<open>src/audit/audit_log.cpp\<close>: the append-only audit log, one JSON line per event. The state
  is the bytes of the log file; what the disk does with one append (which of open, write, flush and
  close fails, and how many bytes of the record reached the file before) is an argument. The locale
  \<open>line_log\<close> is the contract its client, the session service, relies on.
\<close>

section \<open>The code\<close>

text \<open>
  What happens to the stream operations of one \<open>append\<close>; a failure comes with the number of
  bytes of the record that are in the file all the same.
\<close>

datatype disk_outcome =
    OpenFails
  | WriteFails nat
  | FlushFails nat
  | CloseFails nat
  | DiskOk

definition audit_write_error :: "string \<Rightarrow> exn" where
  "audit_write_error path = RuntimeError (''failed to write audit log: '' @ path)"

definition audit_record :: "json_lib \<Rightarrow> audit_event \<Rightarrow> string result" where
  "audit_record jl event =
     bind_result (json_dump jl (audit_to_json event)) (\<lambda>s. Inr (s @ [newline]))"

definition audit_append ::
  "json_lib \<Rightarrow> string \<Rightarrow> disk_outcome \<Rightarrow> audit_event \<Rightarrow> string \<Rightarrow> unit result \<times> string" where
  "audit_append jl path outcome event file =
     (case audit_record jl event of
        Inl e \<Rightarrow> (Inl e, file)
      | Inr record \<Rightarrow>
          (case outcome of
             OpenFails \<Rightarrow> (Inl (RuntimeError (''failed to open audit log: '' @ path)), file)
           | WriteFails n \<Rightarrow> (Inl (audit_write_error path), file @ take n record)
           | FlushFails n \<Rightarrow> (Inl (audit_write_error path), file @ take n record)
           | CloseFails n \<Rightarrow> (Inl (audit_write_error path), file @ take n record)
           | DiskOk \<Rightarrow> (Inr (), file @ record)))"

text \<open>A reader of the log: every line parsed and decoded.\<close>

definition read_audit :: "json_lib \<Rightarrow> string \<Rightarrow> audit_event list result" where
  "read_audit jl file = map_result (\<lambda>l. bind_result (json_parse jl l) audit_from_json) (get_lines file)"

section \<open>The contract\<close>

locale line_log =
  fixes record_of :: "'e \<Rightarrow> string result"
    and append :: "'o \<Rightarrow> 'e \<Rightarrow> string \<Rightarrow> unit result \<times> string"
  assumes appended: "append out e f = (Inr (), f') \<Longrightarrow> \<exists>r. record_of e = Inr r \<and> f' = f @ r"
    and only_grows: "prefix f (snd (append out e f))"
    and at_most_record: "record_of e = Inr r \<Longrightarrow> prefix (snd (append out e f)) (f @ r)"
    and unencodable: "record_of e = Inl x \<Longrightarrow> append out e f = (Inl x, f)"
begin

fun append_all :: "('o \<times> 'e) list \<Rightarrow> string \<Rightarrow> unit result \<times> string" where
  "append_all [] f = (Inr (), f)"
| "append_all ((out, e) # es) f =
     (case append out e f of
        (Inl x, f') \<Rightarrow> (Inl x, f')
      | (Inr _, f') \<Rightarrow> append_all es f')"

lemma append_all_grows: "prefix f (snd (append_all es f))"
proof (induction es arbitrary: f)
  case (Cons oe es)
  obtain out e where oe: "oe = (out, e)" by force
  obtain x g where g: "append out e f = (x, g)" by force
  then have "prefix f g" using only_grows [of f out e] by simp
  moreover have "prefix g (snd (append_all es g))" by (rule Cons.IH)
  ultimately show ?case
    using g oe by (cases x) (auto intro: prefix_order.trans)
qed simp

lemma append_all_ok:
  "append_all es f = (Inr (), f') \<Longrightarrow>
     \<exists>rs. map (record_of \<circ> snd) es = map Inr rs \<and> f' = f @ concat rs"
proof (induction es arbitrary: f)
  case (Cons oe es)
  obtain out e where oe: "oe = (out, e)" by force
  with Cons.prems obtain g where g: "append out e f = (Inr (), g)" "append_all es g = (Inr (), f')"
    by (auto split: prod.splits sum.splits)
  from appended [OF g(1)] obtain r where r: "record_of e = Inr r" "g = f @ r" by blast
  from Cons.IH [OF g(2)] obtain rs where "map (record_of \<circ> snd) es = map Inr rs" "f' = g @ concat rs"
    by blast
  with r oe have "map (record_of \<circ> snd) (oe # es) = map Inr (r # rs) \<and> f' = f @ concat (r # rs)"
    by simp
  then show ?case by blast
qed simp

end

interpretation audit_log: line_log "audit_record jl" "audit_append jl path"
proof
  show "\<exists>r. audit_record jl e = Inr r \<and> f' = f @ r"
    if "audit_append jl path out e f = (Inr (), f')" for out e f f'
    using that by (auto simp: audit_append_def split: sum.splits disk_outcome.splits)
  show "prefix f (snd (audit_append jl path out e f))" for out e f
    by (auto simp: audit_append_def split: sum.splits disk_outcome.splits)
  show "prefix (snd (audit_append jl path out e f)) (f @ r)" if "audit_record jl e = Inr r" for out e f r
    using that by (auto simp: audit_append_def take_is_prefix split: disk_outcome.splits)
  show "audit_append jl path out e f = (Inl x, f)" if "audit_record jl e = Inl x" for out e f x
    using that by (simp add: audit_append_def)
qed

lemma audit_append_ok:
  "audit_record jl event = Inr r \<Longrightarrow> audit_append jl path DiskOk event file = (Inr (), file @ r)"
  by (simp add: audit_append_def)

lemma audit_append_std: "audit_append jl path out event file = (Inl e, file') \<Longrightarrow>
  e = RuntimeError (''failed to open audit log: '' @ path) \<or> e = audit_write_error path
  \<or> json_dump jl (audit_to_json event) = Inl e"
  by (auto simp: audit_append_def audit_record_def bind_result_eq_Inl split: sum.splits disk_outcome.splits)

text \<open>
  The audit log is append-only and never claims a record it does not hold: whatever the disk
  does, the old bytes of the file stay, at most the one record is added behind them, and
  \<open>append\<close> returns normally only if the whole record, ended by its newline, is in the file.
\<close>

theorem audit_append_only:
  "\<exists>added. snd (audit_append jl path out event file) = file @ added
     \<and> (case audit_record jl event of Inl _ \<Rightarrow> added = [] | Inr r \<Rightarrow> prefix added r)
     \<and> (case fst (audit_append jl path out event file) of
          Inl _ \<Rightarrow> True | Inr _ \<Rightarrow> audit_record jl event = Inr added \<and> last added = newline)"
proof -
  obtain added where a: "snd (audit_append jl path out event file) = file @ added"
    by (metis audit_log.only_grows prefix_def)
  have k: "case audit_record jl event of Inl _ \<Rightarrow> added = [] | Inr r \<Rightarrow> prefix added r"
  proof (cases "audit_record jl event")
    case (Inl x)
    from audit_log.unencodable [OF Inl] a Inl show ?thesis by simp
  next
    case (Inr r)
    from audit_log.at_most_record [OF Inr] have "prefix (file @ added) (file @ r)" by (metis a)
    with Inr show ?thesis by simp
  qed
  have "audit_record jl event = Inr added \<and> last added = newline"
    if "fst (audit_append jl path out event file) = Inr ()"
  proof -
    have "audit_append jl path out event file = (Inr (), file @ added)"
      using that a by (metis prod.collapse)
    from audit_log.appended [OF this] have r: "audit_record jl event = Inr added" by auto
    then show ?thesis by (auto simp: audit_record_def bind_result_eq_Inr)
  qed
  then have "case fst (audit_append jl path out event file) of
      Inl _ \<Rightarrow> True | Inr _ \<Rightarrow> audit_record jl event = Inr added \<and> last added = newline"
    by (cases "fst (audit_append jl path out event file)") auto
  with a k show ?thesis by blast
qed

text \<open>A JSON text without a raw newline that the library reads back: what \<open>dump()\<close> writes.\<close>

definition dumps_line :: "json_lib \<Rightarrow> json \<Rightarrow> string \<Rightarrow> bool" where
  "dumps_line jl j s \<longleftrightarrow> json_dump jl j = Inr s \<and> json_parse jl s = Inr j \<and> newline \<notin> set s"

lemma read_audit_lines:
  assumes "list_all2 (\<lambda>e s. dumps_line jl (audit_to_json e) s) es ss"
  shows "read_audit jl (concat (map (\<lambda>s. s @ [newline]) ss)) = Inr es"
proof -
  have "\<forall>l \<in> set ss. newline \<notin> set l"
    using assms by (auto simp: list_all2_conv_all_nth dumps_line_def in_set_conv_nth)
  then have "get_lines (concat (map (\<lambda>s. s @ [newline]) ss)) = ss" by (rule get_lines_concat)
  moreover have "map_result (\<lambda>l. bind_result (json_parse jl l) audit_from_json) ss = Inr es"
    using assms by (induction rule: list_all2_induct) (auto simp: dumps_line_def audit.from_to)
  ultimately show ?thesis by (simp add: read_audit_def)
qed

text \<open>Appending a list of events to a log, each with an undisturbed disk.\<close>

fun audit_append_all :: "json_lib \<Rightarrow> string \<Rightarrow> audit_event list \<Rightarrow> string \<Rightarrow> unit result \<times> string" where
  "audit_append_all jl path [] file = (Inr (), file)"
| "audit_append_all jl path (e # es) file =
     (case audit_append jl path DiskOk e file of
        (Inl x, file') \<Rightarrow> (Inl x, file')
      | (Inr _, file') \<Rightarrow> audit_append_all jl path es file')"

lemma audit_append_all_text:
  "list_all2 (\<lambda>e s. dumps_line jl (audit_to_json e) s) es ss \<Longrightarrow>
     audit_append_all jl path es f = (Inr (), f @ concat (map (\<lambda>s. s @ [newline]) ss))"
proof (induction es ss arbitrary: f rule: list_all2_induct)
  case (Cons e es s ss)
  then show ?case by (simp add: audit_append_ok audit_record_def dumps_line_def)
qed simp

text \<open>
  The audit log is read back: events appended to an empty log are what a reader gets by
  splitting the file at newlines and decoding each line, in the order they were written. The
  hypothesis on the JSON library is its documented behaviour for these events: \<open>dump()\<close>
  writes a text without raw newlines that \<open>parse\<close> reads back.
\<close>

theorem audit_log_read_back:
  assumes "list_all2 (\<lambda>e s. dumps_line jl (audit_to_json e) s) es ss"
  shows "\<exists>file. audit_append_all jl path es [] = (Inr (), file) \<and> read_audit jl file = Inr es"
  using assms by (simp add: audit_append_all_text read_audit_lines)

definition sample_event :: audit_event where
  "sample_event = \<lparr>ae_id = ''event-1-0'', ae_timestamp = ''t'', ae_actor = ''cli'',
     ae_type = ''tool.call'', ae_summary = ''disk.usage'', ae_details = [(''status'', ''ok'')]\<rparr>"

definition sample_json_lib :: json_lib where
  "sample_json_lib = \<lparr>json_dump = (\<lambda>j. Inr ''{}''), json_parse = (\<lambda>s. Inr (audit_to_json sample_event)),
     json_what = (\<lambda>e. ''json'')\<rparr>"

lemma audit_log_read_back_witness:
  "\<exists>file. audit_append_all sample_json_lib ''audit.jsonl'' [sample_event, sample_event] [] = (Inr (), file)
     \<and> read_audit sample_json_lib file = Inr [sample_event, sample_event]"
  by (rule audit_log_read_back [where ss = "[''{}'', ''{}'']"])
    (simp add: dumps_line_def sample_json_lib_def)

end
