(* ===== verification/Redaction.thy ===== *)
theory Redaction
  imports Kasli_Prelude
begin

text \<open>
  \<open>src/core/json.cpp\<close>: the redaction of likely secrets. The code builds four
  \<open>std::regex\<close> objects (ECMAScript grammar, \<open>icase\<close>) and applies
  \<open>std::regex_replace\<close> four times. The part of the regular expression engine these four
  patterns use is written out: a backtracking matcher that lists the lengths of the matches at a
  position in the order ECMAScript tries them, and the left-to-right replacement of non-overlapping
  matches. Each pattern is a capture group \<open>$1\<close> followed by the secret.
\<close>

section \<open>Regular expressions\<close>

datatype regex =
    Lit char
  | Class "char \<Rightarrow> bool"
  | Seq regex regex
  | Alt regex regex
  | Opt regex
  | Star "char \<Rightarrow> bool"
  | Plus "char \<Rightarrow> bool"

text \<open>
  The lengths of the matches of an expression at the start of a string, in the order of
  preference: the left alternative first, the longest repetition first.
\<close>

fun match_lengths :: "regex \<Rightarrow> string \<Rightarrow> nat list" where
  "match_lengths (Lit a) s =
     (case s of [] \<Rightarrow> [] | c # _ \<Rightarrow> if to_lower c = to_lower a then [1] else [])"
| "match_lengths (Class p) s = (case s of [] \<Rightarrow> [] | c # _ \<Rightarrow> if p c then [1] else [])"
| "match_lengths (Seq r1 r2) s =
     concat (map (\<lambda>n. map ((+) n) (match_lengths r2 (drop n s))) (match_lengths r1 s))"
| "match_lengths (Alt r1 r2) s = match_lengths r1 s @ match_lengths r2 s"
| "match_lengths (Opt r) s = match_lengths r s @ [0]"
| "match_lengths (Star p) s = rev [0..<Suc (length (takeWhile p s))]"
| "match_lengths (Plus p) s = rev [1..<Suc (length (takeWhile p s))]"

text \<open>A literal word; the sources' words are never empty.\<close>

fun word_rx :: "string \<Rightarrow> regex" where
  "word_rx [] = Opt (Class (\<lambda>_. False))"
| "word_rx [c] = Lit c"
| "word_rx (c # d # cs) = Seq (Lit c) (word_rx (d # cs))"

text \<open>A pattern with its capture group and what follows the group.\<close>

type_synonym pattern = "regex \<times> regex"

definition pattern_match :: "pattern \<Rightarrow> string \<Rightarrow> (nat \<times> nat) option" where
  "pattern_match pat s =
     (case concat (map (\<lambda>n. map (Pair n) (match_lengths (snd pat) (drop n s)))
                  (match_lengths (fst pat) s)) of
        [] \<Rightarrow> None
      | nm # _ \<Rightarrow> Some nm)"

text \<open>
  \<open>std::regex_replace(s, pattern, "$1" + replacement)\<close>. No pattern of the sources matches the
  empty string; the test keeps the recursion going for one that would.
\<close>

function regex_replace :: "pattern \<Rightarrow> string \<Rightarrow> string \<Rightarrow> string" where
  "regex_replace pat repl [] = []"
| "regex_replace pat repl (c # cs) =
     (case pattern_match pat (c # cs) of
        None \<Rightarrow> c # regex_replace pat repl cs
      | Some (n, m) \<Rightarrow>
          if n + m = 0 then c # regex_replace pat repl cs
          else take n (c # cs) @ repl @ regex_replace pat repl (drop (n + m) (c # cs)))"
  by pat_completeness auto
termination
  by (relation "measure (\<lambda>(pat, repl, s). length s)") auto

section \<open>The four patterns\<close>

definition secret_key :: regex where
  "secret_key =
     Alt (word_rx ''password'')
    (Alt (word_rx ''passwd'')
    (Alt (word_rx ''token'')
    (Alt (word_rx ''secret'')
         (Seq (word_rx ''api'')
              (Seq (Opt (Class (\<lambda>c. c = CHR ''_'' \<or> c = CHR ''-''))) (word_rx ''key''))))))"

definition key_then :: "char \<Rightarrow> regex" where
  "key_then sep = Seq secret_key (Seq (Star is_space) (Seq (Lit sep) (Star is_space)))"

definition assignment_stop :: "char \<Rightarrow> bool" where
  "assignment_stop c \<longleftrightarrow> c = dquote \<or> c = CHR '' '' \<or> c = newline \<or> c = carriage_return \<or> c = tab"

definition colon_stop :: "char \<Rightarrow> bool" where
  "colon_stop c \<longleftrightarrow> c = CHR '' '' \<or> c = newline \<or> c = carriage_return \<or> c = tab"

definition quoted_assignment_pattern :: pattern where
  "quoted_assignment_pattern =
     (key_then (CHR ''=''), Seq (Lit dquote) (Seq (Star (\<lambda>c. c \<noteq> dquote)) (Lit dquote)))"

definition assignment_pattern :: pattern where
  "assignment_pattern = (key_then (CHR ''=''), Plus (\<lambda>c. \<not> assignment_stop c))"

definition colon_pattern :: pattern where
  "colon_pattern = (key_then (CHR '':''), Plus (\<lambda>c. \<not> colon_stop c))"

definition bearer_pattern :: pattern where
  "bearer_pattern =
     (Seq (word_rx ''Authorization'')
        (Seq (Star is_space) (Seq (Lit (CHR '':''))
        (Seq (Star is_space) (Seq (word_rx ''Bearer'') (Plus is_space))))),
      Plus (\<lambda>c. \<not> colon_stop c))"

abbreviation redacted :: string where
  "redacted \<equiv> ''[REDACTED]''"

definition redact_likely_secret :: "string \<Rightarrow> string" where
  "redact_likely_secret input =
     (let r = regex_replace quoted_assignment_pattern (dquote # redacted @ [dquote]) input;
          r = regex_replace bearer_pattern redacted r;
          r = regex_replace colon_pattern redacted r
      in regex_replace assignment_pattern redacted r)"


section \<open>Facts about the matcher\<close>

lemma match_lengths_bound: "n \<in> set (match_lengths r s) \<Longrightarrow> n \<le> length s"
proof (induction r s arbitrary: n rule: match_lengths.induct)
  case (3 r1 r2 s)
  then show ?case by fastforce
next
  case (6 p s)
  then show ?case using length_takeWhile_le [of p s] by auto
next
  case (7 p s)
  then show ?case using length_takeWhile_le [of p s] by (simp del: upt_Suc)
qed (auto split: list.splits if_splits)

lemma pattern_match_SomeD:
  assumes "pattern_match pat s = Some (n, m)"
  shows "n \<in> set (match_lengths (fst pat) s)" and "m \<in> set (match_lengths (snd pat) (drop n s))"
    and "n + m \<le> length s"
proof -
  have mem: "(n, m) \<in> set (concat (map (\<lambda>n. map (Pair n) (match_lengths (snd pat) (drop n s)))
      (match_lengths (fst pat) s)))"
    using assms unfolding pattern_match_def by (auto split: list.splits simp del: set_concat)
  then show n: "n \<in> set (match_lengths (fst pat) s)" and m: "m \<in> set (match_lengths (snd pat) (drop n s))"
    by auto
  show "n + m \<le> length s"
    using match_lengths_bound [OF n] match_lengths_bound [OF m] by simp
qed

lemma of_char_to_lower:
  "(of_char (to_lower c) :: nat) =
     (if 65 \<le> (of_char c :: nat) \<and> (of_char c :: nat) \<le> 90 then of_char c + 32 else of_char c)"
  by (simp add: to_lower_def Let_def)

lemma to_lower_eq_iff:
  "to_lower c = d \<longleftrightarrow>
     (of_char d :: nat) =
     (if 65 \<le> (of_char c :: nat) \<and> (of_char c :: nat) \<le> 90 then of_char c + 32 else of_char c)"
  by (metis of_char_eq_iff of_char_to_lower)

lemma char_eq_of_char: "c = d \<longleftrightarrow> (of_char c :: nat) = of_char d"
  by (simp only: of_char_eq_iff)

lemma to_lower_fixed:
  "to_lower c = CHR ''_'' \<longleftrightarrow> c = CHR ''_''" "to_lower c = CHR ''-'' \<longleftrightarrow> c = CHR ''-''"
  "to_lower c = CHR ''='' \<longleftrightarrow> c = CHR ''=''" "to_lower c = CHR '':'' \<longleftrightarrow> c = CHR '':''"
  unfolding to_lower_eq_iff char_eq_of_char [of c] by (auto split: if_splits)

text \<open>
  \<open>rx_words r ws\<close>: the expression matches exactly the words \<open>ws\<close>, up to case, in
  that order of preference.
\<close>

definition rx_words :: "regex \<Rightarrow> string list \<Rightarrow> bool" where
  "rx_words r ws \<longleftrightarrow>
     (\<forall>s. match_lengths r s = map length (filter (\<lambda>w. prefix w (map to_lower s)) ws))"

lemma rx_words_word_any: "w \<noteq> [] \<Longrightarrow> rx_words (word_rx w) [map to_lower w]"
proof -
  have "match_lengths (word_rx w) s =
      (if prefix (map to_lower w) (map to_lower s) then [length w] else [])"
    if "w \<noteq> []" for s
    using that
  proof (induction w arbitrary: s rule: word_rx.induct)
    case (2 c)
    then show ?case by (cases s) auto
  next
    case (3 c d cs)
    then show ?case by (cases s) auto
  qed simp
  then show "w \<noteq> [] \<Longrightarrow> rx_words (word_rx w) [map to_lower w]"
    by (simp add: rx_words_def)
qed

lemma rx_words_word: "w \<noteq> [] \<Longrightarrow> map to_lower w = w \<Longrightarrow> rx_words (word_rx w) [w]"
  using rx_words_word_any [of w] by simp

lemma rx_words_Alt: "rx_words r1 ws1 \<Longrightarrow> rx_words r2 ws2 \<Longrightarrow> rx_words (Alt r1 r2) (ws1 @ ws2)"
  by (simp add: rx_words_def)

lemma prefix_append_drop:
  "prefix u (map to_lower s) \<Longrightarrow>
     prefix (u @ w) (map to_lower s) \<longleftrightarrow> prefix w (map to_lower (drop (length u) s))"
  by (auto simp: prefix_def drop_map [symmetric])

lemma rx_words_Seq:
  assumes "rx_words r1 ws1" "rx_words r2 ws2"
  shows "rx_words (Seq r1 r2) (concat (map (\<lambda>u. map ((@) u) ws2) ws1))"
proof -
  have step: "map length (filter (\<lambda>w. prefix w (map to_lower s)) (map ((@) u) ws2)) =
      (if prefix u (map to_lower s)
       then map ((+) (length u)) (match_lengths r2 (drop (length u) s)) else [])" for u s
  proof (cases "prefix u (map to_lower s)")
    case True
    with assms(2) show ?thesis
      by (simp add: rx_words_def filter_map o_def prefix_append_drop)
  next
    case False
    then show ?thesis by (auto simp: filter_empty_conv dest: append_prefixD)
  qed
  have seq: "concat (map (\<lambda>n. map ((+) n) (match_lengths r2 (drop n s)))
      (map length (filter (\<lambda>w. prefix w (map to_lower s)) ws))) =
    map length (filter (\<lambda>w. prefix w (map to_lower s)) (concat (map (\<lambda>u. map ((@) u) ws2) ws)))"
    for ws s
    by (induction ws) (simp_all add: step del: map_map)
  from assms(1) show ?thesis
    unfolding rx_words_def by (simp only: match_lengths.simps seq simp_thms)
qed

lemma rx_words_key_separator:
  "rx_words (Opt (Class (\<lambda>c. c = CHR ''_'' \<or> c = CHR ''-''))) [''_'', ''-'', []]"
  unfolding rx_words_def
proof
  fix s show "match_lengths (Opt (Class (\<lambda>c. c = CHR ''_'' \<or> c = CHR ''-''))) s =
    map length (filter (\<lambda>w. prefix w (map to_lower s)) [''_'', ''-'', []])"
    by (cases s) (auto simp: to_lower_fixed eq_commute [of _ "to_lower c" for c])
qed

text \<open>The keywords, in lower case, in the order the pattern tries them.\<close>

definition secret_words :: "string list" where
  "secret_words =
     [''password'', ''passwd'', ''token'', ''secret'', ''api_key'', ''api-key'', ''apikey'']"

lemma rx_words_secret_key: "rx_words secret_key secret_words"
proof -
  have low: "map to_lower w = w"
    if "w \<in> {''password'', ''passwd'', ''token'', ''secret'', ''api'', ''key''}" for w
    using that by (auto simp: to_lower_def)
  have "rx_words secret_key ([''password''] @ [''passwd''] @ [''token''] @ [''secret''] @
      concat (map (\<lambda>u. map ((@) u) (concat (map (\<lambda>u. map ((@) u) [''key'']) [''_'', ''-'', []]))) [''api'']))"
    unfolding secret_key_def
    by (intro rx_words_Alt rx_words_Seq rx_words_word rx_words_key_separator low) simp_all
  then show ?thesis by (simp add: secret_words_def)
qed


text \<open>No keyword is inside another, and no keyword is a prefix of another.\<close>

lemma secret_words_letters:
  "w \<in> set secret_words \<Longrightarrow> c \<in> set w \<Longrightarrow> \<not> is_space c \<and> c \<noteq> CHR ''='' \<and> c \<noteq> CHR '':'' \<and> c \<noteq> dquote"
  by (auto simp: secret_words_def is_space_def)

lemma secret_words_not_inside:
  "w \<in> set secret_words \<Longrightarrow> w' \<in> set secret_words \<Longrightarrow> 0 < j \<Longrightarrow> \<not> prefix w' (drop j w)"
proof -
  have "\<forall>w \<in> set secret_words. \<forall>w' \<in> set secret_words. \<forall>j \<in> set [1..<length w]. \<not> prefix w' (drop j w)"
    by code_simp
  moreover have "[] \<notin> set secret_words" by code_simp
  ultimately show "w \<in> set secret_words \<Longrightarrow> w' \<in> set secret_words \<Longrightarrow> 0 < j \<Longrightarrow> \<not> prefix w' (drop j w)"
    by (cases "j < length w") auto
qed

lemma secret_words_prefix_free:
  "w \<in> set secret_words \<Longrightarrow> w' \<in> set secret_words \<Longrightarrow> prefix w t \<Longrightarrow> prefix w' t \<Longrightarrow> w = w'"
proof -
  have "\<forall>w \<in> set secret_words. \<forall>w' \<in> set secret_words. prefix w w' \<longrightarrow> w = w'"
    by code_simp
  then show "w \<in> set secret_words \<Longrightarrow> w' \<in> set secret_words \<Longrightarrow> prefix w t \<Longrightarrow> prefix w' t \<Longrightarrow> w = w'"
    by (metis prefix_same_cases)
qed

lemma secret_key_unique:
  "match_lengths secret_key s = [] \<or>
   (\<exists>w \<in> set secret_words. prefix w (map to_lower s) \<and> match_lengths secret_key s = [length w])"
proof -
  have dist: "distinct secret_words" by code_simp
  have "length (filter (\<lambda>w. prefix w (map to_lower s)) secret_words) \<le> 1"
  proof (rule ccontr)
    let ?f = "filter (\<lambda>w. prefix w (map to_lower s)) secret_words"
    assume "\<not> length ?f \<le> 1"
    then obtain u v vs where uv: "?f = u # v # vs" by (cases ?f rule: remdups_adj.cases) auto
    then have "u \<in> set ?f" "v \<in> set ?f" by simp_all
    moreover have "u \<noteq> v" using distinct_filter [OF dist, of "\<lambda>w. prefix w (map to_lower s)"] uv by simp
    ultimately show False using secret_words_prefix_free by auto
  qed
  then consider "filter (\<lambda>w. prefix w (map to_lower s)) secret_words = []"
    | w where "filter (\<lambda>w. prefix w (map to_lower s)) secret_words = [w]"
    by (cases "filter (\<lambda>w. prefix w (map to_lower s)) secret_words") auto
  then show ?thesis
  proof cases
    case (2 w)
    then have "w \<in> set (filter (\<lambda>w. prefix w (map to_lower s)) secret_words)" by simp
    then have "w \<in> set secret_words" "prefix w (map to_lower s)" by simp_all
    moreover have "match_lengths secret_key s = [length w]"
      using 2 rx_words_secret_key by (simp add: rx_words_def)
    ultimately show ?thesis by blast
  qed (use rx_words_secret_key in \<open>auto simp: rx_words_def\<close>)
qed

section \<open>A keyword, a separator, a value\<close>

text \<open>
  \<open>key_sep sep t n\<close>: the first \<open>n\<close> bytes of \<open>t\<close> are a keyword and the separator,
  with white space around it.
\<close>

definition key_sep :: "char \<Rightarrow> string \<Rightarrow> nat \<Rightarrow> bool" where
  "key_sep sep t n \<longleftrightarrow>
     (\<exists>w a b r. t = w @ a @ sep # b @ r \<and> map to_lower w \<in> set secret_words
        \<and> list_all is_space a \<and> list_all is_space b \<and> n = length (w @ a @ sep # b))"

lemma no_word_redacted:
  assumes "i < length redacted" "drop i redacted @ r = w @ v"
  shows "map to_lower w \<notin> set secret_words"
proof
  assume "map to_lower w \<in> set secret_words"
  with assms(2) have w: "map to_lower w \<in> set secret_words" "drop i redacted @ r = w @ v" by blast+
  have "map to_lower redacted = ''[redacted]''" by (simp add: to_lower_eq_iff)
  then have low: "map to_lower (drop i redacted) = drop i ''[redacted]''"
    by (metis drop_map)
  let ?d = "map to_lower (drop i redacted)"
  have "prefix (map to_lower w) (map to_lower (drop i redacted @ r))"
    using w(2) by (metis map_mono_prefix prefixI)
  then have "prefix (map to_lower w) ?d \<or> prefix ?d (map to_lower w)"
    unfolding map_append prefix_append by (auto simp: prefix_def)
  moreover have "\<forall>w \<in> set secret_words. \<forall>i \<in> set [0..<10].
      \<not> prefix w (drop i ''[redacted]'') \<and> \<not> prefix (drop i ''[redacted]'') w"
    by (simp add: secret_words_def upt_conv_Cons)
  moreover have "i \<in> set [0..<10]" using assms(1) by simp
  ultimately show False using w(1) unfolding low by blast
qed

text \<open>The five places where a suffix of a text with a replacement in it can start.\<close>

lemma drop_in_replacement:
  obtains (before) "j < length u"
  | (start) "drop j (u @ g @ d @ r) = g @ d @ r"
  | (group) i where "0 < i" "i < length g" "drop j (u @ g @ d @ r) = drop i (g @ d @ r)"
  | (inside) i where "i < length d" "drop j (u @ g @ d @ r) = drop i d @ r"
  | (after) i where "drop j (u @ g @ d @ r) = drop i r"
proof -
  consider "j < length u" | "j = length u" | "length u < j" "j < length u + length g"
    | "length u + length g \<le> j" "j < length u + length g + length d"
    | "length u + length g + length d \<le> j" by linarith
  then show thesis
  proof cases
    case 3
    then show thesis by (intro group [of "j - length u"]) simp_all
  next
    case 4
    then show thesis by (intro inside [of "j - length u - length g"]) simp_all
  next
    case 5
    then show thesis by (intro after [of "j - length u - length g - length d"]) simp
  qed (use before start in simp_all)
qed

lemma takeWhile_until:
  "\<forall>c \<in> set x. \<not> P c \<Longrightarrow> r = [] \<or> P (hd r) \<Longrightarrow> takeWhile (\<lambda>c. \<not> P c) (x @ r) = x"
  by (cases r) (auto simp: takeWhile_append2)

locale separator =
  fixes sep :: char
  assumes sep_not_space: "\<not> is_space sep"
    and sep_lower: "to_lower c = to_lower sep \<longleftrightarrow> c = sep"
    and sep_not_letter: "w \<in> set secret_words \<Longrightarrow> sep \<notin> set w"
begin

lemma spaces_sep_lengths:
  "match_lengths (Seq (Star is_space) (Seq (Lit sep) (Star is_space))) u =
     (case dropWhile is_space u of
        [] \<Rightarrow> []
      | c # v \<Rightarrow>
          if c = sep
          then map ((+) (length (takeWhile is_space u) + 1)) (rev [0..<Suc (length (takeWhile is_space v))])
          else [])"
proof -
  let ?k = "length (takeWhile is_space u)"
  let ?f = "\<lambda>n. map ((+) n) (match_lengths (Seq (Lit sep) (Star is_space)) (drop n u))"
  have skip: "?f n = []" if "n < ?k" for n
  proof -
    have "u \<noteq> []" using that by auto
    moreover have "n < length u" using that length_takeWhile_le [of is_space u] by linarith
    ultimately have "drop n u = (u ! n) # drop (Suc n) u" by (simp add: Cons_nth_drop_Suc)
    moreover have "is_space (u ! n)" using that nth_mem set_takeWhileD takeWhile_nth by metis
    ultimately show ?thesis using sep_not_space by (auto simp: sep_lower)
  qed
  have "concat (map ?f (rev [0..<?k])) = []"
    using skip by auto
  then have "match_lengths (Seq (Star is_space) (Seq (Lit sep) (Star is_space))) u = ?f ?k"
    by (simp del: upt_Suc match_lengths.simps add: match_lengths.simps(3) [of "Star is_space"]
        match_lengths.simps(6) upt_Suc_append)
  also have "\<dots> = (case dropWhile is_space u of [] \<Rightarrow> []
      | c # v \<Rightarrow> if c = sep
          then map ((+) (?k + 1)) (rev [0..<Suc (length (takeWhile is_space v))]) else [])"
    unfolding dropWhile_eq_drop [symmetric]
    by (cases "dropWhile is_space u") (simp_all add: sep_lower del: dropWhile_eq_Nil_conv)
  finally show ?thesis .
qed

text \<open>
  The group \<open>$1\<close> of a pattern: it fails, or a keyword and a separator are there and the
  lengths tried are those that give the white space after the separator to the group, longest
  first.
\<close>

lemma key_sep_parts:
  assumes "t = w @ a @ sep # v" "map to_lower w \<in> set secret_words" "list_all is_space a"
  shows "match_lengths secret_key t = [length w]"
    and "takeWhile is_space (drop (length w) t) = a"
    and "dropWhile is_space (drop (length w) t) = sep # v"
proof -
  have pre: "prefix (map to_lower w) (map to_lower t)" using assms(1) by simp
  with assms(2) have "match_lengths secret_key t \<noteq> []"
    using rx_words_secret_key by (auto simp: rx_words_def filter_empty_conv)
  then obtain u where "u \<in> set secret_words" "prefix u (map to_lower t)"
      "match_lengths secret_key t = [length u]"
    using secret_key_unique [of t] by blast
  with pre assms(2) show "match_lengths secret_key t = [length w]"
    using secret_words_prefix_free by (metis length_map)
  have "\<forall>c \<in> set a. is_space c" using assms(3) by (simp add: list_all_iff)
  then show "takeWhile is_space (drop (length w) t) = a"
      "dropWhile is_space (drop (length w) t) = sep # v"
    using assms(1) sep_not_space by (simp_all add: takeWhile_append2 dropWhile_append2)
qed

lemma key_then_lengths:
  assumes "t = w @ a @ sep # v" "map to_lower w \<in> set secret_words" "list_all is_space a"
  shows "match_lengths (key_then sep) t = map ((+) (length w + length a + 1))
           (rev [0..<Suc (length (takeWhile is_space v))])"
  unfolding key_then_def match_lengths.simps(3) [of secret_key]
  using key_sep_parts [OF assms]
  by (simp add: spaces_sep_lengths o_def del: match_lengths.simps upt_Suc)

lemma key_sep_lengths: "key_sep sep t n \<longleftrightarrow> n \<in> set (match_lengths (key_then sep) t)"
proof
  assume "key_sep sep t n"
  then obtain w a b r where t: "t = w @ a @ sep # b @ r" "map to_lower w \<in> set secret_words"
      "list_all is_space a" "list_all is_space b" "n = length (w @ a @ sep # b)"
    unfolding key_sep_def by blast
  have "\<forall>c \<in> set b. is_space c" using t(4) by (simp add: list_all_iff)
  then have "length b \<le> length (takeWhile is_space (b @ r))" by (simp add: takeWhile_append2)
  then show "n \<in> set (match_lengths (key_then sep) t)"
    unfolding key_then_lengths [OF t(1-3)] using t(5) by (auto simp del: upt_Suc)
next
  assume n: "n \<in> set (match_lengths (key_then sep) t)"
  then have "match_lengths secret_key t \<noteq> []" by (auto simp: key_then_def)
  then obtain v where v: "v \<in> set secret_words" "prefix v (map to_lower t)"
      "match_lengths secret_key t = [length v]"
    using secret_key_unique [of t] by blast
  let ?u = "drop (length v) t"
  have "match_lengths (Seq (Star is_space) (Seq (Lit sep) (Star is_space))) ?u \<noteq> []"
    using n v(3) unfolding key_then_def match_lengths.simps(3) [of secret_key]
    by (auto simp del: match_lengths.simps)
  then obtain u' where u': "dropWhile is_space ?u = sep # u'"
    unfolding spaces_sep_lengths by (auto split: list.splits if_splits)
  have w: "map to_lower (take (length v) t) = v" using v(2) by (auto simp: prefix_def take_map [symmetric])
  have t: "t = take (length v) t @ takeWhile is_space ?u @ sep # u'"
    using u' by (metis append_take_drop_id takeWhile_dropWhile_id)
  have sp: "list_all is_space (takeWhile is_space s)" for s
    by (auto simp: list_all_iff dest: set_takeWhileD)
  have lv: "length (take (length v) t) = length v"
    using w by (metis length_map)
  have "match_lengths (key_then sep) t = map ((+) (length v + length (takeWhile is_space ?u) + 1))
      (rev [0..<Suc (length (takeWhile is_space u'))])"
    using key_then_lengths [OF t _ sp] w v(1) unfolding lv by (simp only:)
  with n obtain k where k: "k \<le> length (takeWhile is_space u')"
      "n = length v + length (takeWhile is_space ?u) + 1 + k"
    by (auto simp del: upt_Suc)
  have "take k u' = take k (takeWhile is_space u')"
    using k(1) by (metis min.absorb1 takeWhile_eq_take take_take)
  then have "list_all is_space (take k u')"
    using sp [of u'] by (auto simp: list_all_iff dest: in_set_takeD)
  moreover have "k \<le> length u'" using k(1) length_takeWhile_le [of is_space u'] by linarith
  ultimately show "key_sep sep t n"
    unfolding key_sep_def
    using t w v(1) sp [of ?u] k(2) lv
    by (intro exI [of _ "take (length v) t"] exI [of _ "takeWhile is_space ?u"] exI [of _ "take k u'"]
        exI [of _ "drop k u'"]) simp
qed

text \<open>The lengths are tried longest first.\<close>

lemma key_then_descending: "sorted_wrt (>) (match_lengths (key_then sep) t)"
proof (cases "match_lengths (key_then sep) t = []")
  case False
  then obtain n where "key_sep sep t n"
    unfolding key_sep_lengths by (meson list.set_sel(1))
  then obtain w a b r where "t = w @ a @ sep # b @ r" "map to_lower w \<in> set secret_words"
      "list_all is_space a" unfolding key_sep_def by blast
  from key_then_lengths [OF this] show ?thesis
    by (simp add: sorted_wrt_map sorted_wrt_rev del: upt_Suc)
qed simp

end

lemma first_nonempty:
  "(case concat (map (\<lambda>n. map (Pair n) (rev [1..<Suc (f n)])) ns) of [] \<Rightarrow> None | x # _ \<Rightarrow> Some x)
     = map_option (\<lambda>n. (n, f n)) (find (\<lambda>n. 0 < f n) ns)"
proof (induction ns)
  case (Cons n ns)
  then show ?case by (cases "f n") (simp_all add: upt_Suc_append del: upt_Suc)
qed simp

lemma find_descending:
  "sorted_wrt (>) ns \<Longrightarrow>
     find P ns = Some (n :: nat) \<longleftrightarrow> n \<in> set ns \<and> P n \<and> (\<forall>n' \<in> set ns. P n' \<longrightarrow> n' \<le> n)"
  by (induction ns) auto

section \<open>Secrets after a separator\<close>

text \<open>
  The assignment and the colon pattern: after a keyword and the separator, the longest run of
  bytes that do not stop a value. What the proofs need of the two: no byte of the replacement
  text stops a value, and a byte that stops one is neither the first byte of a keyword nor
  anything a keyword pattern can start with.
\<close>

locale secret_pattern = separator +
  fixes stop :: "char \<Rightarrow> bool"
  assumes stop_redacted: "c \<in> set redacted \<Longrightarrow> \<not> stop c"
    and stop_word: "w \<in> set secret_words \<Longrightarrow> to_lower c = hd w \<Longrightarrow> \<not> stop c"
begin

abbreviation pat :: pattern where
  "pat \<equiv> (key_then sep, Plus (\<lambda>c. \<not> stop c))"

abbreviation value_length :: "string \<Rightarrow> nat \<Rightarrow> nat" where
  "value_length t n \<equiv> length (takeWhile (\<lambda>c. \<not> stop c) (drop n t))"

lemma pattern_match_find:
  "pattern_match pat t = map_option (\<lambda>n. (n, value_length t n))
     (find (\<lambda>n. 0 < value_length t n) (match_lengths (key_then sep) t))"
  using first_nonempty [of "value_length t" "match_lengths (key_then sep) t"]
  by (simp add: pattern_match_def del: upt_Suc split: list.splits)

lemma pattern_match_Some:
  "pattern_match pat t = Some (n, m) \<longleftrightarrow>
     key_sep sep t n \<and> m = value_length t n \<and> 0 < m \<and>
     (\<forall>n'. key_sep sep t n' \<longrightarrow> 0 < value_length t n' \<longrightarrow> n' \<le> n)"
  unfolding pattern_match_find key_sep_lengths
  using find_descending [OF key_then_descending] by auto

lemma pattern_match_None:
  "pattern_match pat t = None \<longleftrightarrow> (\<forall>n. key_sep sep t n \<longrightarrow> value_length t n = 0)"
  unfolding pattern_match_find key_sep_lengths by (auto simp: find_None_iff)

text \<open>
  The result of a replacement: unchanged where nothing matches, otherwise the text up to the
  first match and its group, the replacement, and the result for the rest.
\<close>

abbreviation replaced :: "string \<Rightarrow> string" where
  "replaced s \<equiv> regex_replace pat redacted s"

lemma replaced_Cons:
  "pattern_match pat (c # cs) = None \<Longrightarrow> replaced (c # cs) = c # replaced cs"
  "pattern_match pat (c # cs) = Some (n, m) \<Longrightarrow>
     replaced (c # cs) = take n (c # cs) @ redacted @ replaced (drop (n + m) (c # cs))"
proof -
  show "pattern_match pat (c # cs) = None \<Longrightarrow> replaced (c # cs) = c # replaced cs" by simp
  assume p: "pattern_match pat (c # cs) = Some (n, m)"
  then have "0 < m" unfolding pattern_match_Some by blast
  with p show "replaced (c # cs) = take n (c # cs) @ redacted @ replaced (drop (n + m) (c # cs))"
    by simp
qed

lemma replaced_cases:
  "(replaced s = s \<and> (\<forall>j. pattern_match pat (drop j s) = None)) \<or>
   (\<exists>u t n m. s = u @ t \<and> pattern_match pat t = Some (n, m)
      \<and> (\<forall>j < length u. pattern_match pat (drop j s) = None)
      \<and> replaced s = u @ take n t @ redacted @ replaced (drop (n + m) t)
      \<and> n + m \<le> length t \<and> 0 < m)"
proof (induction s)
  case Nil
  have "pattern_match pat [] = None" by (simp add: pattern_match_None)
  then show ?case by simp
next
  case (Cons c cs)
  show ?case
  proof (cases "pattern_match pat (c # cs)")
    case None
    note step = replaced_Cons(1) [OF None]
    from Cons.IH show ?thesis
    proof (elim disjE exE conjE)
      assume "replaced cs = cs" "\<forall>j. pattern_match pat (drop j cs) = None"
      with None step show ?thesis by (auto simp: drop_Cons' split: if_splits)
    next
      fix u t n m
      assume "cs = u @ t" "pattern_match pat t = Some (n, m)"
        "\<forall>j < length u. pattern_match pat (drop j cs) = None"
        "replaced cs = u @ take n t @ redacted @ replaced (drop (n + m) t)" "n + m \<le> length t" "0 < m"
      with None step show ?thesis
        by (intro disjI2 exI [of _ "c # u"] exI [of _ t] exI [of _ n] exI [of _ m])
          (auto simp: drop_Cons' split: if_splits)
    qed
  next
    case (Some nm)
    obtain n m where nm: "nm = (n, m)" by force
    with Some have "n + m \<le> length (c # cs)" "0 < m"
      using pattern_match_SomeD(3) pattern_match_Some by blast+
    with Some nm show ?thesis
      by (intro disjI2 exI [of _ "[]"] exI [of _ "c # cs"] exI [of _ n] exI [of _ m])
        (simp add: replaced_Cons(2))
  qed
qed

text \<open>
  A text is clean if the only secret a match can find in it is the replacement itself.
\<close>

definition clean :: "string \<Rightarrow> bool" where
  "clean s \<longleftrightarrow>
     (\<forall>j n m. pattern_match pat (drop j s) = Some (n, m) \<longrightarrow> take m (drop n (drop j s)) = redacted)"

text \<open>Nothing matches inside a match's group or inside the replacement.\<close>

lemma word_before_separator:
  assumes "map to_lower w \<in> set secret_words" "prefix w (u @ x # v)" "is_space x \<or> x = sep"
  shows "prefix w u"
proof -
  have "to_lower x = x" if "is_space x"
    using that by (auto simp: is_space_def to_lower_def)
  moreover have "to_lower sep = sep"
    using sep_lower [of "to_lower sep"] by simp
  ultimately have low: "to_lower x = x" using assms(3) by blast
  have "x \<notin> set w"
  proof
    assume "x \<in> set w"
    then have "x \<in> set (map to_lower w)" using low by force
    with assms(1,3) show False using secret_words_letters sep_not_letter by blast
  qed
  with assms(2) show ?thesis by (auto simp: prefix_append prefix_Cons)
qed

lemma word_not_Nil: "map to_lower w \<in> set secret_words \<Longrightarrow> w \<noteq> []"
  by (auto simp: secret_words_def)

lemma drop_nth_append: "i < length g \<Longrightarrow> drop i (g @ r) = g ! i # drop (Suc i) g @ r"
  by (simp add: Cons_nth_drop_Suc)

lemma no_word_inside:
  assumes "key_sep sep t n" "0 < j" "j < n" "drop j t = w' @ v'"
  shows "map to_lower w' \<notin> set secret_words"
proof
  assume "map to_lower w' \<in> set secret_words"
  with assms(4) have w': "map to_lower w' \<in> set secret_words" "drop j t = w' @ v'" by blast+
  from assms(1) obtain w a b r where t: "t = w @ a @ sep # b @ r" "map to_lower w \<in> set secret_words"
      "list_all is_space a" "list_all is_space b" "n = length (w @ a @ sep # b)"
    unfolding key_sep_def by blast
  have sp: "is_space x \<or> x = sep" if "x \<in> set (a @ sep # b)" for x
    using that t(3,4) by (auto simp: list_all_iff)
  have pre: "prefix w' (drop j t)" using w'(2) by simp
  show False
  proof (cases "j < length w")
    case True
    obtain x v where x: "a @ sep # b @ r = x # v" "x \<in> set (a @ sep # b)" by (cases a) auto
    have "drop j t = drop j w @ x # v" using True t(1) x(1) by simp
    with pre have "prefix w' (drop j w)"
      using word_before_separator [OF w'(1)] sp [OF x(2)] by metis
    then have "prefix (map to_lower w') (drop j (map to_lower w))"
      by (metis drop_map map_mono_prefix)
    with w'(1) t(2) assms(2) show False using secret_words_not_inside by blast
  next
    case False
    let ?g = "a @ sep # b"
    have "j - length w < length ?g" using False assms(3) t(5) by simp
    then have "drop (j - length w) (?g @ r) = ?g ! (j - length w) # (drop (Suc (j - length w)) ?g @ r)"
      by (rule drop_nth_append)
    moreover have "drop j t = drop (j - length w) (?g @ r)" using False t(1) by simp
    ultimately have "prefix w' ([] @ ?g ! (j - length w) # (drop (Suc (j - length w)) ?g @ r))"
      using pre by simp
    then have "prefix w' []"
      using word_before_separator [OF w'(1)] sp nth_mem \<open>j - length w < length ?g\<close> by metis
    with word_not_Nil [OF w'(1)] show False by simp
  qed
qed

lemma key_sep_not_inside:
  "key_sep sep t n \<Longrightarrow> 0 < j \<Longrightarrow> j < n \<Longrightarrow> \<not> key_sep sep (drop j t) n'"
  using no_word_inside unfolding key_sep_def by blast

lemma key_sep_not_redacted: "i < length redacted \<Longrightarrow> \<not> key_sep sep (drop i redacted @ r) n"
  using no_word_redacted unfolding key_sep_def by blast

lemma key_sep_prefix:
  assumes "key_sep sep (x @ y) n" "n \<le> length x"
  shows "key_sep sep (x @ z) n"
proof -
  from assms(1) obtain w a b r where k: "x @ y = (w @ a @ sep # b) @ r" "map to_lower w \<in> set secret_words"
      "list_all is_space a" "list_all is_space b" "n = length (w @ a @ sep # b)"
    unfolding key_sep_def by auto
  with assms(2) obtain x' where "x = (w @ a @ sep # b) @ x'"
    by (metis append_eq_append_conv_if append_take_drop_id)
  then have "x @ z = w @ a @ sep # b @ x' @ z" by simp
  with k show ?thesis unfolding key_sep_def by blast
qed

lemma key_sep_pos: "key_sep sep t n \<Longrightarrow> 0 < n \<and> n \<le> length t"
  unfolding key_sep_def by auto

lemma key_sep_between:
  assumes "key_sep sep t n" "key_sep sep t p" "n \<le> i" "i < p"
  shows "is_space (t ! i)"
proof -
  from assms(1) obtain w a v where t: "t = w @ a @ sep # v" "map to_lower w \<in> set secret_words"
      "list_all is_space a" unfolding key_sep_def by blast
  let ?b = "length w + length a + 1"
  have "?b \<le> n" "p \<le> ?b + length (takeWhile is_space v)"
    using assms(1,2) unfolding key_sep_lengths key_then_lengths [OF t] by (auto simp del: upt_Suc)
  then have i: "?b \<le> i" "i - ?b < length (takeWhile is_space v)" using assms(3,4) by auto
  have "t = (w @ a @ [sep]) @ v" using t(1) by simp
  then have "t ! i = v ! (i - ?b)" using i(1) by (simp only: nth_append) auto
  also have "\<dots> = takeWhile is_space v ! (i - ?b)" using i(2) by (simp add: takeWhile_nth)
  finally show ?thesis using i(2) nth_mem set_takeWhileD by metis
qed

lemma value_length_pos: "0 < value_length t n \<longleftrightarrow> n < length t \<and> \<not> stop (t ! n)"
proof (cases "n < length t")
  case True
  then have "drop n t = t ! n # drop (Suc n) t" by (simp add: Cons_nth_drop_Suc)
  with True show ?thesis by simp
qed simp

lemma value_length_append:
  "n < length x \<Longrightarrow> 0 < value_length (x @ y) n \<longleftrightarrow> \<not> stop (x ! n)"
  unfolding value_length_pos by (simp add: nth_append)

lemma not_key_at_stop:
  assumes "stop c" shows "\<not> key_sep sep (c # cs) n"
proof
  assume "key_sep sep (c # cs) n"
  then obtain w v where w: "map to_lower w \<in> set secret_words" "c # cs = w @ v"
    unfolding key_sep_def by blast
  then have "to_lower c = hd (map to_lower w)" using word_not_Nil [OF w(1)] by (cases w) auto
  with w(1) assms stop_word show False by blast
qed

lemma replaced_at_stop:
  assumes "t = [] \<or> stop (hd t)"
  shows "replaced t = [] \<or> stop (hd (replaced t))"
proof (cases t)
  case (Cons c cs)
  with assms have "pattern_match pat (c # cs) = None"
    using not_key_at_stop by (simp add: pattern_match_None)
  with Cons assms show ?thesis by (simp add: replaced_Cons(1))
qed simp

lemma after_value: "drop (n + value_length t n) t = [] \<or> stop (hd (drop (n + value_length t n) t))"
proof -
  have "drop (n + value_length t n) t = dropWhile (\<lambda>c. \<not> stop c) (drop n t)"
    by (simp add: dropWhile_eq_drop add.commute)
  then show ?thesis using hd_dropWhile by force
qed

text \<open>A keyword that starts before a match of the text ends before it.\<close>

lemma no_match_before:
  assumes none: "\<forall>j < length u. pattern_match pat (drop j (u @ t)) = None"
    and key: "key_sep sep t n"
    and j: "j < length u"
  shows "pattern_match pat (drop j (u @ take n t @ r)) = None"
proof (rule ccontr)
  let ?g = "take n t" and ?d = "length u - j"
  assume "\<not> ?thesis"
  then obtain p where p: "key_sep sep (drop j (u @ ?g @ r)) p"
      "0 < value_length (drop j (u @ ?g @ r)) p"
    by (auto simp: pattern_match_None)
  have n: "0 < n" "n \<le> length t" using key key_sep_pos by blast+
  have "key_sep sep (?g @ r) n"
    using key_sep_prefix [of ?g "drop n t" n r] key n by simp
  then have g: "key_sep sep (drop ?d (drop j (u @ ?g @ r))) n" using j by simp
  then have "p \<le> ?d" using key_sep_not_inside [OF p(1), of ?d] j by force
  have g1: "?g = take 1 ?g @ drop 1 ?g" by (rule append_take_drop_id [symmetric])
  have "take 1 ?g = take 1 t" using n by (simp add: min_def)
  then have t1: "t = take 1 ?g @ drop 1 t" using append_take_drop_id [of 1 t] by simp
  have "drop j (u @ ?g @ r) = drop j u @ ?g @ r" "drop j (u @ t) = drop j u @ t" using j by simp_all
  then have out: "drop j (u @ ?g @ r) = (drop j u @ take 1 ?g) @ drop 1 ?g @ r"
    and inp: "drop j (u @ t) = (drop j u @ take 1 ?g) @ drop 1 t"
    using g1 t1 by (metis append.assoc)+
  have len: "p < length (drop j u @ take 1 ?g)" using \<open>p \<le> ?d\<close> n by simp
  have "key_sep sep (drop j (u @ t)) p"
    using key_sep_prefix p(1) len unfolding out inp by (meson less_imp_le)
  moreover have "0 < value_length (drop j (u @ t)) p"
    using p(2) unfolding out inp value_length_append [OF len] .
  ultimately have "\<not> (\<forall>n. key_sep sep (drop j (u @ t)) n \<longrightarrow> value_length (drop j (u @ t)) n = 0)"
    by (metis less_irrefl)
  then have "pattern_match pat (drop j (u @ t)) \<noteq> None"
    unfolding pattern_match_None .
  then show False using none [rule_format, OF j] by contradiction
qed

lemma match_at_replacement:
  assumes key: "key_sep sep t n" and rest: "r = [] \<or> stop (hd r)"
    and m: "pattern_match pat (take n t @ redacted @ r) = Some (p, q)"
  shows "take q (drop p (take n t @ redacted @ r)) = redacted"
proof -
  let ?t = "take n t @ redacted @ r"
  have n: "0 < n" "n \<le> length t" using key key_sep_pos by blast+
  then have kn: "key_sep sep ?t n"
    using key_sep_prefix [of "take n t" "drop n t" n "redacted @ r"] key by simp
  have at_n: "drop n ?t = redacted @ r" using n by simp
  have tw: "takeWhile (\<lambda>c. \<not> stop c) (redacted @ r) = redacted"
    using rest stop_redacted by (intro takeWhile_until) blast+
  then have "0 < value_length ?t n" unfolding at_n by simp
  with m kn have "n \<le> p" and p: "key_sep sep ?t p" "q = value_length ?t p"
    unfolding pattern_match_Some by blast+
  moreover have "\<not> n < p"
  proof
    assume "n < p"
    with key_sep_between [OF kn p(1)] have "is_space (?t ! n)" by blast
    moreover have "?t ! n = CHR ''[''" using n by (simp add: nth_append)
    ultimately show False by (simp add: is_space_def)
  qed
  ultimately have "p = n" by simp
  with p(2) show ?thesis unfolding at_n by (simp only: at_n tw) simp
qed

theorem replaced_clean: "clean (replaced s)"
proof (induction "length s" arbitrary: s rule: less_induct)
  case less
  from replaced_cases [of s] show ?case
  proof (elim disjE exE conjE)
    assume "replaced s = s" "\<forall>j. pattern_match pat (drop j s) = None"
    then show ?thesis by (simp add: clean_def)
  next
    fix u t n m
    assume s: "s = u @ t" and m: "pattern_match pat t = Some (n, m)"
      and none: "\<forall>j < length u. pattern_match pat (drop j s) = None"
      and out: "replaced s = u @ take n t @ redacted @ replaced (drop (n + m) t)"
      and len: "n + m \<le> length t" "0 < m"
    let ?r = "replaced (drop (n + m) t)" and ?g = "take n t"
    have key: "key_sep sep t n" and mv: "m = value_length t n"
      using m unfolding pattern_match_Some by blast+
    have n: "0 < n" "n \<le> length t" using key key_sep_pos by blast+
    have rest: "?r = [] \<or> stop (hd ?r)"
      using replaced_at_stop after_value mv by blast
    have IH: "clean ?r" using less.hyps len s by simp
    show ?thesis
      unfolding clean_def
    proof (intro allI impI)
      fix j p q
      assume match: "pattern_match pat (drop j (replaced s)) = Some (p, q)"
      then have kp: "key_sep sep (drop j (replaced s)) p" unfolding pattern_match_Some by blast
      show "take q (drop p (drop j (replaced s))) = redacted"
      proof (cases rule: drop_in_replacement [where j = j and u = u and g = ?g and d = redacted and r = ?r,
          folded out, case_names before start group inside after])
        case before
        with no_match_before [of u t n j "redacted @ ?r"] none key s match out show ?thesis by simp
      next
        case start
        with match_at_replacement [OF key rest] match show ?thesis by simp
      next
        case (group i)
        have "key_sep sep (?g @ redacted @ ?r) n"
          using key_sep_prefix [of ?g "drop n t" n "redacted @ ?r"] key n by simp
        moreover have "i < n" using group(2) n by simp
        ultimately show ?thesis using key_sep_not_inside group(1) kp unfolding group(3) by metis
      next
        case (inside i)
        then show ?thesis using key_sep_not_redacted kp by metis
      next
        case (after i)
        with IH match show ?thesis unfolding clean_def by metis
      qed
    qed
  qed
qed

lemma clean_drop: "clean s \<Longrightarrow> clean (drop i s)"
  unfolding clean_def by (metis drop_drop)

theorem clean_fixed: "clean s \<Longrightarrow> replaced s = s"
proof (induction "length s" arbitrary: s rule: less_induct)
  case less
  from replaced_cases [of s] show ?case
  proof (elim disjE exE conjE)
    fix u t n m
    assume s: "s = u @ t" and m: "pattern_match pat t = Some (n, m)"
      and out: "replaced s = u @ take n t @ redacted @ replaced (drop (n + m) t)"
      and len: "n + m \<le> length t" "0 < m"
    have t: "t = drop (length u) s" using s by simp
    have "take m (drop n t) = redacted"
      using less.prems m unfolding t clean_def by blast
    moreover have "clean (drop (n + m) t)" using clean_drop less.prems t by metis
    then have "replaced (drop (n + m) t) = drop (n + m) t"
      using less.hyps [of "drop (n + m) t"] len s by simp
    ultimately have "replaced s = u @ take n t @ take m (drop n t) @ drop (n + m) t"
      using out by simp
    also have "\<dots> = u @ take (n + m) t @ drop (n + m) t" by (simp only: take_add append_assoc)
    also have "\<dots> = s" using s by simp
    finally show ?thesis .
  qed
qed

corollary replaced_idem: "replaced (replaced s) = replaced s"
  by (rule clean_fixed [OF replaced_clean])

end


section \<open>Two passes\<close>

lemma append_eq_shorter: "x @ t = u @ d \<Longrightarrow> length x < length u \<Longrightarrow> drop (length x) u @ d = t"
  by (drule arg_cong [where f = "drop (length x)"]) simp

lemma append_eq_longer: "x @ t = u @ d \<Longrightarrow> \<not> length x < length u \<Longrightarrow> \<exists>y. x = u @ y"
  by (auto simp: append_eq_append_conv2)

text \<open>
  A later pass with another separator keeps a text clean of the first: it neither uncovers a
  secret nor makes a new keyword.
\<close>

locale two_secret_patterns =
  P: secret_pattern sep1 stop1 + Q: secret_pattern sep2 stop2
  for sep1 :: char and stop1 :: "char \<Rightarrow> bool" and sep2 :: char and stop2 :: "char \<Rightarrow> bool" +
  assumes seps_differ: "sep1 \<noteq> sep2"
begin

lemma not_both_separators: "key_sep sep1 t n \<Longrightarrow> \<not> key_sep sep2 t m"
proof
  assume "key_sep sep1 t n" "key_sep sep2 t m"
  then obtain w a v w' a' v' where
    1: "t = w @ a @ sep1 # v" "map to_lower w \<in> set secret_words" "list_all is_space a" and
    2: "t = w' @ a' @ sep2 # v'" "map to_lower w' \<in> set secret_words" "list_all is_space a'"
    unfolding key_sep_def by blast
  have "length w = length w'" using P.key_sep_parts(1) [OF 1] Q.key_sep_parts(1) [OF 2] by simp
  then have "sep1 # v = sep2 # v'"
    using P.key_sep_parts(3) [OF 1] Q.key_sep_parts(3) [OF 2] by simp
  with seps_differ show False by simp
qed

text \<open>
  A match of the first pattern that starts before the first match of the second one is the match
  the text had there, with the same value.
\<close>

lemma group_keeps_keys:
  assumes key: "key_sep sep2 t n" and x: "x \<noteq> []"
  shows "key_sep sep1 (x @ t) p \<or> key_sep sep1 (x @ take n t @ r) p \<Longrightarrow> p \<le> length x"
    and "key_sep sep1 (x @ t) p \<and> 0 < P.value_length (x @ t) p
      \<longleftrightarrow> key_sep sep1 (x @ take n t @ r) p \<and> 0 < P.value_length (x @ take n t @ r) p"
proof -
  let ?g = "take n t"
  have n: "0 < n" "n \<le> length t" using key Q.key_sep_pos by blast+
  obtain w a b v where w: "t = w @ a @ sep2 # b @ v" "map to_lower w \<in> set secret_words"
      "n = length (w @ a @ sep2 # b)"
    using key unfolding key_sep_def by blast
  have at_x: "drop (length x) (x @ t) = w @ a @ sep2 # b @ v"
    "drop (length x) (x @ ?g @ r) = w @ a @ sep2 # b @ r"
    using w(1,3) by simp_all
  show le: "p' \<le> length x" if "key_sep sep1 (x @ t) p' \<or> key_sep sep1 (x @ ?g @ r) p'" for p'
  proof (rule ccontr)
    assume "\<not> p' \<le> length x"
    then have "0 < length x" "length x < p'" using x by simp_all
    with that at_x w(2) show False using P.no_word_inside by metis
  qed
  show "key_sep sep1 (x @ t) p \<and> 0 < P.value_length (x @ t) p
      \<longleftrightarrow> key_sep sep1 (x @ ?g @ r) p \<and> 0 < P.value_length (x @ ?g @ r) p"
  proof (cases "p \<le> length x")
    case True
    obtain c cs where t: "t = c # cs" using n by (cases t) auto
    obtain k where k: "n = Suc k" using n(1) by (cases n) auto
    have s: "x @ t = (x @ [c]) @ cs" "x @ ?g @ r = (x @ [c]) @ take k cs @ r"
      using t k by simp_all
    have l: "p < length (x @ [c])" using True by simp
    have "key_sep sep1 (x @ t) p \<longleftrightarrow> key_sep sep1 (x @ ?g @ r) p"
      unfolding s using P.key_sep_prefix l by (meson less_imp_le)
    moreover have "0 < P.value_length (x @ t) p \<longleftrightarrow> 0 < P.value_length (x @ ?g @ r) p"
      unfolding s P.value_length_append [OF l] ..
    ultimately show ?thesis by blast
  qed (use le in blast)
qed

text \<open>A value that is the replacement ends before a keyword, whatever follows the keyword.\<close>

lemma redacted_before_word:
  assumes val: "takeWhile (\<lambda>c. \<not> stop1 c) (x @ w @ v) = redacted" and w: "map to_lower w \<in> set secret_words"
  shows "takeWhile (\<lambda>c. \<not> stop1 c) (x @ r) = redacted"
proof -
  let ?rest = "dropWhile (\<lambda>c. \<not> stop1 c) (x @ w @ v)"
  have split: "x @ w @ v = redacted @ ?rest"
    using val by (metis takeWhile_dropWhile_id)
  have x: "\<not> length x < length redacted"
  proof
    assume l: "length x < length redacted"
    with no_word_redacted [OF l] w append_eq_shorter [OF split l] show False by blast
  qed
  obtain y where y: "x = redacted @ y" using append_eq_longer [OF split x] by blast
  then have "y @ w @ v = ?rest" using split by simp
  moreover have w0: "w \<noteq> []" by (rule P.word_not_Nil [OF w])
  ultimately have st: "stop1 (hd (y @ w @ v))" using hd_dropWhile by (metis append_is_Nil_conv)
  have "y \<noteq> []"
  proof
    assume "y = []"
    with st w0 have "stop1 (hd w)" by (cases w) auto
    moreover have "to_lower (hd w) = hd (map to_lower w)" using w0 by (simp add: hd_map)
    ultimately show False using P.stop_word [OF w] by blast
  qed
  with st show ?thesis
    unfolding y append_assoc using P.stop_redacted by (intro takeWhile_until) (blast, cases y, simp_all)
qed

lemma match_before_kept:
  assumes clean: "P.clean (u @ t)" and key: "key_sep sep2 t n" and j: "j < length u"
    and match: "pattern_match P.pat (drop j (u @ take n t @ r)) = Some (p, q)"
  shows "take q (drop p (drop j (u @ take n t @ r))) = redacted"
proof -
  let ?x = "drop j u"
  have so: "drop j (u @ t) = ?x @ t" "drop j (u @ take n t @ r) = ?x @ take n t @ r" and x: "?x \<noteq> []"
    using j by simp_all
  note le = group_keeps_keys(1) [OF key x, of _ r] and swap = group_keeps_keys(2) [OF key x, of _ r]
  from match have p: "key_sep sep1 (?x @ take n t @ r) p" "q = P.value_length (?x @ take n t @ r) p" "0 < q"
      "\<forall>p'. key_sep sep1 (?x @ take n t @ r) p' \<longrightarrow> 0 < P.value_length (?x @ take n t @ r) p' \<longrightarrow> p' \<le> p"
    unfolding so P.pattern_match_Some by blast+
  then have "pattern_match P.pat (?x @ t) = Some (p, P.value_length (?x @ t) p)"
    unfolding P.pattern_match_Some using swap by blast
  then have "take (P.value_length (?x @ t) p) (drop p (?x @ t)) = redacted"
    using clean so(1) unfolding P.clean_def by metis
  then have "takeWhile (\<lambda>c. \<not> stop1 c) (drop p (?x @ t)) = redacted"
    by (simp only: takeWhile_eq_take [symmetric])
  moreover have pd: "p \<le> length ?x" using le p(1) by blast
  moreover obtain w v where "t = w @ v" "map to_lower w \<in> set secret_words"
    using key unfolding key_sep_def by blast
  ultimately have "takeWhile (\<lambda>c. \<not> stop1 c) (drop p ?x @ take n t @ r) = redacted"
    using redacted_before_word [of "drop p ?x" w v] by simp
  then have "takeWhile (\<lambda>c. \<not> stop1 c) (drop p (?x @ take n t @ r)) = redacted" using pd by simp
  then show ?thesis unfolding so using p(2) by (metis takeWhile_eq_take)
qed

theorem clean_replaced: "P.clean s \<Longrightarrow> P.clean (Q.replaced s)"
proof (induction "length s" arbitrary: s rule: less_induct)
  case less
  from Q.replaced_cases [of s] show ?case
  proof (elim disjE exE conjE)
    assume "Q.replaced s = s"
    with less.prems show ?thesis by simp
  next
    fix u t n m
    assume s: "s = u @ t" and m: "pattern_match Q.pat t = Some (n, m)"
      and out: "Q.replaced s = u @ take n t @ redacted @ Q.replaced (drop (n + m) t)"
      and len: "n + m \<le> length t" "0 < m"
    let ?r = "Q.replaced (drop (n + m) t)" and ?g = "take n t"
    have key: "key_sep sep2 t n" using m unfolding Q.pattern_match_Some by blast
    have n: "n \<le> length t" using key Q.key_sep_pos by blast
    have "drop (n + m) t = drop (length u + (n + m)) s" using s by simp
    then have "P.clean (drop (n + m) t)" using P.clean_drop less.prems by metis
    then have IH: "P.clean ?r" using less.hyps len s by simp
    have kg: "key_sep sep2 (?g @ redacted @ ?r) n"
      using Q.key_sep_prefix [of ?g "drop n t" n "redacted @ ?r"] key n by simp
    show ?thesis
      unfolding P.clean_def
    proof (intro allI impI)
      fix j p q
      assume match: "pattern_match P.pat (drop j (Q.replaced s)) = Some (p, q)"
      then have kp: "key_sep sep1 (drop j (Q.replaced s)) p" unfolding P.pattern_match_Some by blast
      show "take q (drop p (drop j (Q.replaced s))) = redacted"
      proof (cases rule: drop_in_replacement [where j = j and u = u and g = ?g and d = redacted and r = ?r,
          folded out, case_names before start group inside after])
        case before
        with match_before_kept [of u t n j "redacted @ ?r"] less.prems key s match out
        show ?thesis by simp
      next
        case start
        with kp kg not_both_separators show ?thesis by metis
      next
        case (group i)
        then have "i < n" using n by simp
        then show ?thesis
          using Q.no_word_inside [OF kg group(1)] kp unfolding group(3) key_sep_def [of sep1] by metis
      next
        case (inside i)
        then show ?thesis using P.key_sep_not_redacted kp by metis
      next
        case (after i)
        with IH match show ?thesis unfolding P.clean_def by metis
      qed
    qed
  qed
qed

end

section \<open>The program's passes\<close>

lemma to_lower_separators:
  "to_lower (CHR '':'') = CHR '':''" "to_lower (CHR ''='') = CHR ''=''"
  by (simp_all add: to_lower_eq_iff)

lemma stops_not_in_words:
  "w \<in> set secret_words \<Longrightarrow> to_lower c = hd w \<Longrightarrow> \<not> colon_stop c \<and> \<not> assignment_stop c"
  by (auto simp: secret_words_def to_lower_eq_iff colon_stop_def assignment_stop_def)

lemma separators_not_in_words:
  "w \<in> set secret_words \<Longrightarrow> CHR '':'' \<notin> set w \<and> CHR ''='' \<notin> set w"
  using secret_words_letters by blast

interpretation colon: secret_pattern "CHR '':''" colon_stop
proof
  show "\<not> is_space (CHR '':'')" by (simp add: is_space_def)
  show "\<not> colon_stop c" if "c \<in> set redacted" for c
    using that by (auto simp: colon_stop_def)
qed (simp_all add: to_lower_separators to_lower_fixed separators_not_in_words stops_not_in_words)

interpretation assignment: secret_pattern "CHR ''=''" assignment_stop
proof
  show "\<not> is_space (CHR ''='')" by (simp add: is_space_def)
  show "\<not> assignment_stop c" if "c \<in> set redacted" for c
    using that by (auto simp: assignment_stop_def)
qed (simp_all add: to_lower_separators to_lower_fixed separators_not_in_words stops_not_in_words)

interpretation colon_assignment: two_secret_patterns "CHR '':''" colon_stop "CHR ''=''" assignment_stop
  by unfold_locales simp

lemma redact_passes:
  "redact_likely_secret s = assignment.replaced (colon.replaced
     (regex_replace bearer_pattern redacted
       (regex_replace quoted_assignment_pattern (dquote # redacted @ [dquote]) s)))"
  by (simp add: redact_likely_secret_def colon_pattern_def assignment_pattern_def)

lemma redact_colon_clean: "colon.clean (redact_likely_secret s)"
  unfolding redact_passes by (intro colon_assignment.clean_replaced colon.replaced_clean)

lemma redact_assignment_clean: "assignment.clean (redact_likely_secret s)"
  unfolding redact_passes by (rule assignment.replaced_clean)


lemma regex_replace_no_match:
  "\<forall>j. pattern_match pat (drop j s) = None \<Longrightarrow> regex_replace pat repl s = s"
proof (induction s)
  case (Cons c cs)
  have "pattern_match pat (c # cs) = None" using spec [OF Cons.prems, of 0] by simp
  moreover have "\<forall>j. pattern_match pat (drop j cs) = None"
    using Cons.prems by (metis drop_Suc_Cons)
  ultimately show ?case using Cons.IH by simp
qed simp

lemma quoted_no_match:
  "\<not> (\<exists>n. key_sep (CHR ''='') t n) \<Longrightarrow> pattern_match quoted_assignment_pattern t = None"
  using assignment.key_sep_lengths [of t]
  by (auto simp: pattern_match_def quoted_assignment_pattern_def)

lemma bearer_no_match:
  assumes "\<not> prefix ''authorization'' (map to_lower t)"
  shows "pattern_match bearer_pattern t = None"
proof -
  have "map to_lower ''Authorization'' = ''authorization''"
    by (simp add: to_lower_eq_iff)
  then have "rx_words (word_rx ''Authorization'') [''authorization'']"
    using rx_words_word_any [of "''Authorization''"] by simp
  with assms have "match_lengths (word_rx ''Authorization'') t = []"
    by (simp add: rx_words_def)
  then show ?thesis
    by (simp add: pattern_match_def bearer_pattern_def del: word_rx.simps)
qed

lemma redact_no_match:
  assumes "\<And>j. pattern_match quoted_assignment_pattern (drop j s) = None"
    and "\<And>j. pattern_match bearer_pattern (drop j s) = None"
    and "\<And>j. pattern_match colon_pattern (drop j s) = None"
    and "\<And>j. pattern_match assignment_pattern (drop j s) = None"
  shows "redact_likely_secret s = s"
  using assms by (simp add: redact_likely_secret_def Let_def regex_replace_no_match)

text \<open>Every pattern asks for a separator.\<close>

lemma redact_no_separator:
  assumes "CHR ''='' \<notin> set s" "CHR '':'' \<notin> set s"
  shows "redact_likely_secret s = s"
proof -
  have lit: "match_lengths (Lit c) (drop i s) = []" if "c = CHR ''='' \<or> c = CHR '':''" for c i
  proof (cases "drop i s")
    case (Cons d t)
    then have "d \<in> set s" by (metis in_set_dropD list.set_intros(1))
    with assms that have "d \<noteq> c" by auto
    with that have "to_lower d \<noteq> c" by (auto simp: to_lower_eq_iff)
    moreover have "to_lower c = c" using that by (auto simp: to_lower_eq_iff)
    ultimately show ?thesis using Cons by simp
  qed simp
  have key: "match_lengths (key_then c) (drop j s) = []" if "c = CHR ''='' \<or> c = CHR '':''" for c j
    using lit [OF that] by (simp add: key_then_def del: match_lengths.simps(1,4,6))
  show ?thesis
    by (rule redact_no_match)
      (simp_all add: pattern_match_def quoted_assignment_pattern_def colon_pattern_def
        assignment_pattern_def bearer_pattern_def key lit map_replicate_const
        del: match_lengths.simps(1,4-7) word_rx.simps)
qed

section \<open>Properties\<close>

text \<open>
  In a redacted text, whatever the assignment pattern still matches has as its secret the
  replacement text: no value of the form \<open>keyword = value\<close> survives.
\<close>

theorem redact_hides_assignments:
  assumes "pattern_match assignment_pattern (drop j (redact_likely_secret s)) = Some (n, m)"
  shows "take m (drop n (drop j (redact_likely_secret s))) = redacted"
  using redact_assignment_clean [of s] assms
  unfolding assignment.clean_def assignment_pattern_def by blast

theorem redact_hides_assignments_witness:
  "take 10 (drop 6 (drop 2 (redact_likely_secret ''a token=xy z''))) = redacted"
  by (rule redact_hides_assignments) code_simp

text \<open>
  The same for the colon pattern, although the assignment pass runs after the colon pass and
  rewrites its result: no value of the form \<open>keyword: value\<close> survives both.
\<close>

theorem redact_hides_colon_values:
  assumes "pattern_match colon_pattern (drop j (redact_likely_secret s)) = Some (n, m)"
  shows "take m (drop n (drop j (redact_likely_secret s))) = redacted"
  using redact_colon_clean [of s] assms
  unfolding colon.clean_def colon_pattern_def by blast

theorem redact_hides_colon_values_witness:
  "take 10 (drop 7 (drop 2 (redact_likely_secret ''a Token: xy z''))) = redacted"
  by (rule redact_hides_colon_values) code_simp

text \<open>
  Redaction changes nothing else: a text with no keyword before an equals sign or a colon,
  and with no authorization header, is returned as it is.
\<close>

theorem redact_keeps_harmless_text:
  assumes "\<forall>j n. \<not> key_sep (CHR ''='') (drop j s) n \<and> \<not> key_sep (CHR '':'') (drop j s) n"
    and "\<forall>j. \<not> prefix ''authorization'' (map to_lower (drop j s))"
  shows "redact_likely_secret s = s"
  using assms
  by (intro redact_no_match)
    (auto simp: quoted_no_match bearer_no_match colon_pattern_def colon.pattern_match_None
      assignment_pattern_def assignment.pattern_match_None)

theorem redact_keeps_harmless_text_witness: "redact_likely_secret ''ok'' = ''ok''"
proof (rule redact_keeps_harmless_text)
  have none: "\<not> key_sep sep (drop j ''ok'') n" for sep j n
  proof
    assume "key_sep sep (drop j ''ok'') n"
    then obtain w a v where "drop j ''ok'' = w @ a @ sep # v" and "map to_lower w \<in> set secret_words"
      unfolding key_sep_def by blast
    moreover have "\<forall>w \<in> set secret_words. 5 \<le> length w" by (simp add: secret_words_def)
    ultimately have "5 \<le> length (drop j ''ok'')"
      by (metis length_append length_map trans_le_add1)
    then show False by simp
  qed
  then show "\<forall>j n. \<not> key_sep (CHR ''='') (drop j ''ok'') n \<and> \<not> key_sep (CHR '':'') (drop j ''ok'') n"
    by blast
  show "\<forall>j. \<not> prefix ''authorization'' (map to_lower (drop j ''ok''))"
    by (auto dest!: prefix_length_le)
qed

section \<open>What the patterns miss\<close>

text \<open>
  A quotation mark right after the equals sign starts neither pattern's value when no second one
  follows, so an unterminated quoted secret is not redacted.
\<close>

lemma redact_misses_unterminated_quote:
  "redact_likely_secret (''password='' @ dquote # ''hunter2'') = ''password='' @ dquote # ''hunter2''"
  by code_simp

text \<open>
  In a JSON text the keyword is followed by its closing quotation mark, so the member of an object
  named \<open>password\<close> is not redacted. This is the form in which request parameters reach
  the audit log.
\<close>

lemma redact_misses_json_member:
  "redact_likely_secret
     (CHR ''{'' # dquote # ''password'' @ dquote # CHR '':'' # dquote # ''hunter2'' @ dquote # ''}'')
   = CHR ''{'' # dquote # ''password'' @ dquote # CHR '':'' # dquote # ''hunter2'' @ dquote # ''}''"
  by code_simp

end
