(* ===== verification/Session.thy ===== *)
theory Session
  imports Tool_Registry Audit_Log Redaction
begin

text \<open>
  \<open>src/session/session_service.cpp\<close>: the service every request goes through. It asks the
  policy, finds and calls the tool, turns its exceptions into error responses, writes the audit
  events (redacted and bounded) and hands successful evidence to the model. The environment
  of a run (JSON library, clock readings, what the disk does with each append) is the record
  \<open>session_env\<close>; the state is the audit file, the event id counter and the number of
  events made, which indexes the readings.
\<close>

section \<open>Bounded audit strings\<close>

definition audit_marker :: string where
  "audit_marker = ''...[truncated]''"

lemma length_audit_marker [simp]: "length audit_marker = 14"
  by (simp add: audit_marker_def)

definition bound_string :: "string \<Rightarrow> nat \<Rightarrow> string" where
  "bound_string value max_bytes =
     (let redacted_value = redact_likely_secret value
      in if length redacted_value \<le> max_bytes then redacted_value
         else if max_bytes \<le> length audit_marker then take max_bytes audit_marker
         else substr redacted_value 0 (max_bytes - length audit_marker) @ audit_marker)"

definition bound_audit_string :: "string \<Rightarrow> string" where
  "bound_audit_string value = bound_string value 2048"

definition bounded_params_json :: "string smap \<Rightarrow> json" where
  "bounded_params_json params =
     JObject (fold (\<lambda>(k, v) out. smap_assign k (JString (bound_string v 512)) out) params [])"

definition evidence_ref_json :: "evidence \<Rightarrow> json" where
  "evidence_ref_json item = json_object
     [(''id'', JString (bound_audit_string (ev_id item))),
      (''source'', JString (bound_audit_string (ev_source item))),
      (''summary'', JString (bound_audit_string (ev_summary item))),
      (''timestamp'', JString (bound_audit_string (ev_timestamp item)))]"

fun evidence_refs :: "nat \<Rightarrow> evidence list \<Rightarrow> json list" where
  "evidence_refs count [] = []"
| "evidence_refs count (item # items) =
     (if 64 \<le> count then [json_object [(''truncated'', JBool True)]]
      else evidence_ref_json item # evidence_refs (Suc count) items)"

definition evidence_refs_json :: "evidence list \<Rightarrow> json" where
  "evidence_refs_json es = JArray (evidence_refs 0 es)"

definition bound_json :: "json_lib \<Rightarrow> json \<Rightarrow> string result" where
  "bound_json jl j = bind_result (json_dump jl j) (\<lambda>s. Inr (bound_string s 4096))"

lemma length_bound_string [simp, bounded_simps]: "length (bound_string s n) \<le> n"
  by (simp add: bound_string_def Let_def substr_def)

lemma length_bound_audit_string [simp, bounded_simps]: "length (bound_audit_string s) \<le> 2048"
  by (simp add: bound_audit_string_def)

section \<open>Audit details\<close>

definition bool_text :: "bool \<Rightarrow> string" where
  "bool_text b = (if b then ''true'' else ''false'')"

definition tool_audit_details ::
  "json_lib \<Rightarrow> tool_request \<Rightarrow> policy_decision \<Rightarrow> tool_response \<Rightarrow> string smap result" where
  "tool_audit_details jl q d r =
     bind_result (bound_json jl (bounded_params_json (req_params q))) (\<lambda>params.
     bind_result (bound_json jl (evidence_refs_json (resp_evidence r))) (\<lambda>refs.
       Inr (smap_of
         [(''request_id'', bound_audit_string (req_id q)),
          (''tool_name'', bound_audit_string (req_tool_name q)),
          (''request_risk'', risk_to_string (req_risk q)),
          (''request_params'', params),
          (''policy_allowed'', bool_text (pd_allowed d)),
          (''policy_decision'', bound_audit_string (pd_reason d)),
          (''response_status'', status_to_string (resp_status r)),
          (''response_message'', bound_audit_string (resp_message r)),
          (''response_evidence_count'', decimal (length (resp_evidence r))),
          (''response_evidence_refs'', refs),
          (''status'', status_to_string (resp_status r))])))"

definition model_context_details ::
  "json_lib \<Rightarrow> string \<Rightarrow> tool_request \<Rightarrow> evidence list \<Rightarrow> string smap result" where
  "model_context_details jl prompt q es =
     bind_result (bound_json jl (evidence_refs_json es)) (\<lambda>refs.
       Inr (smap_of
         [(''request_id'', bound_audit_string (req_id q)),
          (''prompt'', bound_audit_string prompt),
          (''evidence_count'', decimal (length es)),
          (''evidence_refs'', refs)]))"

definition model_skipped_details ::
  "json_lib \<Rightarrow> string \<Rightarrow> tool_request \<Rightarrow> tool_response \<Rightarrow> string smap result" where
  "model_skipped_details jl prompt q r =
     bind_result (bound_json jl (evidence_refs_json (resp_evidence r))) (\<lambda>refs.
       Inr (smap_of
         [(''request_id'', bound_audit_string (req_id q)),
          (''prompt'', bound_audit_string prompt),
          (''tool_status'', status_to_string (resp_status r)),
          (''reason'', bound_audit_string (resp_message r)),
          (''evidence_count'', decimal (length (resp_evidence r))),
          (''evidence_refs'', refs)]))"

definition model_response_details :: "tool_request \<Rightarrow> string \<Rightarrow> string smap" where
  "model_response_details q answer = smap_of
     [(''request_id'', bound_audit_string (req_id q)),
      (''response_status'', ''ok''),
      (''response_message'', ''model response received''),
      (''response_bytes'', decimal (length answer)),
      (''response_preview'', bound_audit_string answer)]"

definition model_error_details ::
  "json_lib \<Rightarrow> string \<Rightarrow> tool_request \<Rightarrow> string \<Rightarrow> evidence list \<Rightarrow> string smap result" where
  "model_error_details jl prompt q err es =
     bind_result (bound_json jl (evidence_refs_json es)) (\<lambda>refs.
       Inr (smap_of
         [(''request_id'', bound_audit_string (req_id q)),
          (''prompt'', bound_audit_string prompt),
          (''error'', err),
          (''evidence_count'', decimal (length es)),
          (''evidence_refs'', refs)]))"

section \<open>The service\<close>

record session_env =
  env_json :: json_lib
  env_now :: "nat \<Rightarrow> int"
  env_utc :: "nat \<Rightarrow> utc_tm"
  env_disk :: "nat \<Rightarrow> disk_outcome"

record session_state =
  ss_log :: string
  ss_counter :: u64
  ss_made :: nat

record 'm session_service =
  svc_registry :: "'m registry"
  svc_policy :: broker
  svc_audit_path :: string

record model_request =
  mr_prompt :: string
  mr_evidence :: "evidence list"

type_synonym model = "model_request \<Rightarrow> string result"

record ask_result =
  ask_ok :: bool
  ask_answer :: string
  ask_error :: string

text \<open>
  \<open>audit_.append(core::AuditEvent{...})\<close>: the fields are evaluated in order, the id first,
  so the counter moves even if the details throw; then the event is appended.
\<close>

definition new_event ::
  "session_env \<Rightarrow> session_state \<Rightarrow> string \<Rightarrow> string \<Rightarrow> string \<Rightarrow> string smap \<Rightarrow> audit_event" where
  "new_event env st actor ty summ details =
     \<lparr>ae_id = fst (make_event_id (env_now env (ss_made st)) (ss_counter st)),
      ae_timestamp = utc_timestamp (env_utc env (ss_made st)), ae_actor = actor, ae_type = ty,
      ae_summary = summ, ae_details = details\<rparr>"

definition event_made :: "session_env \<Rightarrow> session_state \<Rightarrow> session_state" where
  "event_made env st =
     st\<lparr>ss_counter := snd (make_event_id (env_now env (ss_made st)) (ss_counter st)),
        ss_made := Suc (ss_made st)\<rparr>"

definition emit ::
  "session_env \<Rightarrow> string \<Rightarrow> string \<Rightarrow> string \<Rightarrow> string \<Rightarrow> string smap result \<Rightarrow> session_state
   \<Rightarrow> unit result \<times> session_state" where
  "emit env path actor ty summ details st =
     (case details of
        Inl e \<Rightarrow> (Inl e, event_made env st)
      | Inr ds \<Rightarrow>
          let (res, log) = audit_append (env_json env) path (env_disk env (ss_made st))
                (new_event env st actor ty summ ds) (ss_log st)
          in (res, (event_made env st)\<lparr>ss_log := log\<rparr>))"

definition list_tools :: "'m session_service \<Rightarrow> string list" where
  "list_tools svc = registry_names (svc_registry svc)"

text \<open>The first half of \<open>call_tool\<close>: the response, before it is audited.\<close>

definition tool_outcome ::
  "json_lib \<Rightarrow> 'm session_service \<Rightarrow> 'm \<Rightarrow> tool_request \<Rightarrow> tool_response" where
  "tool_outcome jl svc m q =
     (let d = decide (svc_policy svc) q
      in if \<not> pd_allowed d
         then \<lparr>resp_request_id = req_id q, resp_status = Denied, resp_message = pd_reason d,
               resp_evidence = []\<rparr>
         else case registry_find (svc_registry svc) (req_tool_name q) of
                None \<Rightarrow>
                  \<lparr>resp_request_id = req_id q, resp_status = Denied,
                   resp_message = ''tool is not registered'', resp_evidence = []\<rparr>
              | Some t \<Rightarrow>
                  (case tool_call t m q of
                     Inr r \<Rightarrow> r
                   | Inl e \<Rightarrow>
                       if is_std_exception e
                       then \<lparr>resp_request_id = req_id q, resp_status = Error,
                             resp_message = what (json_what jl) e, resp_evidence = []\<rparr>
                       else \<lparr>resp_request_id = req_id q, resp_status = Error,
                             resp_message = ''tool call failed with unknown exception'',
                             resp_evidence = []\<rparr>))"

definition call_tool ::
  "session_env \<Rightarrow> 'm session_service \<Rightarrow> 'm \<Rightarrow> tool_request \<Rightarrow> string \<Rightarrow> session_state
   \<Rightarrow> tool_response result \<times> session_state" where
  "call_tool env svc m q actor st =
     (let d = decide (svc_policy svc) q;
          r = tool_outcome (env_json env) svc m q;
          (res, st') = emit env (svc_audit_path svc) actor ''tool.call''
             (bound_audit_string (req_tool_name q)) (tool_audit_details (env_json env) q d r) st
      in (map_sum id (\<lambda>_. r) res, st'))"

text \<open>The handlers of \<open>ask_with_tool\<close> for what the model, or its audit, threw.\<close>

definition model_failed ::
  "session_env \<Rightarrow> string \<Rightarrow> string \<Rightarrow> tool_request \<Rightarrow> string \<Rightarrow> evidence list \<Rightarrow> exn \<Rightarrow> session_state
   \<Rightarrow> ask_result result \<times> session_state" where
  "model_failed env path prompt q actor es e st =
     (let jl = env_json env;
          msg = (if is_std_exception e then what (json_what jl) e
                 else ''model failed with unknown exception'');
          err = (if is_std_exception e then bound_audit_string msg else msg);
          (res, st') = emit env path actor ''model.error'' (bound_audit_string prompt)
             (model_error_details jl prompt q err es) st
      in (map_sum id (\<lambda>_. \<lparr>ask_ok = False, ask_answer = [], ask_error = msg\<rparr>) res, st'))"

definition ask_model ::
  "session_env \<Rightarrow> string \<Rightarrow> model \<Rightarrow> string \<Rightarrow> tool_request \<Rightarrow> string \<Rightarrow> evidence list \<Rightarrow> session_state
   \<Rightarrow> ask_result result \<times> session_state" where
  "ask_model env path complete prompt q actor es st =
     (case complete \<lparr>mr_prompt = prompt, mr_evidence = es\<rparr> of
        Inl e \<Rightarrow> model_failed env path prompt q actor es e st
      | Inr answer \<Rightarrow>
          (case emit env path actor ''model.response'' ''model response received''
                  (Inr (model_response_details q answer)) st of
             (Inl e, st') \<Rightarrow> model_failed env path prompt q actor es e st'
           | (Inr _, st') \<Rightarrow>
               (Inr \<lparr>ask_ok = True, ask_answer = answer, ask_error = []\<rparr>, st')))"

definition ask_with_tool ::
  "session_env \<Rightarrow> 'm session_service \<Rightarrow> 'm \<Rightarrow> model \<Rightarrow> string \<Rightarrow> tool_request \<Rightarrow> string \<Rightarrow> session_state
   \<Rightarrow> ask_result result \<times> session_state" where
  "ask_with_tool env svc m complete prompt q actor st =
     (let jl = env_json env; path = svc_audit_path svc
      in case call_tool env svc m q actor st of
           (Inl e, st1) \<Rightarrow> (Inl e, st1)
         | (Inr r, st1) \<Rightarrow>
             if resp_status r \<noteq> Ok
             then (case emit env path actor ''model.skipped'' (bound_audit_string prompt)
                          (model_skipped_details jl prompt q r) st1 of
                     (Inl e, st2) \<Rightarrow> (Inl e, st2)
                   | (Inr _, st2) \<Rightarrow>
                       (Inr \<lparr>ask_ok = False, ask_answer = [],
                             ask_error = ''tool call did not succeed: '' @ resp_message r\<rparr>, st2))
             else (case emit env path actor ''model.request'' (bound_audit_string prompt)
                          (model_context_details jl prompt q (resp_evidence r)) st1 of
                     (Inl e, st2) \<Rightarrow> (Inl e, st2)
                   | (Inr _, st2) \<Rightarrow>
                       ask_model env path complete prompt q actor (resp_evidence r) st2))"

end
