(* ===== verification/Session_Properties.thy ===== *)
theory Session_Properties
  imports Session
begin

text \<open>
  What the session service guarantees: who may reach a tool, what is audited before an answer leaves,
  what never enters the audit log, and when the model is consulted.
\<close>

section \<open>One audit event\<close>

lemma emit_ok:
  assumes "emit env path actor ty summ details st = (Inr (), st')"
  obtains ds line where "details = Inr ds"
    "audit_record (env_json env) (new_event env st actor ty summ ds) = Inr line"
    "st' = (event_made env st)\<lparr>ss_log := ss_log st @ line\<rparr>"
proof -
  from assms obtain ds where d: "details = Inr ds" by (auto simp: emit_def split: sum.splits)
  with assms obtain f where f: "audit_append (env_json env) path (env_disk env (ss_made st))
       (new_event env st actor ty summ ds) (ss_log st) = (Inr (), f)"
    "st' = (event_made env st)\<lparr>ss_log := f\<rparr>"
    by (auto simp: emit_def split: prod.splits)
  from audit_log.appended [OF f(1)] f(2) d that show thesis by auto
qed

lemma emit_grows: "prefix (ss_log st) (ss_log (snd (emit env path actor ty summ details st)))"
  by (auto simp: emit_def event_made_def split: sum.splits prod.splits)
    (metis audit_log.only_grows snd_conv)

text \<open>An audit failure is the failure of the JSON library on a value, or a stream error.\<close>

definition audit_exn :: "json_lib \<Rightarrow> exn \<Rightarrow> bool" where
  "audit_exn jl e \<longleftrightarrow> (\<exists>msg. e = RuntimeError msg) \<or> (\<exists>j. json_dump jl j = Inl e)"

lemma emit_exn:
  assumes "emit env path actor ty summ details st = (Inl e, st')"
    and "\<And>e. details = Inl e \<Longrightarrow> audit_exn (env_json env) e"
  shows "audit_exn (env_json env) e"
proof (cases details)
  case (Inl e')
  with assms show ?thesis by (simp add: emit_def)
next
  case (Inr ds)
  with assms(1) have "fst (audit_append (env_json env) path (env_disk env (ss_made st))
       (new_event env st actor ty summ ds) (ss_log st)) = Inl e"
    by (auto simp: emit_def split: prod.splits)
  then have "audit_append (env_json env) path (env_disk env (ss_made st))
       (new_event env st actor ty summ ds) (ss_log st) = (Inl e, snd (audit_append (env_json env) path
       (env_disk env (ss_made st)) (new_event env st actor ty summ ds) (ss_log st)))"
    by (metis prod.collapse)
  from audit_append_std [OF this] show ?thesis
    by (auto simp: audit_exn_def audit_write_error_def)
qed

lemma bound_json_exn: "bound_json jl j = Inl e \<Longrightarrow> audit_exn jl e"
  by (auto simp: bound_json_def bind_result_eq_Inl audit_exn_def)

lemma details_exn:
  "tool_audit_details jl q d r = Inl e \<Longrightarrow> audit_exn jl e"
  "model_skipped_details jl p q r = Inl e \<Longrightarrow> audit_exn jl e"
  "model_context_details jl p q es = Inl e \<Longrightarrow> audit_exn jl e"
  "model_error_details jl p q m es = Inl e \<Longrightarrow> audit_exn jl e"
  by (auto simp: tool_audit_details_def model_skipped_details_def model_context_details_def
      model_error_details_def bind_result_eq_Inl dest: bound_json_exn)

section \<open>Reaching a tool\<close>

lemma outcome_denied:
  "\<not> pd_allowed (decide (svc_policy svc) q) \<Longrightarrow>
     tool_outcome jl svc m q = \<lparr>resp_request_id = req_id q, resp_status = Denied,
       resp_message = pd_reason (decide (svc_policy svc) q), resp_evidence = []\<rparr>"
  by (simp add: tool_outcome_def Let_def)

lemma outcome_Inr:
  "pd_allowed (decide (svc_policy svc) q) \<Longrightarrow> registry_find (svc_registry svc) (req_tool_name q) = Some t \<Longrightarrow>
     tool_call t m q = Inr r \<Longrightarrow> tool_outcome jl svc m q = r"
  by (simp add: tool_outcome_def Let_def)

lemma call_tool_response: "call_tool env svc m q actor st = (Inr r, st') \<Longrightarrow>
    r = tool_outcome (env_json env) svc m q"
  unfolding call_tool_def Let_def
  by (split prod.splits, rename_tac res) (auto simp: map_sum_def split: prod.splits sum.splits)

text \<open>
  C1: A request for a tool that is not registered, or not registered as read-only, never reaches a
  tool. With the policy the daemon builds from its registry, the outcome is the same whatever tools
  there are in the registry and whatever state the system is in, the audit included; if an
  answer is returned it is a denial with the policy's reason and no evidence.
\<close>

theorem unauthorised_call_reaches_no_tool:
  assumes "svc_policy svc = policy_broker (registry_policies (svc_registry svc))"
    and "\<not> (\<exists>t. registry_find (svc_registry svc) (req_tool_name q) = Some t \<and> tool_risk t = ReadOnly)"
  shows "call_tool env (svc\<lparr>svc_registry := other_tools\<rparr>) m' q actor st = call_tool env svc m q actor st
     \<and> (case fst (call_tool env svc m q actor st) of
          Inl _ \<Rightarrow> True
        | Inr r \<Rightarrow> r = \<lparr>resp_request_id = req_id q, resp_status = Denied,
             resp_message = pd_reason (decide (svc_policy svc) q), resp_evidence = []\<rparr>)"
proof -
  have d: "\<not> pd_allowed (decide (svc_policy svc) q)"
    using assms by (simp add: reg.broker_allows)
  then have "tool_outcome jl (svc\<lparr>svc_registry := other_tools\<rparr>) m' q = tool_outcome jl svc m q" for jl
    by (simp add: tool_outcome_def Let_def)
  moreover have "r = \<lparr>resp_request_id = req_id q, resp_status = Denied,
      resp_message = pd_reason (decide (svc_policy svc) q), resp_evidence = []\<rparr>"
    if "fst (call_tool env svc m q actor st) = Inr r" for r
    using call_tool_response [of env svc m q actor st r] outcome_denied [OF d] that
    by (metis prod.collapse)
  ultimately show ?thesis
    by (auto simp: call_tool_def Let_def split: sum.splits)
qed

lemma call_tool_emit:
  "call_tool env svc m q actor st = (Inr r, st') \<longleftrightarrow>
     r = tool_outcome (env_json env) svc m q \<and>
     emit env (svc_audit_path svc) actor ''tool.call'' (bound_audit_string (req_tool_name q))
       (tool_audit_details (env_json env) q (decide (svc_policy svc) q) r) st = (Inr (), st')"
  "call_tool env svc m q actor st = (Inl e, st') \<longleftrightarrow>
     emit env (svc_audit_path svc) actor ''tool.call'' (bound_audit_string (req_tool_name q))
       (tool_audit_details (env_json env) q (decide (svc_policy svc) q)
         (tool_outcome (env_json env) svc m q)) st = (Inl e, st')"
proof -
  let ?r = "tool_outcome (env_json env) svc m q"
  obtain x s where E: "emit env (svc_audit_path svc) actor ''tool.call''
      (bound_audit_string (req_tool_name q))
      (tool_audit_details (env_json env) q (decide (svc_policy svc) q) ?r) st = (x, s)" by force
  then have C: "call_tool env svc m q actor st = (map_sum id (\<lambda>_. ?r) x, s)"
    by (simp add: call_tool_def Let_def)
  from E C show "call_tool env svc m q actor st = (Inr r, st') \<longleftrightarrow> r = ?r \<and>
      emit env (svc_audit_path svc) actor ''tool.call'' (bound_audit_string (req_tool_name q))
       (tool_audit_details (env_json env) q (decide (svc_policy svc) q) r) st = (Inr (), st')"
    by (cases x) (auto cong: conj_cong)
  from E C show "call_tool env svc m q actor st = (Inl e, st') \<longleftrightarrow>
      emit env (svc_audit_path svc) actor ''tool.call'' (bound_audit_string (req_tool_name q))
       (tool_audit_details (env_json env) q (decide (svc_policy svc) q) ?r) st = (Inl e, st')"
    by (cases x) auto
qed

text \<open>
  C2: No answer without an audit record: \<open>call_tool\<close> returns a response only after exactly one
  record has been appended to the audit log, of type \<open>tool.call\<close>, with the caller as actor, the
  event's own id and the details computed from the request, the decision and that very response.
\<close>

theorem every_answered_call_is_audited:
  assumes "call_tool env svc m q actor st = (Inr r, st')"
  shows "\<exists>details line.
       tool_audit_details (env_json env) q (decide (svc_policy svc) q) r = Inr details
     \<and> audit_record (env_json env) (new_event env st actor ''tool.call''
          (bound_audit_string (req_tool_name q)) details) = Inr line
     \<and> ss_log st' = ss_log st @ line"
proof -
  from assms have "emit env (svc_audit_path svc) actor ''tool.call'' (bound_audit_string (req_tool_name q))
       (tool_audit_details (env_json env) q (decide (svc_policy svc) q) r) st = (Inr (), st')"
    unfolding call_tool_emit by blast
  then obtain ds line where "tool_audit_details (env_json env) q (decide (svc_policy svc) q) r = Inr ds"
    "audit_record (env_json env) (new_event env st actor ''tool.call''
       (bound_audit_string (req_tool_name q)) ds) = Inr line"
    "st' = (event_made env st)\<lparr>ss_log := ss_log st @ line\<rparr>"
    by (rule emit_ok)
  then show ?thesis by auto
qed

lemma call_extends_log:
  assumes "call_tool env svc m q actor st = (Inr r, st')"
  shows "ss_log st \<noteq> ss_log st'" "prefix (ss_log st) (ss_log st')"
proof -
  from assms have "emit env (svc_audit_path svc) actor ''tool.call'' (bound_audit_string (req_tool_name q))
       (tool_audit_details (env_json env) q (decide (svc_policy svc) q) r) st = (Inr (), st')"
    unfolding call_tool_emit by blast
  then obtain ds line where line: "audit_record (env_json env) (new_event env st actor ''tool.call''
       (bound_audit_string (req_tool_name q)) ds) = Inr line"
    and st': "st' = (event_made env st)\<lparr>ss_log := ss_log st @ line\<rparr>"
    by (rule emit_ok)
  from line have "line \<noteq> []" by (auto simp: audit_record_def bind_result_eq_Inr)
  with st' show "ss_log st \<noteq> ss_log st'" "prefix (ss_log st) (ss_log st')" by simp_all
qed

lemma outcome_of_contract:
  assumes "svc_policy svc = policy_broker (registry_policies (svc_registry svc))"
    and "registry_find (svc_registry svc) (req_tool_name q) = Some t" "tool_contract t"
    and "r = tool_outcome jl svc m q"
  shows "resp_request_id r = req_id q" "resp_status r \<noteq> Denied"
    "resp_status r = Ok \<Longrightarrow> resp_evidence r \<noteq> []"
proof -
  have "pd_allowed (decide (svc_policy svc) q)"
    using assms by (simp add: reg.broker_allows tool_contract.read_only)
  with assms(2,4) have "(\<exists>r'. tool_call t m q = Inr r' \<and> r = r')
      \<or> resp_request_id r = req_id q \<and> resp_status r = Error"
    by (auto simp: tool_outcome_def Let_def split: sum.splits)
  then show "resp_request_id r = req_id q" "resp_status r \<noteq> Denied"
    "resp_status r = Ok \<Longrightarrow> resp_evidence r \<noteq> []"
    using tool_contract.echoes [OF assms(3)] tool_contract.never_denies [OF assms(3)]
      tool_contract.ok_has_evidence [OF assms(3)] by auto
qed

lemma outcome_of_unregistered:
  assumes "svc_policy svc = policy_broker (registry_policies (svc_registry svc))"
    and "registry_find (svc_registry svc) (req_tool_name q) = None"
    and "r = tool_outcome jl svc m q"
  shows "resp_request_id r = req_id q" "resp_status r = Denied" "resp_evidence r = []"
proof -
  have "\<not> pd_allowed (decide (svc_policy svc) q)" using assms by (simp add: reg.broker_allows)
  with assms(3) show "resp_request_id r = req_id q" "resp_status r = Denied" "resp_evidence r = []"
    by (simp_all add: outcome_denied)
qed

text \<open>
  Whatever a tool throws is answered: with tools that keep their contract and the policy built
  from them, the response of a call carries the request's id, is a denial exactly when the policy
  refuses, and has evidence when its status is ok.
\<close>

theorem tool_response_wellformed:
  assumes "svc_policy svc = policy_broker (registry_policies (svc_registry svc))"
    and "tools_keep_contract (svc_registry svc)"
    and "r = tool_outcome jl svc m q"
  shows "resp_request_id r = req_id q
     \<and> (resp_status r = Denied \<longleftrightarrow> registry_find (svc_registry svc) (req_tool_name q) = None)
     \<and> (resp_status r = Ok \<longrightarrow> resp_evidence r \<noteq> [])"
proof (cases "registry_find (svc_registry svc) (req_tool_name q)")
  case None
  with outcome_of_unregistered [OF assms(1) None assms(3)] show ?thesis by simp
next
  case (Some t)
  with assms(2) have "tool_contract t" by (auto simp: tools_keep_contract_def dest: registry_find_Some)
  with outcome_of_contract [OF assms(1) Some _ assms(3)] Some show ?thesis by simp
qed

section \<open>What is kept out of the audit log\<close>

text \<open>A response without the bodies of its evidence.\<close>

definition without_bodies :: "tool_response \<Rightarrow> tool_response" where
  "without_bodies r = r\<lparr>resp_evidence := map (\<lambda>e. e\<lparr>ev_body := []\<rparr>) (resp_evidence r)\<rparr>"

lemma evidence_refs_no_body:
  "evidence_refs n (map (\<lambda>e. e\<lparr>ev_body := []\<rparr>) es) = evidence_refs n es"
  by (induction n es rule: evidence_refs.induct) (simp_all add: evidence_ref_json_def)

lemma details_no_body:
  "tool_audit_details jl q d (without_bodies r) = tool_audit_details jl q d r"
  "model_skipped_details jl p q (without_bodies r) = model_skipped_details jl p q r"
  "model_context_details jl p q (resp_evidence (without_bodies r)) = model_context_details jl p q (resp_evidence r)"
  "model_error_details jl p q m (resp_evidence (without_bodies r)) = model_error_details jl p q m (resp_evidence r)"
  by (simp_all add: without_bodies_def tool_audit_details_def model_skipped_details_def
      model_context_details_def model_error_details_def evidence_refs_json_def evidence_refs_no_body)

lemma without_bodies_status: "without_bodies r = without_bodies r' \<Longrightarrow> resp_status r = resp_status r'"
  by (cases r; cases r') (simp add: without_bodies_def)

lemma details_same_bodies:
  assumes "without_bodies r = without_bodies r'"
  shows "tool_audit_details jl q d r = tool_audit_details jl q d r'"
    "model_skipped_details jl p q r = model_skipped_details jl p q r'"
    "model_context_details jl p q (resp_evidence r) = model_context_details jl p q (resp_evidence r')"
    "model_error_details jl p q m (resp_evidence r) = model_error_details jl p q m (resp_evidence r')"
  using assms details_no_body by metis+

lemma model_failed_same_bodies:
  "without_bodies r = without_bodies r' \<Longrightarrow>
     model_failed env path p q actor (resp_evidence r) e st = model_failed env path p q actor (resp_evidence r') e st"
  by (simp add: model_failed_def Let_def details_same_bodies(4) [of r r'])

lemma ask_model_same_bodies:
  assumes "without_bodies r = without_bodies r'"
    and "complete \<lparr>mr_prompt = p, mr_evidence = resp_evidence r\<rparr>
       = complete \<lparr>mr_prompt = p, mr_evidence = resp_evidence r'\<rparr>"
  shows "ask_model env path complete p q actor (resp_evidence r) st
       = ask_model env path complete p q actor (resp_evidence r') st"
  using assms by (simp add: ask_model_def model_failed_same_bodies [of r r'] split: sum.splits prod.splits)

lemma call_tool_same_bodies:
  assumes "svc_policy svc = svc_policy svc'" "svc_audit_path svc = svc_audit_path svc'"
    and "without_bodies (tool_outcome (env_json env) svc m q)
       = without_bodies (tool_outcome (env_json env) svc' m' q)"
  shows "snd (call_tool env svc m q actor st) = snd (call_tool env svc' m' q actor st)"
    "map_sum id (\<lambda>_. ()) (fst (call_tool env svc m q actor st))
       = map_sum id (\<lambda>_. ()) (fst (call_tool env svc' m' q actor st))"
  using assms details_same_bodies(1) [OF assms(3)]
  by (auto simp: call_tool_def Let_def sum.map_comp comp_def split: prod.splits)

text \<open>
  C10: Evidence bodies never enter the audit log. Two services whose tool answers differ in the
  evidence bodies only leave the same log, byte for byte, after \<open>call_tool\<close>, and also after
  \<open>ask_with_tool\<close> when the model answers both alike (a preview of the answer is logged).
\<close>

theorem evidence_bodies_stay_out_of_the_log:
  assumes "svc_policy svc = svc_policy svc'" "svc_audit_path svc = svc_audit_path svc'"
    and same: "without_bodies (tool_outcome (env_json env) svc m q)
       = without_bodies (tool_outcome (env_json env) svc' m' q)"
    and "complete \<lparr>mr_prompt = p, mr_evidence = resp_evidence (tool_outcome (env_json env) svc m q)\<rparr>
       = complete \<lparr>mr_prompt = p, mr_evidence = resp_evidence (tool_outcome (env_json env) svc' m' q)\<rparr>"
  shows "ss_log (snd (call_tool env svc m q actor st)) = ss_log (snd (call_tool env svc' m' q actor st))
     \<and> ss_log (snd (ask_with_tool env svc m complete p q actor st))
       = ss_log (snd (ask_with_tool env svc' m' complete p q actor st))"
proof
  note call = call_tool_same_bodies [OF assms(1-3), of actor st]
  then show "ss_log (snd (call_tool env svc m q actor st)) = ss_log (snd (call_tool env svc' m' q actor st))"
    by simp
  show "ss_log (snd (ask_with_tool env svc m complete p q actor st))
       = ss_log (snd (ask_with_tool env svc' m' complete p q actor st))"
  proof (cases "call_tool env svc m q actor st")
    case (Pair x st1)
    obtain x' where P': "call_tool env svc' m' q actor st = (x', st1)"
      using call(1) Pair by (metis prod.collapse snd_conv)
    show ?thesis
    proof (cases x)
      case (Inl e)
      with call(2) Pair P' have "x' = Inl e" by (cases x') auto
      with Pair P' Inl show ?thesis by (simp add: ask_with_tool_def)
    next
      case (Inr r)
      with call(2) Pair P' obtain r' where x': "x' = Inr r'" by (cases x') auto
      have r: "r = tool_outcome (env_json env) svc m q" "r' = tool_outcome (env_json env) svc' m' q"
        using Pair P' Inr x' by (auto dest: call_tool_response)
      then have b: "without_bodies r = without_bodies r'" using same by simp
      have st: "resp_status r = resp_status r'" using without_bodies_status [OF b] .
      have "ask_model env path complete p q actor (resp_evidence r) s
          = ask_model env path complete p q actor (resp_evidence r') s" for path s
        using ask_model_same_bodies [OF b] assms(4) r by metis
      then show ?thesis
        using Pair P' Inr x' st assms(2) details_same_bodies(2,3) [OF b]
        by (auto simp: ask_with_tool_def Let_def split: prod.splits sum.splits)
    qed
  qed
qed

section \<open>Bounds\<close>

definition details_bounded :: "string smap \<Rightarrow> bool" where
  "details_bounded ds \<longleftrightarrow> (\<forall>(k, v) \<in> set ds. length v \<le> 4096)"

lemma set_smap_assign: "set (smap_assign k v m) \<subseteq> insert (k, v) (set m)"
  by (induction k v m rule: smap_assign.induct) auto

lemma set_smap_of: "set (smap_of kvs) \<subseteq> set kvs"
proof -
  have "set (fold (\<lambda>(k, v) m. smap_emplace k v m) kvs m) \<subseteq> set kvs \<union> set m" for m
  proof (induction kvs arbitrary: m)
    case (Cons kv kvs)
    obtain k v where kv: "kv = (k, v)" by force
    have "set (smap_emplace k v m) \<subseteq> insert (k, v) (set m)"
      using set_smap_assign [of k v m] by (auto simp: smap_emplace_def split: option.splits)
    with Cons.IH [of "smap_emplace k v m"] kv show ?case by auto
  qed simp
  from this [of "[]"] show ?thesis by (simp add: smap_of_def)
qed

lemma details_bounded_smap_of:
  "(\<And>k v. (k, v) \<in> set kvs \<Longrightarrow> length v \<le> 4096) \<Longrightarrow> details_bounded (smap_of kvs)"
  using set_smap_of [of kvs] by (fastforce simp: details_bounded_def)

lemma bounded_pieces [bounded_simps]:
  "bound_json jl j = Inr s \<Longrightarrow> length s \<le> 4096"
  "length (bound_audit_string t) \<le> 4096"
  "length (risk_to_string rk) \<le> 4096"
  "length (status_to_string stt) \<le> 4096"
  "length (bool_text b) \<le> 4096"
  "n < 2 ^ 64 \<Longrightarrow> length (decimal n) \<le> 4096"
proof -
  show "length (risk_to_string rk) \<le> 4096" by (cases rk) simp_all
  show "length (status_to_string stt) \<le> 4096" by (cases stt) simp_all
  show "length (bound_audit_string t) \<le> 4096"
    using length_bound_audit_string [of t] by linarith
  show "length (decimal n) \<le> 4096" if "n < 2 ^ 64"
    using length_decimal_size [OF that] by linarith
qed (auto simp: bound_json_def bind_result_eq_Inr bool_text_def)


definition sample_request :: tool_request where
  "sample_request = \<lparr>req_id = ''r1'', req_tool_name = ''disk.usage'', req_risk = ReadOnly, req_params = []\<rparr>"

definition sample_response :: tool_response where
  "sample_response = \<lparr>resp_request_id = ''r1'', resp_status = Ok, resp_message = ''done'',
     resp_evidence = [\<lparr>ev_id = ''e'', ev_source = ''s'', ev_summary = ''x'', ev_body = ''secret'',
       ev_timestamp = ''t''\<rparr>]\<rparr>"


section \<open>The model\<close>

text \<open>
  C9: The model is consulted only after a successful tool call. If the tool's status is not ok, the
  result, the log and the counter are the same for every model, and an answer that is returned
  says so: not ok, no answer, the tool's message as the reason.
\<close>

theorem model_not_consulted_without_evidence:
  assumes "resp_status (tool_outcome (env_json env) svc m q) \<noteq> Ok"
  shows "ask_with_tool env svc m complete p q actor st = ask_with_tool env svc m other_model p q actor st
     \<and> (case fst (ask_with_tool env svc m complete p q actor st) of
          Inl _ \<Rightarrow> True
        | Inr a \<Rightarrow> a = \<lparr>ask_ok = False, ask_answer = [], ask_error =
            ''tool call did not succeed: '' @ resp_message (tool_outcome (env_json env) svc m q)\<rparr>)"
proof (cases "call_tool env svc m q actor st")
  case (Pair x st1)
  show ?thesis
  proof (cases x)
    case (Inl e)
    with Pair show ?thesis by (simp add: ask_with_tool_def)
  next
    case (Inr r)
    with Pair have r: "r = tool_outcome (env_json env) svc m q" by (auto dest: call_tool_response)
    with Pair Inr assms show ?thesis
      by (auto simp: ask_with_tool_def Let_def split: prod.splits sum.splits)
  qed
qed

lemma model_failed_not_ok:
  "model_failed env path p q actor es e st = (Inr a, st') \<Longrightarrow> \<not> ask_ok a"
  by (auto simp: model_failed_def Let_def map_sum_def split: prod.splits sum.splits)

lemma counters_differ: "distinct [c :: u64, c + 1, c + 1 + 1]"
  by (simp add: add.assoc)

lemma new_event_counter:
  "ae_id (new_event env st a t s d) = ae_id (new_event env st' a' t' s' d') \<Longrightarrow>
     ss_counter st = ss_counter st'"
  unfolding new_event_def by simp (rule event_id_counter)

text \<open>
  C26: An answer that \<open>ask_with_tool\<close> returns as ok is what the model gave for exactly the caller's
  prompt and the evidence of a successful tool call, and it is returned only after three records, of
  types \<open>tool.call\<close>, \<open>model.request\<close> and \<open>model.response\<close> in this order and
  with three different event ids, have been appended to the log.
\<close>

theorem answered_ask_is_grounded_and_audited:
  assumes "ask_with_tool env svc m complete p q actor st = (Inr a, st')" "ask_ok a"
  shows "\<exists>r e1 e2 e3 l1 l2 l3.
       r = tool_outcome (env_json env) svc m q \<and> resp_status r = Ok
     \<and> complete \<lparr>mr_prompt = p, mr_evidence = resp_evidence r\<rparr> = Inr (ask_answer a)
     \<and> ss_log st' = ss_log st @ l1 @ l2 @ l3
     \<and> audit_record (env_json env) e1 = Inr l1 \<and> audit_record (env_json env) e2 = Inr l2
     \<and> audit_record (env_json env) e3 = Inr l3
     \<and> map ae_type [e1, e2, e3] = [''tool.call'', ''model.request'', ''model.response'']
     \<and> map ae_actor [e1, e2, e3] = [actor, actor, actor]
     \<and> distinct (map ae_id [e1, e2, e3])"
proof -
  let ?path = "svc_audit_path svc"
  from assms obtain r st1 where c1: "call_tool env svc m q actor st = (Inr r, st1)"
    by (auto simp: ask_with_tool_def Let_def split: prod.splits sum.splits)
  then have r: "r = tool_outcome (env_json env) svc m q" by (rule call_tool_response)
  from assms c1 have ok: "resp_status r = Ok"
    by (auto simp: ask_with_tool_def Let_def split: prod.splits sum.splits if_splits)
  with assms c1 obtain st2 where c2: "emit env ?path actor ''model.request'' (bound_audit_string p)
      (model_context_details (env_json env) p q (resp_evidence r)) st1 = (Inr (), st2)"
    and am: "ask_model env ?path complete p q actor (resp_evidence r) st2 = (Inr a, st')"
    by (auto simp: ask_with_tool_def Let_def split: prod.splits sum.splits)
  from am assms(2) have compl: "complete \<lparr>mr_prompt = p, mr_evidence = resp_evidence r\<rparr> = Inr (ask_answer a)"
    and c3: "emit env ?path actor ''model.response'' ''model response received''
      (Inr (model_response_details q (ask_answer a))) st2 = (Inr (), st')"
    by (auto simp: ask_model_def model_failed_not_ok split: prod.splits sum.splits dest: model_failed_not_ok)
  from c1 have "emit env ?path actor ''tool.call'' (bound_audit_string (req_tool_name q))
      (tool_audit_details (env_json env) q (decide (svc_policy svc) q) r) st = (Inr (), st1)"
    unfolding call_tool_emit by blast
  then obtain d1 l1 where e1: "audit_record (env_json env) (new_event env st actor ''tool.call''
        (bound_audit_string (req_tool_name q)) d1) = Inr l1"
    "st1 = (event_made env st)\<lparr>ss_log := ss_log st @ l1\<rparr>" by (rule emit_ok)
  from c2 obtain d2 l2 where e2: "audit_record (env_json env) (new_event env st1 actor ''model.request''
        (bound_audit_string p) d2) = Inr l2"
    "st2 = (event_made env st1)\<lparr>ss_log := ss_log st1 @ l2\<rparr>" by (rule emit_ok)
  from c3 obtain d3 l3 where e3: "audit_record (env_json env) (new_event env st2 actor ''model.response''
        ''model response received'' d3) = Inr l3"
    "st' = (event_made env st2)\<lparr>ss_log := ss_log st2 @ l3\<rparr>" by (rule emit_ok)
  let ?e1 = "new_event env st actor ''tool.call'' (bound_audit_string (req_tool_name q)) d1"
  let ?e2 = "new_event env st1 actor ''model.request'' (bound_audit_string p) d2"
  let ?e3 = "new_event env st2 actor ''model.response'' ''model response received'' d3"
  have cs: "ss_counter st1 = ss_counter st + 1" "ss_counter st2 = ss_counter st + 1 + 1"
    using e1(2) e2(2) by (simp_all add: event_made_def make_event_id_def)
  have "distinct [ss_counter st, ss_counter st1, ss_counter st2]" by (simp only: cs counters_differ)
  then have "distinct (map ae_id [?e1, ?e2, ?e3])"
    using new_event_counter unfolding list.map distinct.simps by fastforce
  moreover have "ss_log st' = ss_log st @ l1 @ l2 @ l3" using e1(2) e2(2) e3(2) by simp
  moreover have "map ae_type [?e1, ?e2, ?e3] = [''tool.call'', ''model.request'', ''model.response'']"
    "map ae_actor [?e1, ?e2, ?e3] = [actor, actor, actor]"
    by (simp_all add: new_event_def)
  ultimately show ?thesis
    using r ok compl e1(1) e2(1) e3(1)
    by (intro exI [of _ r] exI [of _ ?e1] exI [of _ ?e2] exI [of _ ?e3] exI [of _ l1] exI [of _ l2]
        exI [of _ l3] conjI)
qed

lemma model_failed_exn:
  "model_failed env path p q actor es x st = (Inl e, st') \<Longrightarrow> audit_exn (env_json env) e"
proof -
  assume "model_failed env path p q actor es x st = (Inl e, st')"
  then obtain err where "emit env path actor ''model.error'' (bound_audit_string p)
      (model_error_details (env_json env) p q err es) st = (Inl e, st')"
    by (auto simp: model_failed_def Let_def map_sum_def split: prod.splits sum.splits)
  then show ?thesis by (rule emit_exn) (rule details_exn)
qed

lemma ask_model_exn:
  "ask_model env path complete p q actor es st = (Inl e, st') \<Longrightarrow> audit_exn (env_json env) e"
  by (auto simp: ask_model_def dest: model_failed_exn split: sum.splits prod.splits)

lemma call_tool_exn: "call_tool env svc m q actor st = (Inl e, st') \<Longrightarrow> audit_exn (env_json env) e"
  unfolding call_tool_emit by (erule emit_exn) (rule details_exn)

lemma ask_with_tool_exn:
  "ask_with_tool env svc m complete p q actor st = (Inl e, st') \<Longrightarrow> audit_exn (env_json env) e"
  by (auto simp: ask_with_tool_def Let_def split: prod.splits sum.splits if_splits
      dest: call_tool_exn ask_model_exn emit_exn [OF _ details_exn(2)] emit_exn [OF _ details_exn(3)])

text \<open>
  The only exceptions that leave the session service are failures to audit: what a tool or the
  model throws, of whatever type, becomes an error response or an error result.
\<close>

theorem session_throws_only_audit_failures:
  "(case fst (call_tool env svc m q actor st) of Inl e \<Rightarrow> audit_exn (env_json env) e | Inr _ \<Rightarrow> True)
   \<and> (case fst (ask_with_tool env svc m complete p q actor st) of
        Inl e \<Rightarrow> audit_exn (env_json env) e | Inr _ \<Rightarrow> True)"
proof (intro conjI)
  show "case fst (call_tool env svc m q actor st) of Inl e \<Rightarrow> audit_exn (env_json env) e | Inr _ \<Rightarrow> True"
    by (cases "call_tool env svc m q actor st") (auto dest: call_tool_exn split: sum.splits)
  show "case fst (ask_with_tool env svc m complete p q actor st) of
      Inl e \<Rightarrow> audit_exn (env_json env) e | Inr _ \<Rightarrow> True"
    by (cases "ask_with_tool env svc m complete p q actor st")
      (auto dest: ask_with_tool_exn split: sum.splits)
qed

section \<open>A concrete session\<close>

definition sample_tool :: "unit tool" where
  "sample_tool = \<lparr>tool_name = ''disk.usage'', tool_risk = ReadOnly,
     tool_call = (\<lambda>m q. Inr (sample_response\<lparr>resp_request_id := req_id q\<rparr>))\<rparr>"

definition sample_service :: "unit session_service" where
  "sample_service = \<lparr>svc_registry = [sample_tool],
     svc_policy = policy_broker (registry_policies [sample_tool]), svc_audit_path = ''audit.jsonl''\<rparr>"

definition sample_env :: session_env where
  "sample_env = \<lparr>env_json = sample_json_lib, env_now = int,
     env_utc = (\<lambda>_. \<lparr>tm_year = 126, tm_mon = 0, tm_mday = 2, tm_hour = 3, tm_min = 4, tm_sec = 5\<rparr>),
     env_disk = (\<lambda>_. DiskOk)\<rparr>"

definition sample_state :: session_state where
  "sample_state = \<lparr>ss_log = [], ss_counter = 0, ss_made = 0\<rparr>"

lemma sample_policy:
  "svc_policy sample_service = policy_broker (registry_policies (svc_registry sample_service))"
  by (simp add: sample_service_def)

lemma sample_found: "registry_find (svc_registry sample_service) (req_tool_name sample_request) = Some sample_tool"
  by (simp add: sample_service_def registry_find_def sample_tool_def sample_request_def)

lemma sample_allowed: "pd_allowed (decide (svc_policy sample_service) sample_request)"
  unfolding sample_policy reg.broker_allows sample_found by (simp add: sample_tool_def)

lemma sample_outcome: "tool_outcome jl sample_service m sample_request = sample_response"
  by (rule outcome_Inr [OF sample_allowed sample_found])
    (simp add: sample_tool_def sample_response_def sample_request_def)

lemma sample_emit:
  "emit sample_env path actor ty summ (Inr ds) st =
     (Inr (), (event_made sample_env st)\<lparr>ss_log := ss_log st @ ''{}'' @ [newline]\<rparr>)"
  by (simp add: emit_def sample_env_def audit_append_def audit_record_def sample_json_lib_def)

lemma sample_bound_json: "bound_json (env_json sample_env) j = Inr (bound_string ''{}'' 4096)"
  by (simp add: bound_json_def sample_env_def sample_json_lib_def)

lemma sample_details:
  "\<exists>ds. tool_audit_details (env_json sample_env) q d r = Inr ds"
  "\<exists>ds. model_context_details (env_json sample_env) p q es = Inr ds"
  by (simp_all only: tool_audit_details_def model_context_details_def sample_bound_json
      bind_result_simps ex_simps) blast+

lemma sample_call:
  "\<exists>st. call_tool sample_env sample_service () sample_request ''cli'' sample_state = (Inr sample_response, st)"
proof -
  obtain ds where "tool_audit_details (env_json sample_env) sample_request
      (decide (svc_policy sample_service) sample_request) sample_response = Inr ds"
    using sample_details(1) by blast
  then show ?thesis
    unfolding call_tool_def Let_def sample_outcome by (simp only: sample_emit split: prod.splits) auto
qed

lemma every_answered_call_is_audited_witness:
  "\<exists>st details line.
     call_tool sample_env sample_service () sample_request ''cli'' sample_state = (Inr sample_response, st)
     \<and> audit_record (env_json sample_env) (new_event sample_env sample_state ''cli'' ''tool.call''
          (bound_audit_string (req_tool_name sample_request)) details) = Inr line
     \<and> ss_log st = ss_log sample_state @ line"
proof -
  obtain st where c: "call_tool sample_env sample_service () sample_request ''cli'' sample_state
      = (Inr sample_response, st)" using sample_call by blast
  from every_answered_call_is_audited [OF c] c show ?thesis by blast
qed

lemma sample_contract: "tool_contract sample_tool"
  by unfold_locales (auto simp: sample_tool_def sample_response_def)

lemma tool_response_wellformed_witness:
  "resp_request_id sample_response = req_id sample_request
   \<and> resp_evidence sample_response \<noteq> []"
  using tool_response_wellformed [OF sample_policy, of sample_response sample_json_lib "()" sample_request]
    sample_contract sample_outcome
  by (simp add: tools_keep_contract_def sample_service_def sample_response_def)

lemma unauthorised_call_reaches_no_tool_witness:
  "call_tool sample_env (sample_service\<lparr>svc_registry := []\<rparr>) () (sample_request\<lparr>req_tool_name := ''rm''\<rparr>) ''cli'' sample_state
   = call_tool sample_env sample_service () (sample_request\<lparr>req_tool_name := ''rm''\<rparr>) ''cli'' sample_state"
proof (rule unauthorised_call_reaches_no_tool [THEN conjunct1])
  show "svc_policy sample_service = policy_broker (registry_policies (svc_registry sample_service))"
    by (rule sample_policy)
  show "\<nexists>t. registry_find (svc_registry sample_service) (req_tool_name (sample_request\<lparr>req_tool_name := ''rm''\<rparr>)) = Some t
      \<and> tool_risk t = ReadOnly"
    by (simp add: sample_service_def sample_tool_def registry_find_def)
qed

text \<open>The same service with a tool whose evidence has another body.\<close>

definition other_service :: "unit session_service" where
  "other_service = sample_service\<lparr>svc_registry := [sample_tool\<lparr>tool_call := (\<lambda>m q. Inr (sample_response\<lparr>resp_evidence :=
     map (\<lambda>e. e\<lparr>ev_body := ''another secret''\<rparr>) (resp_evidence sample_response)\<rparr>))\<rparr>]\<rparr>"

lemma other_outcome: "tool_outcome jl other_service m sample_request = sample_response\<lparr>resp_evidence :=
     map (\<lambda>e. e\<lparr>ev_body := ''another secret''\<rparr>) (resp_evidence sample_response)\<rparr>"
proof (rule outcome_Inr)
  show "pd_allowed (decide (svc_policy other_service) sample_request)"
    using sample_allowed by (simp add: other_service_def)
qed ((simp_all add: other_service_def sample_tool_def registry_find_def sample_request_def)+)

lemma evidence_bodies_stay_out_of_the_log_witness:
  "ss_log (snd (ask_with_tool sample_env sample_service () (\<lambda>_. Inr ''fine'') ''why'' sample_request ''cli'' sample_state))
   = ss_log (snd (ask_with_tool sample_env other_service () (\<lambda>_. Inr ''fine'') ''why'' sample_request ''cli'' sample_state))"
proof (rule evidence_bodies_stay_out_of_the_log [THEN conjunct2])
  show "without_bodies (tool_outcome (env_json sample_env) sample_service () sample_request)
      = without_bodies (tool_outcome (env_json sample_env) other_service () sample_request)"
    by (simp add: sample_outcome other_outcome without_bodies_def)
qed (simp_all add: other_service_def)

definition silent_tool_service :: "unit session_service" where
  "silent_tool_service = sample_service\<lparr>svc_registry := [sample_tool\<lparr>tool_call := (\<lambda>m q. Inl ForeignExn)\<rparr>]\<rparr>"

lemma model_not_consulted_without_evidence_witness:
  "ask_with_tool sample_env silent_tool_service () (\<lambda>_. Inr ''fine'') ''why'' sample_request ''cli'' sample_state
   = ask_with_tool sample_env silent_tool_service () (\<lambda>_. Inl ForeignExn) ''why'' sample_request ''cli'' sample_state"
proof (rule model_not_consulted_without_evidence [THEN conjunct1])
  show "resp_status (tool_outcome (env_json sample_env) silent_tool_service () sample_request) \<noteq> Ok"
    unfolding tool_outcome_def Let_def
    using sample_allowed by (simp add: silent_tool_service_def registry_find_def sample_tool_def split: option.split)
qed

lemma sample_ask:
  "\<exists>st. ask_with_tool sample_env sample_service () (\<lambda>_. Inr ''fine'') ''why'' sample_request ''cli'' sample_state
     = (Inr \<lparr>ask_ok = True, ask_answer = ''fine'', ask_error = []\<rparr>, st)"
proof -
  obtain st1 where c: "call_tool sample_env sample_service () sample_request ''cli'' sample_state = (Inr sample_response, st1)"
    using sample_call by blast
  obtain ds where d: "model_context_details (env_json sample_env) ''why'' sample_request (resp_evidence sample_response) = Inr ds"
    using sample_details(2) by blast
  have ok: "resp_status sample_response = Ok" by (simp add: sample_response_def)
  show ?thesis
    unfolding ask_with_tool_def Let_def c using ok
    by (simp add: d sample_emit ask_model_def)
qed

lemma answered_ask_is_grounded_and_audited_witness:
  "\<exists>st l1 l2 l3. ask_with_tool sample_env sample_service () (\<lambda>_. Inr ''fine'') ''why'' sample_request ''cli'' sample_state
     = (Inr \<lparr>ask_ok = True, ask_answer = ''fine'', ask_error = []\<rparr>, st)
     \<and> ss_log st = ss_log sample_state @ l1 @ l2 @ l3"
proof -
  obtain st where a: "ask_with_tool sample_env sample_service () (\<lambda>_. Inr ''fine'') ''why'' sample_request ''cli'' sample_state
     = (Inr \<lparr>ask_ok = True, ask_answer = ''fine'', ask_error = []\<rparr>, st)" using sample_ask by blast
  have "ask_ok \<lparr>ask_ok = True, ask_answer = ''fine'', ask_error = []\<rparr>" by simp
  from answered_ask_is_grounded_and_audited [OF a this] a show ?thesis by blast
qed

end
