(* ===== verification/Line_Protocol.thy ===== *)
theory Line_Protocol
  imports Core_Types
begin

text \<open>
  \<open>src/ipc/line_protocol.cpp\<close>: the JSON values of the requests the client sends and of the
  responses the daemon sends. Each pair of a writer here and the fields its reader takes out is
  shown to fit together.
\<close>

definition make_tools_list_request :: "string \<Rightarrow> json" where
  "make_tools_list_request request_id =
     json_object [(''id'', JString request_id), (''method'', JString ''tools.list'')]"

definition make_tool_call_request :: "string \<Rightarrow> tool_request \<Rightarrow> json" where
  "make_tool_call_request request_id q =
     json_object [(''id'', JString request_id), (''method'', JString ''tool.call''),
       (''tool'', request_to_json q)]"

definition make_ask_request :: "string \<Rightarrow> string \<Rightarrow> tool_request \<Rightarrow> json" where
  "make_ask_request request_id prompt q =
     json_object [(''id'', JString request_id), (''method'', JString ''ask''),
       (''prompt'', JString prompt), (''tool'', request_to_json q)]"

definition make_tool_call_response :: "string \<Rightarrow> tool_response \<Rightarrow> json" where
  "make_tool_call_response request_id r =
     json_object [(''id'', JString request_id), (''ok'', JBool (resp_status r = Ok)),
       (''response'', response_to_json r)]"

text \<open>\<open>response["key"] = value\<close> on an object.\<close>

fun json_assign :: "string \<Rightarrow> json \<Rightarrow> json \<Rightarrow> json" where
  "json_assign k v (JObject m) = JObject (smap_assign k v m)"
| "json_assign k v j = j"

definition make_ask_response :: "string \<Rightarrow> bool \<Rightarrow> string \<Rightarrow> string \<Rightarrow> json" where
  "make_ask_response request_id okay answer err =
     (let response = json_object [(''id'', JString request_id), (''ok'', JBool okay)]
      in if okay then json_assign ''answer'' (JString answer) response
         else json_assign ''error'' (JString err) response)"

definition make_error_response :: "string \<Rightarrow> string \<Rightarrow> json" where
  "make_error_response request_id message =
     json_object [(''id'', JString request_id), (''ok'', JBool False), (''error'', JString message)]"

lemma json_at_assign [simp, result_simps]:
  "json_at k (json_assign k' v (JObject m)) =
     (if k = k' then Inr v else json_at k (JObject m))"
  by (simp add: smap_find_assign)

lemma json_field_ask_response [result_simps]:
  "json_field ''id'' (make_ask_response i okay a e) = Inr i"
  "json_at ''ok'' (make_ask_response i okay a e) = Inr (JBool okay)"
  "json_field ''answer'' (make_ask_response i True a e) = Inr a"
  "json_field ''error'' (make_ask_response i False a e) = Inr e"
  by (simp_all add: make_ask_response_def json_object_def json_field_def smap_find_assign smap_find_of Let_def)

lemma json_field_error_response [result_simps]:
  "json_field ''id'' (make_error_response i msg) = Inr i"
  "json_at ''ok'' (make_error_response i msg) = Inr (JBool False)"
  "json_field ''error'' (make_error_response i msg) = Inr msg"
  by (simp_all add: make_error_response_def)

lemma json_field_tool_call_response [result_simps]:
  "json_field ''id'' (make_tool_call_response i r) = Inr i"
  "json_at ''ok'' (make_tool_call_response i r) = Inr (JBool (resp_status r = Ok))"
  "bind_result (json_at ''response'' (make_tool_call_response i r)) response_from_json = Inr r"
  by (simp_all add: make_tool_call_response_def response.from_to)

end
