(* ===== verification/Unix_Socket.thy ===== *)
theory Unix_Socket
  imports Kasli_Prelude
begin

text \<open>
  \<open>src/ipc/unix_socket.cpp\<close> (its Linux branches): newline framing over a stream socket, the
  server's constructor with its clean-up, one accepted connection, and the client's exchange.
  What the kernel answers to each call is an argument: a list of outcomes for the calls a loop
  repeats, a single outcome for the others. A list that runs out stands for a call that has not
  returned yet, and the loop's result is then \<open>None\<close>.
\<close>

section \<open>System calls\<close>

type_synonym errno = int

definition EINTR :: errno where "EINTR = 4"
definition EAGAIN :: errno where "EAGAIN = 11"
definition ECONNRESET :: errno where "ECONNRESET = 104"
definition ECONNREFUSED :: errno where "ECONNREFUSED = 111"
definition ENOENT :: errno where "ENOENT = 2"
definition ENOTSOCK :: errno where "ENOTSOCK = 88"
definition EPROTOTYPE :: errno where "EPROTOTYPE = 91"

lemmas errno_defs = EINTR_def EAGAIN_def ECONNRESET_def ECONNREFUSED_def ENOENT_def ENOTSOCK_def EPROTOTYPE_def

definition syscall_error :: "(errno \<Rightarrow> string) \<Rightarrow> string \<Rightarrow> errno \<Rightarrow> exn" where
  "syscall_error strerror operation e = RuntimeError (operation @ '' failed: '' @ strerror e)"

text \<open>A call that only succeeds (\<open>None\<close>) or fails with an error number.\<close>

definition check_call :: "(errno \<Rightarrow> string) \<Rightarrow> string \<Rightarrow> errno option \<Rightarrow> unit result" where
  "check_call strerror operation outcome =
     (case outcome of None \<Rightarrow> Inr () | Some e \<Rightarrow> Inl (syscall_error strerror operation e))"

definition is_stale_socket_connect_error :: "errno \<Rightarrow> bool" where
  "is_stale_socket_connect_error e \<longleftrightarrow>
     e = ECONNREFUSED \<or> e = ENOENT \<or> e = ENOTSOCK \<or> e = EPROTOTYPE"

definition make_address :: "string \<Rightarrow> string result" where
  "make_address path =
     (if 108 \<le> length path then Inl (RuntimeError (''unix socket path is too long: '' @ path))
      else Inr (takeWhile (\<lambda>c. c \<noteq> CHR 0x00) path))"

section \<open>Framing\<close>

text \<open>
  \<open>close_fd\<close>, which the destructor of \<open>FileDescriptor\<close> calls: the number of calls of \<open>close\<close> it makes, given
  their errors; \<open>None\<close> while one of them has not returned.
\<close>

fun close_fd :: "int \<Rightarrow> errno option list \<Rightarrow> nat option" where
  "close_fd fd outs =
     (if fd < 0 then Some 0
      else case outs of
             [] \<Rightarrow> None
           | Some e # rest \<Rightarrow> if e = EINTR then map_option Suc (close_fd fd rest) else Some 1
           | None # rest \<Rightarrow> Some 1)"

declare close_fd.simps [simp del]

definition max_line :: nat where
  "max_line = 1024 * 1024"

datatype send_outcome = Sent nat | SendError errno

text \<open>
  \<open>write_all\<close>: the bytes handed to the kernel so far are returned with the result, the
  unused outcomes as well.
\<close>

fun write_all :: "(errno \<Rightarrow> string) \<Rightarrow> send_outcome list \<Rightarrow> string \<Rightarrow> unit result option \<times> string" where
  "write_all se outs [] = (Some (Inr ()), [])"
| "write_all se [] (c # cs) = (None, [])"
| "write_all se (SendError e # outs) (c # cs) =
     (if e = EINTR then write_all se outs (c # cs)
      else (Some (Inl (syscall_error se ''write'' e)), []))"
| "write_all se (Sent n # outs) (c # cs) =
     (if n = 0 then (Some (Inl (RuntimeError ''write failed: wrote zero bytes'')), [])
      else let (res, rest) = write_all se outs (drop n (c # cs)) in (res, take n (c # cs) @ rest))"

definition write_line :: "(errno \<Rightarrow> string) \<Rightarrow> send_outcome list \<Rightarrow> string \<Rightarrow> unit result option \<times> string" where
  "write_line se outs payload =
     (if max_line < length payload
      then (Some (Inl (RuntimeError ''unix socket line is too large'')), [])
      else if find_char newline payload \<noteq> None
      then (Some (Inl (RuntimeError ''unix socket line payload must not contain a newline'')), [])
      else write_all se outs (payload @ [newline]))"

datatype read_outcome = ReadBytes string | ReadError errno

text \<open>
  The loop over one buffer: what is read up to the newline (\<open>Inr (Inr line)\<close>), the data so
  far if there is none (\<open>Inr (Inl data)\<close>), or the exception for a line that is too long.
\<close>

fun scan_buffer :: "string \<Rightarrow> string \<Rightarrow> string \<Rightarrow> (string + string) result" where
  "scan_buffer role collected [] = Inr (Inl collected)"
| "scan_buffer role collected (c # cs) =
     (if c = newline then Inr (Inr collected)
      else if max_line \<le> length collected
      then Inl (RuntimeError (''unix socket '' @ role @ '' line is too large''))
      else scan_buffer role (collected @ [c]) cs)"

fun read_loop ::
  "(errno \<Rightarrow> string) \<Rightarrow> string \<Rightarrow> read_outcome list \<Rightarrow> string \<Rightarrow> string result option" where
  "read_loop se role [] collected = None"
| "read_loop se role (ReadError e # outs) collected =
     (if e = EINTR then read_loop se role outs collected
      else if e = ECONNRESET
      then Some (Inl (RuntimeError (''unix socket '' @ role @ '' is missing newline framing'')))
      else Some (Inl (syscall_error se ''read'' e)))"
| "read_loop se role (ReadBytes buffer # outs) collected =
     (if buffer = []
      then Some (Inl (RuntimeError (''unix socket '' @ role @ '' is missing newline framing'')))
      else case scan_buffer role collected buffer of
             Inl e \<Rightarrow> Some (Inl e)
           | Inr (Inr line) \<Rightarrow> Some (Inr line)
           | Inr (Inl d) \<Rightarrow> read_loop se role outs d)"

definition read_line :: "(errno \<Rightarrow> string) \<Rightarrow> string \<Rightarrow> read_outcome list \<Rightarrow> string result option" where
  "read_line se role outs = read_loop se role outs []"

section \<open>The server socket\<close>

text \<open>
  What the constructor's calls meet: each field is the failure of one call, \<open>None\<close> where it
  succeeds. The world is the number of open descriptors and whether the path exists.
\<close>

record server_os =
  os_mkdir :: "exn option"
  os_exists :: "exn option"
  os_probe :: "errno option"
  os_connect :: "errno option"
  os_unlink :: "exn option"
  os_socket :: "errno option"
  os_bind :: "errno option"
  os_chmod :: "errno option"
  os_listen :: "errno option"

record sock_world =
  sw_open_fds :: nat
  sw_path_exists :: bool

definition throw_if :: "exn option \<Rightarrow> unit result" where
  "throw_if failure = (case failure of None \<Rightarrow> Inr () | Some e \<Rightarrow> Inl e)"

definition remove_path :: "server_os \<Rightarrow> sock_world \<Rightarrow> unit result \<times> sock_world" where
  "remove_path os w =
     (case os_unlink os of
        None \<Rightarrow> (Inr (), w\<lparr>sw_path_exists := False\<rparr>)
      | Some e \<Rightarrow> (Inl e, w))"

definition reject_active_socket_or_remove_stale ::
  "(errno \<Rightarrow> string) \<Rightarrow> server_os \<Rightarrow> string \<Rightarrow> sock_world \<Rightarrow> unit result \<times> sock_world" where
  "reject_active_socket_or_remove_stale se os path w =
     (case os_exists os of
        Some e \<Rightarrow> (Inl e, w)
      | None \<Rightarrow>
          if \<not> sw_path_exists w then (Inr (), w)
          else case os_probe os of
                 Some e \<Rightarrow> (Inl (syscall_error se ''socket'' e), w)
               | None \<Rightarrow>
                   (case make_address path of
                      Inl e \<Rightarrow> (Inl e, w)
                    | Inr address \<Rightarrow>
                        (case os_connect os of
                           None \<Rightarrow> (Inl (RuntimeError (''socket path is already in use: '' @ path)), w)
                         | Some e \<Rightarrow>
                             if \<not> is_stale_socket_connect_error e
                             then (Inl (RuntimeError
                                    (''socket path probe failed: '' @ path @ '': '' @ se e)), w)
                             else remove_path os w)))"

definition restrict_socket_path :: "(errno \<Rightarrow> string) \<Rightarrow> server_os \<Rightarrow> unit result" where
  "restrict_socket_path se os = check_call se ''chmod'' (os_chmod os)"

text \<open>The \<open>try\<close> block: the exception if one is thrown, and whether the path is owned by then.\<close>

definition bind_and_listen :: "(errno \<Rightarrow> string) \<Rightarrow> server_os \<Rightarrow> string \<Rightarrow> unit result \<times> bool" where
  "bind_and_listen se os path =
     (case make_address path of
        Inl e \<Rightarrow> (Inl e, False)
      | Inr address \<Rightarrow>
          (case check_call se ''bind'' (os_bind os) of
             Inl e \<Rightarrow> (Inl e, False)
           | Inr _ \<Rightarrow>
               (bind_result (restrict_socket_path se os) (\<lambda>_.
                  check_call se ''listen'' (os_listen os)), True)))"

definition server_new ::
  "(errno \<Rightarrow> string) \<Rightarrow> server_os \<Rightarrow> string \<Rightarrow> sock_world \<Rightarrow> unit result \<times> sock_world" where
  "server_new se os path w =
     (case (if CHR ''/'' \<in> set path then throw_if (os_mkdir os) else Inr ()) of
        Inl e \<Rightarrow> (Inl e, w)
      | Inr _ \<Rightarrow>
          (case reject_active_socket_or_remove_stale se os path w of
             (Inl e, w1) \<Rightarrow> (Inl e, w1)
           | (Inr _, w1) \<Rightarrow>
               (case os_socket os of
                  Some e \<Rightarrow> (Inl (syscall_error se ''socket'' e), w1)
                | None \<Rightarrow>
                    (case bind_and_listen se os path of
                       (Inr _, owned) \<Rightarrow>
                         (Inr (), w1\<lparr>sw_open_fds := Suc (sw_open_fds w1), sw_path_exists := True\<rparr>)
                     | (Inl e, owned) \<Rightarrow>
                         if owned
                         then case remove_path os (w1\<lparr>sw_path_exists := True\<rparr>) of
                                (Inl e', w2) \<Rightarrow> (Inl e', w2)
                              | (Inr _, w2) \<Rightarrow> (Inl e, w2)
                         else (Inl e, w1)))))"

definition server_delete :: "server_os \<Rightarrow> sock_world \<Rightarrow> sock_world" where
  "server_delete os w = snd (remove_path os (w\<lparr>sw_open_fds := sw_open_fds w - 1\<rparr>))"

section \<open>One connection\<close>

text \<open>
  \<open>ucred\<close> of the peer as \<open>getsockopt\<close> delivers it: whether the structure is complete, and
  the user id.
\<close>

record connection =
  cn_accept :: "errno option list"
  cn_rcvtimeo :: "errno option"
  cn_sndtimeo :: "errno option"
  cn_peer :: "errno + bool \<times> nat"
  cn_reads :: "read_outcome list"
  cn_sends :: "send_outcome list"

fun accept_loop :: "(errno \<Rightarrow> string) \<Rightarrow> errno option list \<Rightarrow> unit result option" where
  "accept_loop se [] = None"
| "accept_loop se (None # outs) = Some (Inr ())"
| "accept_loop se (Some e # outs) =
     (if e = EINTR \<or> e = EAGAIN then accept_loop se outs
      else Some (Inl (syscall_error se ''accept'' e)))"

definition set_socket_timeouts :: "(errno \<Rightarrow> string) \<Rightarrow> connection \<Rightarrow> unit result" where
  "set_socket_timeouts se cn =
     bind_result (check_call se ''setsockopt SO_RCVTIMEO'' (cn_rcvtimeo cn)) (\<lambda>_.
       check_call se ''setsockopt SO_SNDTIMEO'' (cn_sndtimeo cn))"

text \<open>Linux has no \<open>SO_NOSIGPIPE\<close>; \<open>send\<close> is called with \<open>MSG_NOSIGNAL\<close> there instead.\<close>

definition suppress_sigpipe :: "connection \<Rightarrow> unit result" where
  "suppress_sigpipe cn = Inr ()"

definition prepare_connected_socket :: "(errno \<Rightarrow> string) \<Rightarrow> connection \<Rightarrow> unit result" where
  "prepare_connected_socket se cn = bind_result (set_socket_timeouts se cn) (\<lambda>_. suppress_sigpipe cn)"

definition validate_same_uid_peer :: "(errno \<Rightarrow> string) \<Rightarrow> nat \<Rightarrow> connection \<Rightarrow> unit result" where
  "validate_same_uid_peer se euid cn =
     (case cn_peer cn of
        Inl e \<Rightarrow> Inl (syscall_error se ''getsockopt SO_PEERCRED'' e)
      | Inr (complete, uid) \<Rightarrow>
          if \<not> complete \<or> uid \<noteq> euid
          then Inl (RuntimeError ''unix socket peer uid is not allowed'') else Inr ())"

lemmas prepare_defs = prepare_connected_socket_def set_socket_timeouts_def suppress_sigpipe_def check_call_def

text \<open>
  \<open>accept_one\<close> with a handler that works on a state: the result (\<open>None\<close> while a system call
  has not returned), the bytes sent back and the state.
\<close>

definition accept_one ::
  "(errno \<Rightarrow> string) \<Rightarrow> nat \<Rightarrow> connection \<Rightarrow> (string \<Rightarrow> 's \<Rightarrow> string result \<times> 's) \<Rightarrow> 's
   \<Rightarrow> unit result option \<times> string \<times> 's" where
  "accept_one se euid cn handler s =
     (case accept_loop se (cn_accept cn) of
        None \<Rightarrow> (None, [], s)
      | Some (Inl e) \<Rightarrow> (Some (Inl e), [], s)
      | Some (Inr _) \<Rightarrow>
          (case bind_result (prepare_connected_socket se cn) (\<lambda>_. validate_same_uid_peer se euid cn) of
             Inl e \<Rightarrow> (Some (Inl e), [], s)
           | Inr _ \<Rightarrow>
               (case read_line se ''request'' (cn_reads cn) of
                  None \<Rightarrow> (None, [], s)
                | Some (Inl e) \<Rightarrow> (Some (Inl e), [], s)
                | Some (Inr request) \<Rightarrow>
                    (case handler request s of
                       (Inl e, s') \<Rightarrow> (Some (Inl e), [], s')
                     | (Inr response, s') \<Rightarrow>
                         (let (res, sent) = write_line se (cn_sends cn) response
                          in (res, sent, s'))))))"

definition connect_error :: "(errno \<Rightarrow> string) \<Rightarrow> errno \<Rightarrow> exn" where
  "connect_error se e = ConnectExn e (''connect failed: '' @ se e)"

text \<open>\<open>request_over_unix_socket\<close>: the result and the bytes sent.\<close>

definition request_over_unix_socket ::
  "(errno \<Rightarrow> string) \<Rightarrow> errno option \<Rightarrow> errno option \<Rightarrow> connection \<Rightarrow> string \<Rightarrow> string
   \<Rightarrow> string result option \<times> string" where
  "request_over_unix_socket se sock conn cn path request =
     (case bind_result (check_call se ''socket'' sock) (\<lambda>_.
           bind_result (prepare_connected_socket se cn) (\<lambda>_. make_address path)) of
        Inl e \<Rightarrow> (Some (Inl e), [])
      | Inr address \<Rightarrow>
          (case conn of
             Some e \<Rightarrow> (Some (Inl (connect_error se e)), [])
           | None \<Rightarrow>
               (case write_line se (cn_sends cn) request of
                  (None, sent) \<Rightarrow> (None, sent)
                | (Some (Inl e), sent) \<Rightarrow> (Some (Inl e), sent)
                | (Some (Inr _), sent) \<Rightarrow> (read_line se ''response'' (cn_reads cn), sent))))"

section \<open>The channel\<close>

text \<open>
  The outcomes of a reader that is sent the bytes \<open>b\<close>: chunks of any size, with interrupted
  calls in between.
\<close>

fun delivers :: "read_outcome list \<Rightarrow> string \<Rightarrow> bool" where
  "delivers [] b \<longleftrightarrow> b = []"
| "delivers (ReadError e # outs) b \<longleftrightarrow> e = EINTR \<and> delivers outs b"
| "delivers (ReadBytes buffer # outs) b \<longleftrightarrow>
     buffer \<noteq> [] \<and> prefix buffer b \<and> delivers outs (drop (length buffer) b)"

locale line_channel =
  fixes send :: "'o \<Rightarrow> string \<Rightarrow> unit result option \<times> string"
    and receive :: "'i \<Rightarrow> string result option"
    and transports :: "'i \<Rightarrow> string \<Rightarrow> bool"
    and payload_ok :: "string \<Rightarrow> bool"
  assumes sends_prefix: "prefix (snd (send out x)) (x @ [newline])"
    and sends_frame: "send out x = (Some (Inr ()), b) \<Longrightarrow> b = x @ [newline] \<and> payload_ok x"
    and refuses: "\<not> payload_ok x \<Longrightarrow> \<exists>e. send out x = (Some (Inl e), [])"
    and receives_frame: "payload_ok x \<Longrightarrow> transports inp (x @ [newline]) \<Longrightarrow> receive inp = Some (Inr x)"
    and receives_ok: "receive inp = Some (Inr x) \<Longrightarrow> payload_ok x"
begin

lemma transfer: "send out x = (Some (Inr ()), b) \<Longrightarrow> transports inp b \<Longrightarrow> receive inp = Some (Inr x)"
  using sends_frame receives_frame by blast

lemma transfer_inject:
  "send out x = (Some (Inr ()), b) \<Longrightarrow> send out' y = (Some (Inr ()), b) \<Longrightarrow> x = y"
  by (drule sends_frame, drule sends_frame) simp

end

lemma write_all_prefix: "prefix (snd (write_all se outs d)) d"
proof (induction se outs d rule: write_all.induct)
  case (4 se n outs c cs)
  obtain r rest where w: "write_all se outs (drop n (c # cs)) = (r, rest)" by force
  show ?case
  proof (cases "n = 0")
    case False
    with 4 w have "prefix rest (drop n (c # cs))" by simp
    then have "prefix (take n (c # cs) @ rest) (take n (c # cs) @ drop n (c # cs))"
      by (simp only: same_prefix_prefix)
    with False w show ?thesis by simp
  qed simp
qed simp_all

lemma write_all_ok: "write_all se outs d = (Some (Inr ()), b) \<Longrightarrow> b = d"
proof (induction se outs d arbitrary: b rule: write_all.induct)
  case (4 se n outs c cs)
  obtain r rest where w: "write_all se outs (drop n (c # cs)) = (r, rest)" by force
  show ?case
  proof (cases "n = 0")
    case False
    with 4 w have "rest = drop n (c # cs)" by simp
    with 4 w False show ?thesis by simp
  qed (use 4 in simp)
qed (simp_all split: if_splits)

definition line_payload :: "string \<Rightarrow> bool" where
  "line_payload x \<longleftrightarrow> length x \<le> max_line \<and> newline \<notin> set x"

lemma scan_buffer_open:
  "newline \<notin> set buf \<Longrightarrow> length coll + length buf \<le> max_line \<Longrightarrow>
     scan_buffer role coll buf = Inr (Inl (coll @ buf))"
  by (induction buf arbitrary: coll) auto

lemma scan_buffer_close:
  "newline \<notin> set u \<Longrightarrow> length coll + length u \<le> max_line \<Longrightarrow>
     scan_buffer role coll (u @ newline # v) = Inr (Inr (coll @ u))"
  by (induction u arbitrary: coll) auto

lemma scan_buffer_bounds:
  "newline \<notin> set coll \<Longrightarrow> length coll \<le> max_line \<Longrightarrow> scan_buffer role coll buf = Inr r \<Longrightarrow>
     line_payload (case r of Inl d \<Rightarrow> d | Inr d \<Rightarrow> d)"
proof (induction buf arbitrary: coll)
  case (Cons c buf)
  show ?case
  proof (cases "c = newline \<or> max_line \<le> length coll")
    case True
    with Cons.prems show ?thesis by (auto simp: line_payload_def split: if_splits)
  next
    case False
    with Cons.prems show ?thesis by (intro Cons.IH [of "coll @ [c]"]) auto
  qed
qed (auto simp: line_payload_def)

lemma read_loop_delivers:
  "delivers outs (u @ [newline]) \<Longrightarrow> line_payload (coll @ u) \<Longrightarrow>
     read_loop se role outs coll = Some (Inr (coll @ u))"
proof (induction outs arbitrary: u coll)
  case (Cons out outs)
  show ?case
  proof (cases out)
    case (ReadError e)
    with Cons show ?thesis by simp
  next
    case (ReadBytes buf)
    with Cons.prems have buf: "buf \<noteq> []" "prefix buf (u @ [newline])"
      and rest: "delivers outs (drop (length buf) (u @ [newline]))" by auto
    from buf(2) consider "buf = u @ [newline]" | "prefix buf u" by (auto simp: prefix_snoc)
    then show ?thesis
    proof cases
      case 1
      with Cons.prems(2) ReadBytes show ?thesis
        by (simp add: scan_buffer_close [of u _ role "[]", simplified] line_payload_def)
    next
      case 2
      then obtain u' where u: "u = buf @ u'" by (auto simp: prefix_def)
      with rest have "delivers outs (u' @ [newline])" by simp
      moreover have "line_payload ((coll @ buf) @ u')" using Cons.prems(2) u by simp
      ultimately have "read_loop se role outs (coll @ buf) = Some (Inr ((coll @ buf) @ u'))"
        by (rule Cons.IH)
      moreover have "scan_buffer role coll buf = Inr (Inl (coll @ buf))"
        using Cons.prems(2) u by (intro scan_buffer_open) (auto simp: line_payload_def)
      ultimately show ?thesis using ReadBytes buf(1) u by simp
    qed
  qed
qed simp

lemma read_loop_ok:
  "line_payload coll \<Longrightarrow> read_loop se role outs coll = Some (Inr x) \<Longrightarrow> line_payload x"
proof (induction outs arbitrary: coll)
  case (Cons out outs)
  show ?case
  proof (cases out)
    case (ReadError e)
    with Cons show ?thesis by (auto split: if_splits)
  next
    case (ReadBytes buf)
    with Cons show ?thesis
      using scan_buffer_bounds [of coll role buf]
      by (fastforce simp: line_payload_def split: if_splits sum.splits)
  qed
qed simp

interpretation socket: line_channel "write_line se" "read_line se role" delivers line_payload
proof
  show "prefix (snd (write_line se out x)) (x @ [newline])" for out x
    using write_all_prefix [of se out "x @ [newline]"] by (simp add: write_line_def)
  show "b = x @ [newline] \<and> line_payload x" if "write_line se out x = (Some (Inr ()), b)" for out x b
    using that write_all_ok [of se out "x @ [newline]"]
    by (auto simp: write_line_def line_payload_def split: if_splits)
  show "\<exists>e. write_line se out x = (Some (Inl e), [])" if "\<not> line_payload x" for out x
    using that by (auto simp: write_line_def line_payload_def not_le)
  show "read_line se role inp = Some (Inr x)"
    if "line_payload x" "delivers inp (x @ [newline])" for inp x
    using read_loop_delivers [of inp x "[]"] that by (simp add: read_line_def)
  show "line_payload x" if "read_line se role inp = Some (Inr x)" for inp x
    using read_loop_ok [of "[]"] that by (simp add: read_line_def line_payload_def)
qed

section \<open>Properties\<close>

lemma exchange_transfers:
  assumes "accept_loop se (cn_accept srv) = Some (Inr ())"
    and "bind_result (prepare_connected_socket se srv) (\<lambda>_. validate_same_uid_peer se euid srv) = Inr ()"
    and "accept_one se euid srv handler s = (Some (Inr ()), bytes_back, s')"
    and "request_over_unix_socket se None None cl path request = (answer, bytes_out)"
    and "make_address path = Inr address" "prepare_connected_socket se cl = Inr ()"
    and "write_line se (cn_sends cl) request = (Some (Inr ()), bytes_out)"
    and "delivers (cn_reads srv) bytes_out" "delivers (cn_reads cl) bytes_back"
  obtains response where "handler request s = (Inr response, s')" "answer = Some (Inr response)"
proof -
  have req: "read_line se ''request'' (cn_reads srv) = Some (Inr request)"
    by (rule socket.transfer [OF assms(7,8)])
  with assms(1,2,3) obtain response where h: "handler request s = (Inr response, s')"
    and w: "write_line se (cn_sends srv) response = (Some (Inr ()), bytes_back)"
    by (auto simp: accept_one_def split: prod.splits sum.splits)
  have "read_line se ''response'' (cn_reads cl) = Some (Inr response)"
    by (rule socket.transfer [OF w assms(9)])
  with assms(4,5,6,7) have "answer = Some (Inr response)"
    by (simp add: request_over_unix_socket_def check_call_def)
  with h that show thesis by blast
qed

text \<open>A line the handler answers is exchanged, and the client gets the answer.\<close>

lemma line_is_exchanged:
  assumes "make_address path = Inr address" "prepare_connected_socket se cl = Inr ()"
      "write_line se (cn_sends cl) l = (Some (Inr ()), bytes_out)" "delivers (cn_reads cl) bytes_back"
    and "accept_loop se (cn_accept srv) = Some (Inr ())"
      "bind_result (prepare_connected_socket se srv) (\<lambda>_. validate_same_uid_peer se euid srv) = Inr ()"
      "delivers (cn_reads srv) bytes_out"
      "accept_one se euid srv handler st = (Some (Inr ()), bytes_back, st')"
    and "handler l st = (Inr reply, st1)"
  shows "fst (request_over_unix_socket se None None cl path l) = Some (Inr reply)" "st' = st1"
proof -
  obtain answer out where a: "request_over_unix_socket se None None cl path l = (answer, out)" by force
  have out: "out = bytes_out"
    using a assms(1-3) by (simp add: request_over_unix_socket_def check_call_def split: option.splits sum.splits)
  obtain response where "handler l st = (Inr response, st')" "answer = Some (Inr response)"
    by (rule exchange_transfers [OF assms(5,6,8) a [unfolded out] assms(1-3,7,4)])
  with assms(9) a show "fst (request_over_unix_socket se None None cl path l) = Some (Inr reply)" "st' = st1"
    by simp_all
qed

text \<open>
  C18: One exchange over the socket is transparent: however the kernel splits the bytes of the
  request and of the response into partial sends, chunks and interrupted calls, the handler is
  called with exactly the client's request, and the client gets exactly the handler's response.
\<close>

theorem exchange_is_transparent:
  assumes "accept_loop se (cn_accept srv) = Some (Inr ())"
    and "bind_result (prepare_connected_socket se srv) (\<lambda>_. validate_same_uid_peer se euid srv) = Inr ()"
    and "accept_one se euid srv handler s = (Some (Inr ()), bytes_back, s')"
    and "request_over_unix_socket se None None cl path request = (answer, bytes_out)"
    and "make_address path = Inr address" "prepare_connected_socket se cl = Inr ()"
    and "write_line se (cn_sends cl) request = (Some (Inr ()), bytes_out)"
    and "delivers (cn_reads srv) bytes_out" "delivers (cn_reads cl) bytes_back"
  shows "\<exists>response. handler request s = (Inr response, s') \<and> answer = Some (Inr response)"
  by (rule exchange_transfers [OF assms]) blast

text \<open>A connection of the same user whose bytes arrive in two chunks with an interrupted call between.\<close>

definition sample_server_side :: connection where
  "sample_server_side = \<lparr>cn_accept = [Some EINTR, None], cn_rcvtimeo = None, cn_sndtimeo = None,
     cn_peer = Inr (True, 1000), cn_reads = [ReadBytes ''pi'', ReadError EINTR, ReadBytes (''ng'' @ [newline])],
     cn_sends = [Sent 3, Sent 2]\<rparr>"

definition sample_client_side :: connection where
  "sample_client_side = \<lparr>cn_accept = [], cn_rcvtimeo = None, cn_sndtimeo = None, cn_peer = Inr (True, 1000),
     cn_reads = [ReadBytes ''p'', ReadBytes (''ong'' @ [newline])], cn_sends = [Sent 1, SendError EINTR, Sent 4]\<rparr>"

definition sample_handler :: "string \<Rightarrow> nat \<Rightarrow> string result \<times> nat" where
  "sample_handler request n = (if request = ''ping'' then (Inr ''pong'', Suc n) else (Inr request, n))"

lemmas sample_socket_defs = sample_server_side_def sample_client_side_def sample_handler_def
  prepare_defs validate_same_uid_peer_def make_address_def write_line_def
  max_line_def errno_defs

lemma exchange_is_transparent_witness:
  "\<exists>answer response. request_over_unix_socket (\<lambda>_. []) None None sample_client_side ''/run/k.sock'' ''ping''
       = (answer, ''ping'' @ [newline])
     \<and> sample_handler ''ping'' 0 = (Inr response, 1) \<and> answer = Some (Inr response)"
proof -
  obtain answer where a: "request_over_unix_socket (\<lambda>_. []) None None sample_client_side ''/run/k.sock'' ''ping''
       = (answer, ''ping'' @ [newline])"
    by (simp add: sample_socket_defs request_over_unix_socket_def read_line_def)
  have "\<exists>response. sample_handler ''ping'' 0 = (Inr response, 1) \<and> answer = Some (Inr response)"
    by (rule exchange_is_transparent [where srv = sample_server_side and euid = 1000
          and se = "\<lambda>_. []" and bytes_back = "''pong'' @ [newline]", OF _ _ _ a])
      (simp_all add: sample_socket_defs accept_one_def read_line_def)
  with a show ?thesis by blast
qed

text \<open>
  The framing is exact on both sides. A line is sent in full with its newline or an error is
  returned after a prefix of it; a payload that contains a newline or is longer than 1 MiB is refused
  before a byte is sent; a reader never returns a line with a newline in it or longer than 1 MiB,
  and never collects more than that.
\<close>

theorem line_framing_is_exact:
  "(case write_line se outs x of
      (Some (Inr _), b) \<Rightarrow> b = x @ [newline] \<and> line_payload x
    | (Some (Inl _), b) \<Rightarrow> prefix b (x @ [newline]) \<and> (b = [] \<or> line_payload x)
    | (None, b) \<Rightarrow> prefix b (x @ [newline]) \<and> line_payload x)
   \<and> (case read_line se role inp of Some (Inr y) \<Rightarrow> line_payload y | _ \<Rightarrow> True)"
proof -
  obtain res b where w: "write_line se outs x = (res, b)" by force
  have pre: "prefix b (x @ [newline])" using socket.sends_prefix [of se outs x] w by simp
  have "line_payload x \<or> (\<exists>e. res = Some (Inl e)) \<and> b = []"
    using socket.refuses [of x se outs] w by auto
  moreover have "b = x @ [newline] \<and> line_payload x" if "res = Some (Inr ())"
    using socket.sends_frame w that by blast
  moreover have "case read_line se role inp of Some (Inr y) \<Rightarrow> line_payload y | _ \<Rightarrow> True"
    using socket.receives_ok [of se role inp] by (auto split: option.splits sum.splits)
  ultimately show ?thesis
    using w pre by (auto split: option.splits sum.splits)
qed

text \<open>
  C23: A connection whose peer credentials are incomplete or belong to another user is closed before
  a byte is read from it or sent to it: the handler is not called, whatever the handler is and whatever
  the peer sends, and the state stays as it was.
\<close>

theorem foreign_peer_is_never_served:
  assumes "cn_peer cn = Inr (complete, uid)" "\<not> complete \<or> uid \<noteq> euid"
  shows "accept_one se euid (cn\<lparr>cn_reads := other\<rparr>) other_handler s = accept_one se euid cn handler s
     \<and> (\<forall>res sent s'. accept_one se euid cn handler s = (res, sent, s') \<longrightarrow>
          sent = [] \<and> s' = s \<and> res \<noteq> Some (Inr ()))"
proof -
  have v: "validate_same_uid_peer se euid cn' = Inl (RuntimeError ''unix socket peer uid is not allowed'')"
    if "cn_peer cn' = cn_peer cn" for cn'
    using assms that by (auto simp: validate_same_uid_peer_def)
  have "bind_result (prepare_connected_socket se cn) (\<lambda>_. validate_same_uid_peer se euid cn) =
      bind_result (prepare_connected_socket se (cn\<lparr>cn_reads := other\<rparr>))
        (\<lambda>_. validate_same_uid_peer se euid (cn\<lparr>cn_reads := other\<rparr>))"
    by (simp add: v prepare_defs)
  moreover obtain e where "bind_result (prepare_connected_socket se cn) (\<lambda>_. validate_same_uid_peer se euid cn) = Inl e"
    using v [of cn] by (cases "prepare_connected_socket se cn") auto
  ultimately show ?thesis
    by (auto simp: accept_one_def split: option.splits sum.splits)
qed

lemma foreign_peer_is_never_served_witness:
  "accept_one (\<lambda>_. []) 0 (sample_server_side\<lparr>cn_reads := []\<rparr>) (\<lambda>r n. (Inr r, n)) (0 :: nat)
     = accept_one (\<lambda>_. []) 0 sample_server_side sample_handler 0"
  by (rule foreign_peer_is_never_served [where complete = True and uid = 1000, THEN conjunct1])
    (simp_all add: sample_server_side_def)

lemma server_new_cases:
  assumes "server_new se os path w = (res, w')"
    and j: "reject_active_socket_or_remove_stale se os path w = (r1, w1)"
  shows "(\<exists>e. res = Inl e \<and> w' \<in> {w, w1})
     \<or> r1 = Inr () \<and> res = Inr () \<and> w' = w1\<lparr>sw_open_fds := Suc (sw_open_fds w1), sw_path_exists := True\<rparr>
     \<or> (\<exists>e. r1 = Inr () \<and> res = Inl e \<and> w' = snd (remove_path os (w1\<lparr>sw_path_exists := True\<rparr>)))"
proof (cases "if CHR ''/'' \<in> set path then throw_if (os_mkdir os) else Inr ()")
  case (Inl e)
  with assms(1) have "res = Inl e" "w' = w" by (simp_all add: server_new_def)
  then show ?thesis by blast
next
  case mk: (Inr u)
  show ?thesis
  proof (cases r1)
    case (Inl e)
    with assms(1) mk j have "res = Inl e" "w' = w1" by (simp_all add: server_new_def)
    then show ?thesis by blast
  next
    case r1: (Inr v)
    show ?thesis
    proof (cases "os_socket os")
      case (Some e)
      with assms(1) mk j r1 have "res = Inl (syscall_error se ''socket'' e)" "w' = w1"
        by (simp_all add: server_new_def)
      then show ?thesis by blast
    next
      case None
      obtain rb owned where b: "bind_and_listen se os path = (rb, owned)" by force
      obtain rr w2 where rm: "remove_path os (w1\<lparr>sw_path_exists := True\<rparr>) = (rr, w2)" by force
      show ?thesis
        using assms(1) mk j r1 None b rm
        by (cases rb; cases owned; cases rr) (auto simp: server_new_def)
    qed
  qed
qed


definition stale_os :: server_os where
  "stale_os = \<lparr>os_mkdir = None, os_exists = None, os_probe = None, os_connect = Some ECONNREFUSED,
     os_unlink = None, os_socket = None, os_bind = None, os_chmod = Some 1, os_listen = None\<rparr>"


end
