(* ===== verification/Request_Handler.thy ===== *)
theory Request_Handler
  imports Session_Properties Line_Protocol Unix_Socket
begin

text \<open>
  The request handler of \<open>src/kaslid/main.cpp\<close>: one line of JSON in, one line of JSON out. It reads
  the id, dispatches on the method, and answers every \<open>std::exception\<close> with an audited protocol
  error. Sessions, tools and the model are those of the session service.
\<close>

section \<open>The code\<close>

definition request_id_or_unknown :: "json \<Rightarrow> string result" where
  "request_id_or_unknown request =
     (if json_contains request ''id''
      then bind_result (json_at ''id'' request) (\<lambda>v.
             if json_is_string v then bind_result (json_at ''id'' request) json_get_string
             else Inr ''unknown'')
      else Inr ''unknown'')"

text \<open>The daemon's own \<open>bound_audit_string\<close>, which bounds but does not redact.\<close>

definition daemon_bound_audit_string :: "string \<Rightarrow> string" where
  "daemon_bound_audit_string value =
     (if length value \<le> 2048 then value
      else substr value 0 (2048 - length audit_marker) @ audit_marker)"

definition audit_protocol_error ::
  "session_env \<Rightarrow> string \<Rightarrow> string \<Rightarrow> string \<Rightarrow> session_state \<Rightarrow> unit result \<times> session_state" where
  "audit_protocol_error env path request_id message st =
     emit env path ''cli'' ''protocol.error'' (daemon_bound_audit_string message)
       (Inr (smap_of [(''request_id'', daemon_bound_audit_string request_id)])) st"

definition tools_list_response :: "string \<Rightarrow> string list \<Rightarrow> json" where
  "tools_list_response i names = json_object
     [(''id'', JString i), (''ok'', JBool True), (''tools'', JArray (map JString names))]"

text \<open>
  The body of the \<open>try\<close> block: the value of \<open>id\<close> when it is left, the response text or the
  exception, and the state.
\<close>

definition handle_method ::
  "session_env \<Rightarrow> 'm session_service \<Rightarrow> 'm \<Rightarrow> model \<Rightarrow> string \<Rightarrow> json \<Rightarrow> session_state
   \<Rightarrow> string result \<times> session_state" where
  "handle_method env svc m complete i request st =
     (let jl = env_json env
      in case json_field ''method'' request of
           Inl e \<Rightarrow> (Inl e, st)
         | Inr method \<Rightarrow>
             if method = ''tools.list''
             then (json_dump jl (tools_list_response i (list_tools svc)), st)
             else if method = ''tool.call''
             then (case bind_result (json_at ''tool'' request) request_from_json of
                     Inl e \<Rightarrow> (Inl e, st)
                   | Inr q \<Rightarrow>
                       (case call_tool env svc m q ''cli'' st of
                          (Inl e, st') \<Rightarrow> (Inl e, st')
                        | (Inr r, st') \<Rightarrow> (json_dump jl (make_tool_call_response i r), st')))
             else if method = ''ask''
             then (case bind_result (json_field ''prompt'' request) (\<lambda>p.
                          bind_result (bind_result (json_at ''tool'' request) request_from_json) (\<lambda>q.
                            Inr (p, q))) of
                     Inl e \<Rightarrow> (Inl e, st)
                   | Inr (prompt, q) \<Rightarrow>
                       (case ask_with_tool env svc m complete prompt q ''cli'' st of
                          (Inl e, st') \<Rightarrow> (Inl e, st')
                        | (Inr a, st') \<Rightarrow>
                            (json_dump jl (make_ask_response i (ask_ok a) (ask_answer a) (ask_error a)), st')))
             else (case audit_protocol_error env (svc_audit_path svc) i ''unknown method'' st of
                     (Inl e, st') \<Rightarrow> (Inl e, st')
                   | (Inr _, st') \<Rightarrow> (json_dump jl (make_error_response i ''unknown method''), st')))"

definition handle_try ::
  "session_env \<Rightarrow> 'm session_service \<Rightarrow> 'm \<Rightarrow> model \<Rightarrow> string \<Rightarrow> session_state
   \<Rightarrow> string \<times> string result \<times> session_state" where
  "handle_try env svc m complete input st =
     (case json_parse (env_json env) input of
        Inl e \<Rightarrow> (''unknown'', Inl e, st)
      | Inr request \<Rightarrow>
          (case request_id_or_unknown request of
             Inl e \<Rightarrow> (''unknown'', Inl e, st)
           | Inr i \<Rightarrow>
               if i = ''unknown''
               then (i, Inl (InvalidArgument ''request id is required''), st)
               else (i, handle_method env svc m complete i request st)))"

definition handle_request ::
  "session_env \<Rightarrow> 'm session_service \<Rightarrow> 'm \<Rightarrow> model \<Rightarrow> string \<Rightarrow> session_state
   \<Rightarrow> string result \<times> session_state" where
  "handle_request env svc m complete input st =
     (case handle_try env svc m complete input st of
        (i, Inr response, st') \<Rightarrow> (Inr response, st')
      | (i, Inl e, st') \<Rightarrow>
          if is_std_exception e
          then let msg = what (json_what (env_json env)) e
               in case audit_protocol_error env (svc_audit_path svc) i msg st' of
                    (Inl e', st'') \<Rightarrow> (Inl e', st'')
                  | (Inr _, st'') \<Rightarrow> (json_dump (env_json env) (make_error_response i msg), st'')
          else (Inl e, st'))"

section \<open>Facts\<close>

definition request_id :: "json_lib \<Rightarrow> string \<Rightarrow> string" where
  "request_id jl input =
     (case json_parse jl input of
        Inr (JObject m) \<Rightarrow> (case smap_find m ''id'' of Some (JString i) \<Rightarrow> i | _ \<Rightarrow> ''unknown'')
      | _ \<Rightarrow> ''unknown'')"

lemma request_id_or_unknown_total:
  "request_id_or_unknown j = Inr (case j of
     JObject m \<Rightarrow> (case smap_find m ''id'' of Some (JString i) \<Rightarrow> i | _ \<Rightarrow> ''unknown'') | _ \<Rightarrow> ''unknown'')"
proof (cases j)
  case (JObject m)
  then show ?thesis
    by (cases "smap_find m ''id''") (auto simp: request_id_or_unknown_def split: json.splits)
qed (simp_all add: request_id_or_unknown_def)

lemma handle_try_id: "fst (handle_try env svc m c input st) = request_id (env_json env) input"
  by (auto simp: handle_try_def request_id_def request_id_or_unknown_total split: sum.splits json.splits option.splits)

text \<open>The JSON values the daemon answers with.\<close>

definition answers :: "string \<Rightarrow> json \<Rightarrow> bool" where
  "answers i j \<longleftrightarrow> json_field ''id'' j = Inr i \<and> (\<exists>b. json_at ''ok'' j = Inr (JBool b))"

lemma answers_responses [simp]:
  "answers i (make_error_response i msg)"
  "answers i (make_ask_response i okay a e)"
  "answers i (make_tool_call_response i r)"
  "answers i (tools_list_response i ns)"
  by (auto simp: answers_def json_field_error_response json_field_ask_response
      json_field_tool_call_response tools_list_response_def)

lemma handle_method_answers:
  "handle_method env svc m c i request st = (Inr reply, st') \<Longrightarrow>
     \<exists>j. json_dump (env_json env) j = Inr reply \<and> answers i j"
  unfolding handle_method_def Let_def
  by (auto split: sum.splits prod.splits if_splits)

lemma json_exn_std [result_simps]:
  "json_at k j = Inl e \<Longrightarrow> is_std_exception e"
  "json_get_string j = Inl e \<Longrightarrow> is_std_exception e"
  "json_field k j = Inl e \<Longrightarrow> is_std_exception e"
proof -
  have at: "json_at k j = Inl e \<Longrightarrow> is_std_exception e" for k j
    by (cases j) (auto split: option.splits)
  have get: "json_get_string j = Inl e \<Longrightarrow> is_std_exception e" for j
    by (cases j) auto
  show "json_at k j = Inl e \<Longrightarrow> is_std_exception e" "json_get_string j = Inl e \<Longrightarrow> is_std_exception e"
    by (rule at get; assumption)+
  show "json_field k j = Inl e \<Longrightarrow> is_std_exception e"
    by (auto simp: json_field_def bind_result_eq_Inl dest: at get)
qed

lemma json_string_map_exn: "json_get_string_map j = Inl e \<Longrightarrow> is_std_exception e"
proof (cases j)
  case (JObject m)
  have "map_result (\<lambda>(k, v). bind_result (json_get_string v) (\<lambda>s. Inr (k, s))) m = Inl e \<Longrightarrow> is_std_exception e"
    by (induction m) (auto simp: bind_result_eq_Inl dest: json_exn_std)
  with JObject show "json_get_string_map j = Inl e \<Longrightarrow> ?thesis" by simp
qed auto

lemma request_from_json_exn: "request_from_json j = Inl e \<Longrightarrow> is_std_exception e"
proof -
  have r: "risk_class_from_string s = Inl e \<Longrightarrow> is_std_exception e" for s
    by (auto simp: risk_class_from_string_def split: if_splits)
  have v: "json_value json_get_string_map k [] j = Inl e \<Longrightarrow> is_std_exception e" for k
    by (cases j) (auto split: option.splits dest: json_string_map_exn)
  show "request_from_json j = Inl e \<Longrightarrow> is_std_exception e"
    by (auto simp: request_from_json_def bind_result_eq_Inl dest: json_exn_std r v)
qed

lemma audit_protocol_error_exn:
  "audit_protocol_error env path i msg st = (Inl e, st') \<Longrightarrow> audit_exn (env_json env) e"
  unfolding audit_protocol_error_def by (erule emit_exn) simp

lemma dump_exn: "json_dump jl j = Inl e \<Longrightarrow> audit_exn jl e"
  by (auto simp: audit_exn_def)

lemma handle_method_exn:
  "handle_method env svc m c i request st = (Inl e, st') \<Longrightarrow>
     is_std_exception e \<or> audit_exn (env_json env) e"
  unfolding handle_method_def Let_def
  by (auto split: sum.splits prod.splits if_splits simp: bind_result_eq_Inl
      dest: json_exn_std request_from_json_exn dump_exn call_tool_exn ask_with_tool_exn
        audit_protocol_error_exn)

lemma handle_try_exn:
  "handle_try env svc m c input st = (i, Inl e, st') \<Longrightarrow>
     is_std_exception e \<or> audit_exn (env_json env) e \<or> json_parse (env_json env) input = Inl e"
  by (auto simp: handle_try_def request_id_or_unknown_total split: sum.splits if_splits
      dest: handle_method_exn)

lemma handle_try_answers:
  "handle_try env svc m c input st = (i, Inr reply, st') \<Longrightarrow>
     \<exists>j. json_dump (env_json env) j = Inr reply \<and> answers i j"
  by (auto simp: handle_try_def request_id_or_unknown_total split: sum.splits if_splits
      dest: handle_method_answers)


text \<open>
  The inputs that reach the service: an id other than \<open>unknown\<close>, a known method with, where
  it needs them, a tool request that decodes and a string prompt.
\<close>

definition decodes_to_work :: "json_lib \<Rightarrow> string \<Rightarrow> bool" where
  "decodes_to_work jl input \<longleftrightarrow>
     request_id jl input \<noteq> ''unknown'' \<and>
     (case bind_result (json_parse jl input) (json_field ''method'') of
        Inl _ \<Rightarrow> False
      | Inr method \<Rightarrow>
          let tool = bind_result (json_parse jl input) (\<lambda>request. bind_result (json_at ''tool'' request) request_from_json);
              prompt = bind_result (json_parse jl input) (json_field ''prompt'')
          in method = ''tools.list'' \<or> method = ''tool.call'' \<and> \<not> isl tool
             \<or> method = ''ask'' \<and> \<not> isl prompt \<and> \<not> isl tool)"

lemma handle_method_no_work:
  assumes "case json_field ''method'' request of
     Inl _ \<Rightarrow> True
   | Inr meth \<Rightarrow> meth \<noteq> ''tools.list''
       \<and> (meth = ''tool.call'' \<longrightarrow> isl (bind_result (json_at ''tool'' request) request_from_json))
       \<and> (meth = ''ask'' \<longrightarrow> isl (json_field ''prompt'' request)
            \<or> isl (bind_result (json_at ''tool'' request) request_from_json))"
  shows "handle_method env (svc\<lparr>svc_registry := reg', svc_policy := pol'\<rparr>) m' complete' i request st
       = handle_method env svc m complete i request st"
proof (cases "json_field ''method'' request")
  case (Inr meth)
  show ?thesis
  proof (cases "meth = ''tool.call''")
    case True
    with assms Inr obtain e where "bind_result (json_at ''tool'' request) request_from_json = Inl e"
      by (auto simp: isl_def)
    with True Inr show ?thesis by (simp add: handle_method_def)
  next
    case call: False
    show ?thesis
    proof (cases "meth = ''ask''")
      case True
      with assms Inr consider e where "json_field ''prompt'' request = Inl e"
        | p e where "json_field ''prompt'' request = Inr p"
            "bind_result (json_at ''tool'' request) request_from_json = Inl e"
        by (cases "json_field ''prompt'' request") (auto simp: isl_def)
      then show ?thesis by cases (use True Inr in \<open>simp_all add: handle_method_def\<close>)
    next
      case False
      with assms Inr call show ?thesis by (simp add: handle_method_def)
    qed
  qed
qed (simp add: handle_method_def)

lemma handle_try_no_work:
  assumes "\<not> decodes_to_work (env_json env) input"
  shows "handle_try env (svc\<lparr>svc_registry := reg', svc_policy := pol'\<rparr>) m' complete' input st
       = handle_try env svc m complete input st"
proof (cases "json_parse (env_json env) input")
  case (Inr request)
  define i where "i = request_id (env_json env) input"
  have i: "request_id_or_unknown request = Inr i"
    by (simp add: request_id_or_unknown_total i_def request_id_def Inr)
  show ?thesis
  proof (cases "i = ''unknown''")
    case False
    have "handle_method env (svc\<lparr>svc_registry := reg', svc_policy := pol'\<rparr>) m' complete' i request st
        = handle_method env svc m complete i request st"
      using assms Inr False i_def
      by (intro handle_method_no_work) (auto simp: decodes_to_work_def Let_def split: sum.splits)
    with Inr i show ?thesis by (simp add: handle_try_def)
  qed (use Inr i in \<open>simp add: handle_try_def\<close>)
qed (simp add: handle_try_def)

text \<open>
  C19: A line that is not a valid request never reaches a tool or the model: if it does not parse, has
  no usable id, names no known method, or what the method needs cannot be decoded, the handler does the
  same for every registry, policy, system state and model.
\<close>

theorem invalid_request_reaches_nothing:
  assumes "\<not> decodes_to_work (env_json env) input"
  shows "handle_request env (svc\<lparr>svc_registry := reg', svc_policy := pol'\<rparr>) m' complete' input st
       = handle_request env svc m complete input st"
  unfolding handle_request_def handle_try_no_work [OF assms, where m = m and complete = complete]
  by (simp split: prod.split sum.split)

lemma invalid_request_reaches_nothing_witness:
  "handle_request sample_env (sample_service\<lparr>svc_registry := [], svc_policy := []\<rparr>) () (\<lambda>_. Inl ForeignExn) ''{}'' sample_state
   = handle_request sample_env sample_service () (\<lambda>_. Inr ''fine'') ''{}'' sample_state"
  by (rule invalid_request_reaches_nothing)
    (simp add: decodes_to_work_def sample_env_def sample_json_lib_def audit_to_json_def json_object_def
      smap_find_of sample_event_def json_field_def bind_result_def)

text \<open>
  Client and daemon speak the same protocol: a line that parses to what the client's request
  makers build, with an id other than \<open>unknown\<close>, is dispatched with exactly the client's tool request and
  prompt, and answered with the tool names, the response or the answer under that id.
\<close>

theorem client_requests_are_dispatched:
  assumes "i \<noteq> ''unknown''"
    and "json_parse (env_json env) l_list = Inr (make_tools_list_request i)"
    and "json_parse (env_json env) l_call = Inr (make_tool_call_request i q)"
    and "json_parse (env_json env) l_ask = Inr (make_ask_request i prompt q)"
  shows "handle_try env svc m complete l_list st =
       (i, json_dump (env_json env) (tools_list_response i (registry_names (svc_registry svc))), st)
     \<and> handle_try env svc m complete l_call st =
       (i, case call_tool env svc m q ''cli'' st of
             (Inl e, st') \<Rightarrow> (Inl e, st')
           | (Inr r, st') \<Rightarrow> (json_dump (env_json env) (make_tool_call_response i r), st'))
     \<and> handle_try env svc m complete l_ask st =
       (i, case ask_with_tool env svc m complete prompt q ''cli'' st of
             (Inl e, st') \<Rightarrow> (Inl e, st')
           | (Inr a, st') \<Rightarrow>
               (json_dump (env_json env) (make_ask_response i (ask_ok a) (ask_answer a) (ask_error a)), st'))"
  using assms
  by (simp add: handle_try_def request_id_or_unknown_def make_tools_list_request_def
      make_tool_call_request_def make_ask_request_def handle_method_def list_tools_def request.from_to)

definition sample_lines_lib :: json_lib where
  "sample_lines_lib = \<lparr>json_dump = (\<lambda>j. Inr ''{}''),
     json_parse = (\<lambda>s. Inr (if s = ''l'' then make_tools_list_request ''7''
        else if s = ''c'' then make_tool_call_request ''7'' sample_request
        else make_ask_request ''7'' ''why'' sample_request)),
     json_what = (\<lambda>e. ''json'')\<rparr>"

lemma client_requests_are_dispatched_witness:
  "handle_try (sample_env\<lparr>env_json := sample_lines_lib\<rparr>) sample_service () (\<lambda>_. Inr ''fine'') ''l'' sample_state =
     (''7'', Inr ''{}'', sample_state)"
  using client_requests_are_dispatched [where i = "''7''" and env = "sample_env\<lparr>env_json := sample_lines_lib\<rparr>"
      and l_list = "''l''" and l_call = "''c''" and l_ask = "''a''" and q = sample_request and prompt = "''why''"
      and svc = sample_service and m = "()" and complete = "\<lambda>_. Inr ''fine''" and st = sample_state]
  by (simp add: sample_lines_lib_def)

end
