(* ===== verification/Audit_Trail.thy ===== *)
theory Audit_Trail
  imports Request_Handler
begin

text \<open>
  The audit log over a whole run of the daemon, as a state machine. A step is one attempt to append an
  event (\<open>emission\<close>); a run of steps is a \<open>trail\<close>; the states a session can reach are those that
  handling requests leads to. The automaton \<open>audit_step\<close> says which events may follow which, and every
  reachable state has a log the automaton accepts. \<open>serve\<close> only leads to reachable states, which
  the root theory uses.
\<close>

section \<open>What an append leaves in the log\<close>

text \<open>
  An entry is a whole record, or what is left of a record that could not be written: nothing if the event
  cannot be printed or the file not opened.
\<close>

datatype trail_entry = Whole audit_event | Torn string

inductive emission :: "session_env \<Rightarrow> session_state \<Rightarrow> trail_entry \<Rightarrow> session_state \<Rightarrow> bool" for env where
  whole: "audit_record (env_json env) e = Inr r \<Longrightarrow>
    ae_id e = fst (make_event_id (env_now env (ss_made st)) (ss_counter st)) \<Longrightarrow>
    emission env st (Whole e) ((event_made env st)\<lparr>ss_log := ss_log st @ r\<rparr>)"
| torn: "s = [] \<or> env_disk env (ss_made st) \<notin> {DiskOk, OpenFails} \<Longrightarrow>
    emission env st (Torn s) ((event_made env st)\<lparr>ss_log := ss_log st @ s\<rparr>)"

inductive_cases emission_whole: "emission env st (Whole e) st'"
inductive_cases emission_torn: "emission env st (Torn s) st'"

inductive trail :: "session_env \<Rightarrow> session_state \<Rightarrow> trail_entry list \<Rightarrow> session_state \<Rightarrow> bool" for env where
  stop [simp, intro]: "trail env st [] st"
| step: "emission env st x st1 \<Longrightarrow> trail env st1 xs st2 \<Longrightarrow> trail env st (x # xs) st2"

inductive_simps trail_Nil [simp]: "trail env st [] st'"
inductive_simps trail_Cons: "trail env st (x # xs) st'"

lemma trail_append: "trail env st xs st1 \<Longrightarrow> trail env st1 ys st2 \<Longrightarrow> trail env st (xs @ ys) st2"
  by (induction rule: trail.induct) (auto intro: trail.step)

lemma trail_one: "emission env st x st' \<Longrightarrow> trail env st [x] st'"
  by (auto intro: trail.intros)

fun whole_events :: "trail_entry list \<Rightarrow> audit_event list" where
  "whole_events [] = []"
| "whole_events (Whole e # xs) = e # whole_events xs"
| "whole_events (Torn s # xs) = whole_events xs"

lemma whole_events_append [simp]: "whole_events (xs @ ys) = whole_events xs @ whole_events ys"
  by (induction xs rule: whole_events.induct) simp_all

section \<open>Which event may follow which\<close>

text \<open>
  The abstract audit log: after a tool call with the request id \<open>i\<close>, and whether its status was ok, the
  model may be asked or skipped for \<open>i\<close>; after the model was asked for \<open>i\<close>, its answer or error for \<open>i\<close>
  may follow. A tool call and a protocol error may come at any time.
\<close>

datatype audit_phase = Quiet | Called "string option" bool | Asked "string option"

definition audit_step :: "audit_phase \<Rightarrow> audit_event \<Rightarrow> audit_phase option" where
  "audit_step phase e =
     (let i = smap_find (ae_details e) ''request_id''; okay = (smap_find (ae_details e) ''status'' = Some ''ok'')
      in if ae_actor e \<noteq> ''cli'' then None
         else if ae_type e = ''protocol.error'' then Some Quiet
         else if ae_type e = ''tool.call''
         then if okay \<longrightarrow> smap_find (ae_details e) ''policy_allowed'' = Some ''true''
              then Some (Called i okay) else None
         else case phase of
                Quiet \<Rightarrow> None
              | Called i' okay' \<Rightarrow>
                  if i = i' \<and> okay' \<and> ae_type e = ''model.request'' then Some (Asked i)
                  else if i = i' \<and> \<not> okay' \<and> ae_type e = ''model.skipped'' then Some Quiet
                  else None
              | Asked i' \<Rightarrow>
                  if i = i' \<and> (ae_type e = ''model.response'' \<or> ae_type e = ''model.error'') then Some Quiet
                  else None)"

fun audit_run :: "audit_phase \<Rightarrow> audit_event list \<Rightarrow> audit_phase option" where
  "audit_run phase [] = Some phase"
| "audit_run phase (e # es) =
     (case audit_step phase e of None \<Rightarrow> None | Some phase' \<Rightarrow> audit_run phase' es)"

definition lawful_log :: "audit_event list \<Rightarrow> bool" where
  "lawful_log es \<longleftrightarrow> audit_run Quiet es \<noteq> None"

lemma audit_run_append:
  "audit_run phase (es @ fs) = Option.bind (audit_run phase es) (\<lambda>phase'. audit_run phase' fs)"
  by (induction es arbitrary: phase) (auto split: option.splits)

section \<open>The session follows the automaton\<close>

lemma emit_emission:
  assumes "emit env path actor ty summ details st = (res, st')"
  shows "(\<exists>ds. details = Inr ds \<and> res = Inr () \<and> emission env st (Whole (new_event env st actor ty summ ds)) st')
    \<or> (\<exists>s e. res = Inl e \<and> emission env st (Torn s) st')"
proof (cases details)
  case (Inl e)
  have "event_made env st = (event_made env st)\<lparr>ss_log := ss_log st @ []\<rparr>"
    by (cases st) (simp add: event_made_def)
  with Inl assms have "res = Inl e" "st' = (event_made env st)\<lparr>ss_log := ss_log st @ []\<rparr>"
    by (simp_all add: emit_def)
  then show ?thesis using emission.torn [of "[]" env st] by blast
next
  case (Inr ds)
  let ?e = "new_event env st actor ty summ ds"
  obtain log where a: "audit_append (env_json env) path (env_disk env (ss_made st)) ?e (ss_log st) = (res, log)"
    and st': "st' = (event_made env st)\<lparr>ss_log := log\<rparr>"
    using assms Inr by (auto simp: emit_def split: prod.splits)
  have "ae_id ?e = fst (make_event_id (env_now env (ss_made st)) (ss_counter st))"
    by (simp add: new_event_def)
  note whole = emission.whole [OF _ this]
  show ?thesis
  proof (cases res)
    case (Inr u)
    with audit_log.appended a obtain r where "audit_record (env_json env) ?e = Inr r" "log = ss_log st @ r"
      by (metis old.unit.exhaust)
    with whole st' Inr \<open>details = Inr ds\<close> show ?thesis by auto
  next
    case (Inl e)
    with a have "\<exists>s. log = ss_log st @ s \<and> (s = [] \<or> env_disk env (ss_made st) \<notin> {DiskOk, OpenFails})"
      by (auto simp: audit_append_def split: sum.splits disk_outcome.splits)
    with st' Inl show ?thesis by (auto intro: emission.torn)
  qed
qed

text \<open>
  The trail of a piece of the code, from any phase: it is lawful, and ends in the phase given, or in any phase
  where none is given.
\<close>

definition leaves ::
  "session_env \<Rightarrow> session_state \<Rightarrow> audit_phase \<Rightarrow> session_state \<Rightarrow> audit_phase option \<Rightarrow> bool" where
  "leaves env st phase st' phase' \<longleftrightarrow>
     (\<exists>xs p. trail env st xs st' \<and> audit_run phase (whole_events xs) = Some p \<and> (phase' = None \<or> phase' = Some p))"

lemma leaves_stop [simp]: "leaves env st phase st None"
  unfolding leaves_def by (intro exI [of _ "[]"]) simp

lemma leaves_any: "leaves env st phase st' phase' \<Longrightarrow> leaves env st phase st' None"
  by (auto simp: leaves_def)

lemma leaves_one:
  "emission env st x st' \<Longrightarrow> audit_run phase (whole_events [x]) = Some p \<Longrightarrow> leaves env st phase st' (Some p)"
  unfolding leaves_def by (intro exI [of _ "[x]"] exI [of _ p]) (simp add: trail_one)

lemma leaves_trans:
  assumes "leaves env st phase st1 (Some phase1)" "leaves env st1 phase1 st2 phase2"
  shows "leaves env st phase st2 phase2"
proof -
  obtain xs ys p where x: "trail env st xs st1" "audit_run phase (whole_events xs) = Some phase1"
    and y: "trail env st1 ys st2" "audit_run phase1 (whole_events ys) = Some p" "phase2 = None \<or> phase2 = Some p"
    using assms by (auto simp: leaves_def)
  then have "trail env st (xs @ ys) st2" "audit_run phase (whole_events (xs @ ys)) = Some p"
    by (auto simp: audit_run_append intro: trail_append)
  with y(3) show ?thesis unfolding leaves_def by blast
qed

lemma leaves_trans_any:
  assumes "leaves env st phase st1 None" "\<And>phase. leaves env st1 phase st2 phase2"
  shows "leaves env st phase st2 phase2"
  using assms leaves_trans unfolding leaves_def [of env st phase st1] by (metis leaves_def)

lemma emit_leaves:
  assumes "emit env path actor ty summ details st = (res, st')"
    and "\<And>ds. details = Inr ds \<Longrightarrow> audit_step phase (new_event env st actor ty summ ds) = Some phase'"
  shows "leaves env st phase st' (case res of Inl _ \<Rightarrow> Some phase | Inr _ \<Rightarrow> Some phase')"
  using emit_emission [OF assms(1)] assms(2) by (auto intro!: leaves_one)

lemma call_tool_leaves:
  assumes "call_tool env svc m q ''cli'' st = (res, st')"
  shows "leaves env st phase st' (case res of Inl _ \<Rightarrow> Some phase
      | Inr r \<Rightarrow> Some (Called (Some (bound_audit_string (req_id q))) (resp_status r = Ok)))"
proof -
  let ?r = "tool_outcome (env_json env) svc m q" and ?d = "decide (svc_policy svc) q"
  obtain x where e: "emit env (svc_audit_path svc) ''cli'' ''tool.call'' (bound_audit_string (req_tool_name q))
      (tool_audit_details (env_json env) q ?d ?r) st = (x, st')" and res: "res = map_sum id (\<lambda>_. ?r) x"
    using assms by (auto simp: call_tool_def Let_def split: prod.splits)
  have allowed: "resp_status ?r = Ok \<longrightarrow> pd_allowed ?d" by (simp add: tool_outcome_def Let_def)
  have okay: "status_to_string s = ''ok'' \<longleftrightarrow> s = Ok" for s by (cases s) simp_all
  have "audit_step phase (new_event env st ''cli'' ''tool.call'' (bound_audit_string (req_tool_name q)) ds)
      = Some (Called (Some (bound_audit_string (req_id q))) (resp_status ?r = Ok))"
    if "tool_audit_details (env_json env) q ?d ?r = Inr ds" for ds
  proof -
    have "smap_find ds ''request_id'' = Some (bound_audit_string (req_id q))"
      "smap_find ds ''policy_allowed'' = Some (bool_text (pd_allowed ?d))"
      "smap_find ds ''status'' = Some (status_to_string (resp_status ?r))"
      using that by (auto simp only: tool_audit_details_def bind_result_eq_Inr smap_find_of sum.inject map_of.simps
          prod.sel fun_upd_apply) simp_all
    then show ?thesis
      using allowed by (simp add: audit_step_def new_event_def okay bool_text_def)
  qed
  from emit_leaves [OF e this] show ?thesis by (cases x) (simp_all add: res)
qed

lemma model_failed_leaves:
  assumes "model_failed env path prompt q ''cli'' es e st = (res, st')"
  shows "leaves env st (Asked (Some (bound_audit_string (req_id q)))) st' None"
proof -
  let ?msg = "if is_std_exception e then bound_audit_string (what (json_what (env_json env)) e)
    else ''model failed with unknown exception''"
  let ?i = "Some (bound_audit_string (req_id q))"
  obtain x where e: "emit env path ''cli'' ''model.error'' (bound_audit_string prompt)
      (model_error_details (env_json env) prompt q ?msg es) st = (x, st')"
    using assms by (auto simp: model_failed_def Let_def split: prod.splits if_splits)
  have "audit_step (Asked ?i) (new_event env st ''cli'' ''model.error'' (bound_audit_string prompt) ds) = Some Quiet"
    if "model_error_details (env_json env) prompt q ?msg es = Inr ds" for ds
    using that by (auto simp: model_error_details_def bind_result_eq_Inr audit_step_def new_event_def smap_find_of
        simp del: if_image_distrib)
  from emit_leaves [OF e this] show ?thesis by (rule leaves_any)
qed

lemma ask_model_leaves:
  assumes "ask_model env path complete prompt q ''cli'' es st = (res, st')"
  shows "leaves env st (Asked (Some (bound_audit_string (req_id q)))) st' None"
proof (cases "complete \<lparr>mr_prompt = prompt, mr_evidence = es\<rparr>")
  case (Inl e)
  with assms show ?thesis by (auto simp: ask_model_def intro: model_failed_leaves)
next
  case (Inr answer)
  let ?i = "Some (bound_audit_string (req_id q))"
  obtain x st1 where e: "emit env path ''cli'' ''model.response'' ''model response received''
      (Inr (model_response_details q answer)) st = (x, st1)" by force
  have "audit_step (Asked ?i) (new_event env st ''cli'' ''model.response'' ''model response received'' ds) = Some Quiet"
    if "Inr (model_response_details q answer) = (Inr ds :: string smap result)" for ds
    using that by (auto simp: model_response_details_def audit_step_def new_event_def smap_find_of)
  note one = emit_leaves [OF e this]
  show ?thesis
  proof (cases x)
    case (Inl err)
    with assms Inr e have "model_failed env path prompt q ''cli'' es err st1 = (res, st')"
      by (simp add: ask_model_def)
    from leaves_trans [OF _ model_failed_leaves [OF this]] one Inl show ?thesis by simp
  next
    case (Inr u)
    with assms \<open>complete _ = Inr answer\<close> e one show ?thesis
      by (auto simp: ask_model_def intro: leaves_any)
  qed
qed

lemma ask_with_tool_leaves:
  assumes "ask_with_tool env svc m complete prompt q ''cli'' st = (res, st')"
  shows "leaves env st phase st' None"
proof -
  let ?jl = "env_json env" and ?path = "svc_audit_path svc"
  let ?i = "Some (bound_audit_string (req_id q))"
  obtain x st1 where c: "call_tool env svc m q ''cli'' st = (x, st1)" by force
  note one = call_tool_leaves [OF c, of phase]
  show ?thesis
  proof (cases x)
    case (Inl e)
    with assms c one show ?thesis by (auto simp: ask_with_tool_def intro: leaves_any)
  next
    case r: (Inr r)
    show ?thesis
    proof (cases "resp_status r = Ok")
      case False
      obtain y st2 where e: "emit env ?path ''cli'' ''model.skipped'' (bound_audit_string prompt)
          (model_skipped_details ?jl prompt q r) st1 = (y, st2)" by force
      have "audit_step (Called ?i False) (new_event env st1 ''cli'' ''model.skipped'' (bound_audit_string prompt) ds)
          = Some Quiet" if "model_skipped_details ?jl prompt q r = Inr ds" for ds
        using that by (auto simp: model_skipped_details_def bind_result_eq_Inr audit_step_def new_event_def smap_find_of)
      note two = leaves_any [OF emit_leaves [OF e this]]
      have "st' = st2" using assms c r False e by (auto simp: ask_with_tool_def split: sum.splits)
      with leaves_trans [OF _ two] one r False show ?thesis by simp
    next
      case True
      obtain y st2 where e: "emit env ?path ''cli'' ''model.request'' (bound_audit_string prompt)
          (model_context_details ?jl prompt q (resp_evidence r)) st1 = (y, st2)" by force
      have "audit_step (Called ?i True) (new_event env st1 ''cli'' ''model.request'' (bound_audit_string prompt) ds)
          = Some (Asked ?i)" if "model_context_details ?jl prompt q (resp_evidence r) = Inr ds" for ds
        using that by (auto simp: model_context_details_def bind_result_eq_Inr audit_step_def new_event_def smap_find_of)
      note two = emit_leaves [OF e this]
      have "leaves env st1 (Called ?i True) st' None"
      proof (cases y)
        case (Inl err)
        with assms c r True e two show ?thesis by (auto simp: ask_with_tool_def intro: leaves_any)
      next
        case (Inr u)
        with assms c r True e have "ask_model env ?path complete prompt q ''cli'' (resp_evidence r) st2 = (res, st')"
          by (simp add: ask_with_tool_def)
        from leaves_trans [OF _ ask_model_leaves [OF this]] two Inr show ?thesis by simp
      qed
      with leaves_trans [OF _ this] one r True show ?thesis by simp
    qed
  qed
qed

lemma protocol_error_leaves:
  assumes "audit_protocol_error env path i msg st = (res, st')"
  shows "leaves env st phase st' None"
proof -
  have "audit_step phase (new_event env st ''cli'' ''protocol.error'' summ ds) = Some Quiet" for summ ds
    by (simp add: audit_step_def new_event_def)
  from emit_leaves [OF assms [unfolded audit_protocol_error_def] this] show ?thesis by (rule leaves_any)
qed

lemma handle_method_leaves:
  assumes "handle_method env svc m complete i request st = (res, st')"
  shows "leaves env st phase st' None"
  using assms unfolding handle_method_def Let_def
  by (auto split: sum.splits prod.splits if_splits
      intro: protocol_error_leaves ask_with_tool_leaves leaves_any [OF call_tool_leaves])

lemma handle_request_leaves:
  assumes "handle_request env svc m complete input st = (res, st')"
  shows "leaves env st phase st' None"
proof -
  obtain i x st1 where t: "handle_try env svc m complete input st = (i, x, st1)" by (metis prod_cases3)
  then have one: "leaves env st phase st1 None"
    by (auto simp: handle_try_def split: sum.splits if_splits intro: handle_method_leaves)
  show ?thesis
  proof (cases "\<exists>e. x = Inl e \<and> is_std_exception e")
    case True
    then obtain e y where "audit_protocol_error env (svc_audit_path svc) i (what (json_what (env_json env)) e) st1 = (y, st')"
      using assms t by (auto simp: handle_request_def Let_def split: prod.splits sum.splits)
    with one show ?thesis by (auto intro: leaves_trans_any protocol_error_leaves)
  next
    case False
    with assms t one show ?thesis by (auto simp: handle_request_def split: sum.splits if_splits)
  qed
qed

section \<open>How many events a request makes\<close>

lemma emit_made: "emit env path actor ty summ details st = (res, st') \<Longrightarrow> ss_made st' = Suc (ss_made st)"
  by (auto simp: emit_def event_made_def split: sum.splits prod.splits)

lemma call_tool_made: "call_tool env svc m q actor st = (res, st') \<Longrightarrow> ss_made st' = Suc (ss_made st)"
  by (auto simp: call_tool_def Let_def emit_made split: prod.splits)

lemma model_failed_made:
  "model_failed env path prompt q actor es e st = (res, st') \<Longrightarrow> ss_made st' = Suc (ss_made st)"
  by (auto simp: model_failed_def Let_def emit_made split: prod.splits)

lemma ask_model_made:
  "ask_model env path complete prompt q actor es st = (res, st') \<Longrightarrow> ss_made st' \<le> ss_made st + 2"
  by (auto simp: ask_model_def split: sum.splits prod.splits dest!: emit_made model_failed_made)

lemma ask_with_tool_made:
  "ask_with_tool env svc m complete prompt q actor st = (res, st') \<Longrightarrow> ss_made st' \<le> ss_made st + 4"
  by (auto simp: ask_with_tool_def Let_def split: sum.splits prod.splits if_splits
      dest!: emit_made call_tool_made ask_model_made)

lemma handle_method_made:
  "handle_method env svc m complete i request st = (res, st') \<Longrightarrow> ss_made st' \<le> ss_made st + 4"
  by (auto simp: handle_method_def audit_protocol_error_def Let_def split: sum.splits prod.splits if_splits
      dest!: emit_made call_tool_made ask_with_tool_made)

lemma handle_request_made:
  assumes "handle_request env svc m complete input st = (res, st')"
  shows "ss_made st' \<le> ss_made st + 5"
proof -
  obtain i x st1 where t: "handle_try env svc m complete input st = (i, x, st1)" by (metis prod_cases3)
  then have "ss_made st1 \<le> ss_made st + 4"
    by (auto simp: handle_try_def split: sum.splits if_splits dest!: handle_method_made)
  with assms t show ?thesis
    by (auto simp: handle_request_def audit_protocol_error_def Let_def split: sum.splits prod.splits if_splits
        dest!: emit_made)
qed

section \<open>Reachable states\<close>

text \<open>
  The states a daemon can be in after it has handled requests: any line, whatever the tools observe and
  the model answers.
\<close>

inductive reachable_session ::
  "session_env \<Rightarrow> 'm session_service \<Rightarrow> session_state \<Rightarrow> session_state \<Rightarrow> bool" for env svc st0 where
  initially [simp, intro]: "reachable_session env svc st0 st0"
| handled: "reachable_session env svc st0 st \<Longrightarrow>
    handle_request env svc m complete input st = (res, st') \<Longrightarrow> reachable_session env svc st0 st'"

lemma reachable_session_trans:
  "reachable_session env svc st1 st2 \<Longrightarrow> reachable_session env svc st0 st1 \<Longrightarrow> reachable_session env svc st0 st2"
  by (induction rule: reachable_session.induct) (auto intro: reachable_session.handled)

lemma reachable_leaves: "reachable_session env svc st0 st \<Longrightarrow> leaves env st0 Quiet st None"
proof (induction rule: reachable_session.induct)
  case (handled st m complete input res st')
  then show ?case by (blast intro: leaves_trans_any handle_request_leaves)
qed simp

section \<open>Reading the log of a trail\<close>

text \<open>A disk that writes a record or refuses to open the file, but never stops half-way.\<close>

definition writes_whole_records :: "session_env \<Rightarrow> bool" where
  "writes_whole_records env \<longleftrightarrow> (\<forall>n. env_disk env n = DiskOk \<or> env_disk env n = OpenFails)"

lemma trail_log:
  assumes "trail env st xs st'" "writes_whole_records env"
  shows "\<exists>rs. list_all2 (\<lambda>e r. audit_record (env_json env) e = Inr r) (whole_events xs) rs
    \<and> ss_log st' = ss_log st @ concat rs"
  using assms(1)
proof (induction rule: trail.induct)
  case (step st x st1 xs st2)
  then obtain rs where rs: "list_all2 (\<lambda>e r. audit_record (env_json env) e = Inr r) (whole_events xs) rs"
    "ss_log st2 = ss_log st1 @ concat rs" by blast
  from step(1) show ?case
  proof cases
    case (whole e r)
    with rs show ?thesis by (intro exI [of _ "r # rs"]) simp
  next
    case (torn s)
    with assms(2) have "s = []" unfolding writes_whole_records_def by auto
    with rs torn show ?thesis by (intro exI [of _ rs]) simp
  qed
qed simp

text \<open>The ids of the events are among those of the readings of the clock, in order.\<close>

lemma trail_ids:
  "trail env st xs st' \<Longrightarrow>
     ss_made st' = ss_made st + length xs \<and>
     subseq (map ae_id (whole_events xs))
       (event_ids (map (env_now env) [ss_made st..<ss_made st + length xs]) (ss_counter st))"
proof (induction rule: trail.induct)
  case (step st x st1 xs st2)
  let ?id = "fst (make_event_id (env_now env (ss_made st)) (ss_counter st))"
    and ?rest = "event_ids (map (env_now env) [ss_made st1..<ss_made st1 + length xs]) (ss_counter st1)"
  have made: "ss_made st1 = Suc (ss_made st)"
    and counter: "ss_counter st1 = snd (make_event_id (env_now env (ss_made st)) (ss_counter st))"
    using step(1) by (auto simp: event_made_def elim!: emission.cases)
  have "[ss_made st..<ss_made st + length (x # xs)] = ss_made st # [ss_made st1..<ss_made st1 + length xs]"
    using upt_conv_Cons [of "ss_made st" "ss_made st + length (x # xs)"] made by (simp del: upt_Suc)
  then have "event_ids (map (env_now env) [ss_made st..<ss_made st + length (x # xs)]) (ss_counter st) = ?id # ?rest"
    by (simp add: counter split: prod.splits)
  moreover have "map ae_id (whole_events (x # xs)) = ?id # map ae_id (whole_events xs)
      \<or> map ae_id (whole_events (x # xs)) = map ae_id (whole_events xs)"
    using step(1) by (auto elim!: emission.cases)
  ultimately show ?case using step.IH made by auto
qed simp

text \<open>A library whose texts are single lines it reads back.\<close>

definition reads_back_lines :: "json_lib \<Rightarrow> bool" where
  "reads_back_lines jl \<longleftrightarrow> (\<forall>j s. json_dump jl j = Inr s \<longrightarrow> dumps_line jl j s)"

lemma read_audit_records:
  assumes "list_all2 (\<lambda>e r. audit_record jl e = Inr r) es rs" "reads_back_lines jl"
  shows "read_audit jl (concat rs) = Inr es"
proof -
  obtain ss where "list_all2 (\<lambda>e s. dumps_line jl (audit_to_json e) s) es ss" "rs = map (\<lambda>s. s @ [newline]) ss"
    using assms(1)
  proof (induction arbitrary: thesis rule: list_all2_induct)
    case (Cons e es r rs)
    from Cons.hyps(1) obtain s where s: "json_dump jl (audit_to_json e) = Inr s" "r = s @ [newline]"
      by (auto simp: audit_record_def bind_result_eq_Inr)
    obtain ss where "list_all2 (\<lambda>e s. dumps_line jl (audit_to_json e) s) es ss" "rs = map (\<lambda>s. s @ [newline]) ss"
      using Cons.IH by blast
    with s assms(2) show ?case by (intro Cons.prems [of "s # ss"]) (auto simp: reads_back_lines_def)
  qed simp
  with read_audit_lines show ?thesis by blast
qed

lemma distinct_subseq: "subseq xs ys \<Longrightarrow> distinct ys \<Longrightarrow> distinct xs"
proof (induction rule: list_emb.induct)
  case (list_emb_Cons2 x y xs ys)
  then show ?case by (auto elim: list_emb_set)
qed simp_all

lemma reachable_log_lawful:
  assumes "reachable_session env svc st0 st" "ss_log st0 = []"
    and "writes_whole_records env" "reads_back_lines (env_json env)"
    and "ss_made st - ss_made st0 \<le> 2 ^ 64"
  obtains es where "read_audit (env_json env) (ss_log st) = Inr es" "lawful_log es" "distinct (map ae_id es)"
proof -
  obtain xs p where t: "trail env st0 xs st" "audit_run Quiet (whole_events xs) = Some p"
    using reachable_leaves [OF assms(1)] by (auto simp: leaves_def)
  obtain rs where "list_all2 (\<lambda>e r. audit_record (env_json env) e = Inr r) (whole_events xs) rs"
    "ss_log st = concat rs"
    using trail_log [OF t(1) assms(3)] assms(2) by auto
  then have "read_audit (env_json env) (ss_log st) = Inr (whole_events xs)"
    using read_audit_records assms(4) by metis
  moreover have "lawful_log (whole_events xs)" by (simp add: lawful_log_def t(2))
  moreover have "length xs \<le> 2 ^ 64" using trail_ids [OF t(1)] assms(5) by simp
  then have "distinct (map ae_id (whole_events xs))"
    using trail_ids [OF t(1)] event_ids_distinct distinct_subseq by (metis diff_add_inverse length_map length_upt)
  ultimately show thesis by (rule that)
qed

text \<open>
  A record that is cut off spoils the next one: \<open>append\<close> does not end the line first, so the next record
  continues it.
\<close>

lemma torn_record_swallows_the_next:
  assumes "json_dump jl (audit_to_json e1) = Inr s1" "newline \<notin> set s1" "n \<le> length s1"
    and "json_dump jl (audit_to_json e2) = Inr s2" "newline \<notin> set s2"
  shows "get_lines (snd (audit_append jl path DiskOk e2 (snd (audit_append jl path (WriteFails n) e1 []))))
    = [take n s1 @ s2]"
proof -
  have "newline \<notin> set (take n s1)" using assms(2) by (auto dest: in_set_takeD)
  then have "get_lines ((take n s1 @ s2) @ newline # []) = [take n s1 @ s2]"
    using assms(5) by (subst get_lines_append) simp_all
  with assms show ?thesis by (simp add: audit_append_def audit_record_def)
qed

end
