(* ===== verification/Audit_Secrets.thy ===== *)
theory Audit_Secrets
  imports Audit_Trail
begin

text \<open>
  The redaction of \<open>src/core/json.cpp\<close> together with the bounds of \<open>src/session/session_service.cpp\<close>:
  \<open>bound_string\<close> redacts first and cuts afterwards, and a cut may go through a replacement. The first part
  shows what a pattern can still match in such a text, once for both patterns in the locale of \<open>Redaction\<close>;
  the second that every event of a session only holds such texts.
\<close>

section \<open>Redacted, then cut\<close>

lemma part_of: "w = d @ e \<Longrightarrow> length d \<le> length w \<and> d = take (length d) w"
  by simp

context secret_pattern
begin

lemma key_sep_before_marker:
  assumes "key_sep sep (x @ mk) p" "\<forall>c \<in> set mk. \<not> is_space c \<and> c \<noteq> sep"
  shows "p \<le> length x"
proof (rule ccontr)
  assume long: "\<not> p \<le> length x"
  from assms(1) obtain w a b r where t: "x @ mk = (w @ a @ sep # b) @ r" "list_all is_space b"
      "p = length (w @ a @ sep # b)"
    unfolding key_sep_def by auto
  let ?g = "w @ a @ sep # b"
  have "last ?g = (if b = [] then sep else last b)" by simp
  then have "is_space (last ?g) \<or> last ?g = sep"
    using t(2) by (auto simp: list_all_iff)
  moreover have "?g = x @ take (p - length x) mk"
    using arg_cong [OF t(1), of "take p"] t(3) long by simp
  moreover have "take (p - length x) mk \<noteq> []"
  proof -
    have "p \<le> length (x @ mk)" using assms(1) key_sep_pos by blast
    with long show ?thesis by auto
  qed
  ultimately have "is_space (last (take (p - length x) mk)) \<or> last (take (p - length x) mk) = sep"
    by simp
  moreover have "last (take (p - length x) mk) \<in> set mk"
    using \<open>take (p - length x) mk \<noteq> []\<close> by (meson in_set_takeD last_in_set)
  ultimately show False using assms(2) by blast
qed

lemma key_sep_extend:
  assumes "key_sep sep (x @ y) n" "n \<le> length x" "list_all is_space (drop n x)"
  shows "key_sep sep (x @ z) (length x)"
proof -
  from assms(1) obtain w a b r where k: "x @ y = (w @ a @ sep # b) @ r" "map to_lower w \<in> set secret_words"
      "list_all is_space a" "list_all is_space b" "n = length (w @ a @ sep # b)"
    unfolding key_sep_def by auto
  have "take n x = w @ a @ sep # b" using arg_cong [OF k(1), of "take n"] k(5) assms(2) by simp
  then have x: "x = w @ a @ sep # b @ drop n x" using append_take_drop_id [of n x] by simp
  then have "x @ z = w @ a @ sep # (b @ drop n x) @ z" by (metis append_Cons append_assoc)
  moreover have "length x = length (w @ a @ sep # (b @ drop n x))" using x by (metis append_Cons append_assoc)
  moreover have "list_all is_space (b @ drop n x)" using k(4) assms(3) by simp
  ultimately show ?thesis using k(2,3) unfolding key_sep_def by blast
qed

text \<open>
  A clean text that is cut anywhere and ended by a marker without separators, white space and
  bytes that stop a value: a match finds the replacement, or a part of it and the marker.
\<close>

lemma clean_cut:
  assumes clean: "clean r" and mk: "\<forall>c \<in> set mk. \<not> is_space c \<and> c \<noteq> sep \<and> \<not> stop c" "mk \<noteq> []"
    and match: "pattern_match pat (drop j (take k r @ mk)) = Some (n, m)"
  shows "take m (drop n (drop j (take k r @ mk))) = redacted
    \<or> (\<exists>i \<le> length redacted. take m (drop n (drop j (take k r @ mk))) = take i redacted @ mk)"
proof -
  define x where "x = drop j (take k r)"
  define mk' where "mk' = drop (j - length (take k r)) mk"
  have mk': "\<forall>c \<in> set mk'. \<not> is_space c \<and> c \<noteq> sep \<and> \<not> stop c"
    using mk(1) by (auto simp: mk'_def dest: in_set_dropD)
  have t: "drop j (take k r @ mk) = x @ mk'" by (simp add: x_def mk'_def)
  from match have n: "key_sep sep (x @ mk') n" "m = value_length (x @ mk') n"
    and longest: "\<And>n'. key_sep sep (x @ mk') n' \<Longrightarrow> 0 < value_length (x @ mk') n' \<Longrightarrow> n' \<le> n"
    and pos: "0 < value_length (x @ mk') n"
    unfolding t pattern_match_Some by blast+
  have nx: "n \<le> length x" by (rule key_sep_before_marker [OF n(1)]) (use mk' in blast)
  moreover have "0 < n" using n(1) key_sep_pos by blast
  ultimately have j: "j < length (take k r)" by (auto simp: x_def)
  then have same: "mk' = mk" by (simp add: mk'_def)
  obtain y where y: "drop j r = x @ y"
    using j by (metis append_take_drop_id drop_append diff_is_0_eq drop_0 less_imp_le x_def)
  have found: "take m (drop n (x @ mk)) = takeWhile (\<lambda>c. \<not> stop c) (drop n x @ mk)"
    using nx unfolding n(2) same by (simp only: takeWhile_eq_take [symmetric]) simp
  show ?thesis
  proof (cases "n = length x")
    case True
    have "takeWhile (\<lambda>c. \<not> stop c) mk = mk" using mk(1) by simp
    with True found have "take m (drop n (x @ mk)) = take 0 redacted @ mk" by simp
    then show ?thesis unfolding t same by blast
  next
    case False
    with nx have n': "n < length x" by simp
    have key: "key_sep sep (x @ y) n" using key_sep_prefix [OF n(1) nx] .
    have vx: "0 < value_length (x @ y) n" using pos unfolding value_length_append [OF n'] .
    have "p \<le> n" if p: "key_sep sep (x @ y) p" "0 < value_length (x @ y) p" for p
    proof (rule ccontr)
      assume np: "\<not> p \<le> n"
      show False
      proof (cases "p < length x")
        case True
        have "key_sep sep (x @ mk') p" using key_sep_prefix [OF p(1)] True by simp
        moreover have "0 < value_length (x @ mk') p"
          using p(2) unfolding value_length_append [OF True] .
        ultimately show False using longest np by blast
      next
        case False
        have "is_space c" if "c \<in> set (drop n x)" for c
        proof -
          from that obtain i where i: "i < length (drop n x)" "c = drop n x ! i" by (metis in_set_conv_nth)
          then have "c = (x @ y) ! (n + i)" using nx by (simp add: nth_append less_diff_conv add.commute)
          moreover have "is_space ((x @ y) ! (n + i))"
            by (rule key_sep_between [OF key p(1)]) (use i False in simp_all)
          ultimately show ?thesis by simp
        qed
        then have "key_sep sep (x @ mk') (length x)"
          using key_sep_extend [OF key nx] by (simp add: list_all_iff)
        moreover have "0 < value_length (x @ mk') (length x)"
          using mk unfolding same by (cases mk) simp_all
        ultimately show False using longest n' by fastforce
      qed
    qed
    with key vx have "pattern_match pat (drop j r) = Some (n, value_length (x @ y) n)"
      unfolding y pattern_match_Some by blast
    with clean have "take (value_length (x @ y) n) (drop n (x @ y)) = redacted"
      unfolding clean_def by (metis y)
    then have red: "takeWhile (\<lambda>c. \<not> stop c) (drop n x @ y) = redacted"
      using nx by (simp only: takeWhile_eq_take [symmetric]) simp
    show ?thesis
    proof (cases "\<exists>c \<in> set (drop n x). stop c")
      case True
      then have "takeWhile (\<lambda>c. \<not> stop c) (drop n x @ y) = takeWhile (\<lambda>c. \<not> stop c) (drop n x @ mk)"
        by (metis takeWhile_append1)
      with red found show ?thesis unfolding t same by simp
    next
      case False
      then have all: "\<And>c. c \<in> set (drop n x) \<Longrightarrow> \<not> stop c" by blast
      then have "takeWhile (\<lambda>c. \<not> stop c) (drop n x @ y) = drop n x @ takeWhile (\<lambda>c. \<not> stop c) y"
        by (rule takeWhile_append2)
      with red have "redacted = drop n x @ takeWhile (\<lambda>c. \<not> stop c) y" by (rule subst)
      note part = part_of [OF this]
      have "takeWhile (\<lambda>c. \<not> stop c) (drop n x @ mk) = drop n x @ mk"
        unfolding takeWhile_eq_all_conv set_append using all mk(1) by blast
      with found have "take m (drop n (x @ mk)) = drop n x @ mk" by (rule trans)
      also have "drop n x @ mk = take (length (drop n x)) redacted @ mk"
        by (rule arg_cong [where f = "\<lambda>d. d @ mk", OF conjunct2 [OF part]])
      finally show ?thesis using part unfolding t same by blast
    qed
  qed
qed

end


section \<open>The texts of the session\<close>

text \<open>
  What is left of secrets in a text the session audits: whatever the assignment or the colon pattern still
  matches has as its value the replacement, or the part of it that was not cut off and the marker.
\<close>

definition hides_secrets :: "string \<Rightarrow> bool" where
  "hides_secrets s \<longleftrightarrow>
     (\<forall>pat \<in> {assignment_pattern, colon_pattern}. \<forall>j n m.
        pattern_match pat (drop j s) = Some (n, m) \<longrightarrow>
          take m (drop n (drop j s)) = redacted
          \<or> (\<exists>i \<le> length redacted. take m (drop n (drop j s)) = take i redacted @ audit_marker))"

lemma marker_bytes:
  "\<forall>c \<in> set audit_marker. \<not> is_space c \<and> c \<noteq> CHR ''='' \<and> \<not> assignment_stop c"
  "\<forall>c \<in> set audit_marker. \<not> is_space c \<and> c \<noteq> CHR '':'' \<and> \<not> colon_stop c"
  by (simp_all add: audit_marker_def is_space_def assignment_stop_def colon_stop_def)

lemma hides_secrets_cut: "hides_secrets (take k (redact_likely_secret s) @ audit_marker)"
proof -
  have "audit_marker \<noteq> []" by (simp add: audit_marker_def)
  from assignment.clean_cut [OF redact_assignment_clean marker_bytes(1) this]
    colon.clean_cut [OF redact_colon_clean marker_bytes(2) this]
  show ?thesis
    unfolding hides_secrets_def assignment_pattern_def colon_pattern_def by blast
qed

lemma hides_secrets_redacted: "hides_secrets (redact_likely_secret s)"
  using redact_assignment_clean [of s] redact_colon_clean [of s]
  unfolding hides_secrets_def assignment_pattern_def colon_pattern_def assignment.clean_def colon.clean_def
  by blast

lemma hides_secrets_no_separator:
  assumes "CHR ''='' \<notin> set s" "CHR '':'' \<notin> set s"
  shows "hides_secrets s"
proof -
  have "\<not> key_sep sep (drop j s) n" if "sep = CHR ''='' \<or> sep = CHR '':''" for sep j n
  proof
    assume "key_sep sep (drop j s) n"
    then have "sep \<in> set (drop j s)" unfolding key_sep_def by auto
    with that assms show False by (auto dest: in_set_dropD)
  qed
  then show ?thesis
    by (auto simp: hides_secrets_def assignment_pattern_def colon_pattern_def
        assignment.pattern_match_Some colon.pattern_match_Some)
qed

lemma hides_secrets_bound_string: "hides_secrets (bound_string s n)"
proof -
  have "set (take n audit_marker) \<subseteq> set audit_marker" by (rule set_take_subset)
  then have "hides_secrets (take n audit_marker)"
    using marker_bytes by (intro hides_secrets_no_separator) blast+
  then show ?thesis
    by (simp add: bound_string_def Let_def substr_def hides_secrets_cut hides_secrets_redacted)
qed

lemma hides_secrets_decimal: "hides_secrets (decimal n)"
  by (rule hides_secrets_no_separator) (auto dest!: decimal_digits simp: is_digit_def)

lemma hides_secrets_words:
  "hides_secrets (bool_text b)" "hides_secrets (status_to_string s)" "hides_secrets (risk_to_string k)"
  "hides_secrets ''ok''"
  "hides_secrets ''model response received''" "hides_secrets ''model failed with unknown exception''"
  by (rule hides_secrets_no_separator; cases s; cases k; simp add: bool_text_def)+

lemmas hides_secrets_texts = hides_secrets_bound_string hides_secrets_decimal hides_secrets_words
  hides_secrets_bound_string [of _ 2048, folded bound_audit_string_def]

section \<open>Every event of a session\<close>

text \<open>
  The summary and the details of an event of the session service. The daemon's own events, of type
  \<open>protocol.error\<close>, are bounded by its own function, which does not redact.
\<close>

definition event_hides_secrets :: "audit_event \<Rightarrow> bool" where
  "event_hides_secrets e \<longleftrightarrow> ae_type e = ''protocol.error''
     \<or> hides_secrets (ae_summary e) \<and> (\<forall>(k, v) \<in> set (ae_details e). hides_secrets v)"

lemma event_hides_secrets_new:
  assumes "hides_secrets summ" "list_all (\<lambda>(k, v). hides_secrets v) kvs"
  shows "event_hides_secrets (new_event env st actor ty summ (smap_of kvs))"
  using assms set_smap_of [of kvs] by (fastforce simp: event_hides_secrets_def new_event_def list_all_iff)

text \<open>The events between two states satisfy a predicate.\<close>

definition emits ::
  "(audit_event \<Rightarrow> bool) \<Rightarrow> session_env \<Rightarrow> session_state \<Rightarrow> session_state \<Rightarrow> bool" where
  "emits P env st st' \<longleftrightarrow> (\<exists>xs. trail env st xs st' \<and> list_all P (whole_events xs))"

lemma emits_refl [simp, intro]: "emits P env st st"
  unfolding emits_def by (intro exI [of _ "[]"]) simp

lemma emits_trans: "emits P env st st1 \<Longrightarrow> emits P env st1 st2 \<Longrightarrow> emits P env st st2"
  unfolding emits_def by (metis list_all_append trail_append whole_events_append)

lemma emit_emits:
  assumes "emit env path actor ty summ details st = (res, st')"
    and "\<And>ds. details = Inr ds \<Longrightarrow> P (new_event env st actor ty summ ds)"
  shows "emits P env st st'"
  using emit_emission [OF assms(1)] assms(2) unfolding emits_def
  by (fastforce intro: trail_one)

lemma bound_json_hides: "bound_json jl j = Inr s \<Longrightarrow> hides_secrets s"
  by (auto simp: bound_json_def bind_result_eq_Inr hides_secrets_texts)

lemma call_tool_emits:
  "call_tool env svc m q actor st = (res, st') \<Longrightarrow> emits event_hides_secrets env st st'"
  by (auto simp: call_tool_def Let_def tool_audit_details_def bind_result_eq_Inr hides_secrets_texts
      split: prod.splits intro!: event_hides_secrets_new elim!: emit_emits) (erule bound_json_hides)+

lemma model_failed_emits:
  "model_failed env path prompt q actor es e st = (res, st') \<Longrightarrow> emits event_hides_secrets env st st'"
  by (auto simp: model_failed_def Let_def model_error_details_def bind_result_eq_Inr hides_secrets_texts
      split: prod.splits if_splits intro!: event_hides_secrets_new elim!: emit_emits)
    (erule bound_json_hides)+

lemma model_response_emits:
  "emit env path actor ''model.response'' ''model response received'' (Inr (model_response_details q answer)) st
     = (res, st') \<Longrightarrow> emits event_hides_secrets env st st'"
  by (erule emit_emits)
    (auto simp: model_response_details_def hides_secrets_texts intro!: event_hides_secrets_new)

lemma ask_model_emits:
  "ask_model env path complete prompt q actor es st = (res, st') \<Longrightarrow> emits event_hides_secrets env st st'"
  by (auto simp: ask_model_def split: sum.splits prod.splits
      dest!: model_failed_emits model_response_emits intro: emits_trans)

lemma ask_details_emit:
  "emit env path actor ty (bound_audit_string prompt) (model_skipped_details jl prompt q r) st = (res, st') \<Longrightarrow>
     emits event_hides_secrets env st st'"
  "emit env path actor ty (bound_audit_string prompt) (model_context_details jl prompt q es) st = (res, st') \<Longrightarrow>
     emits event_hides_secrets env st st'"
  by (auto simp: model_skipped_details_def model_context_details_def bind_result_eq_Inr hides_secrets_texts
      intro!: event_hides_secrets_new elim!: emit_emits)
    (erule bound_json_hides)+

lemma ask_with_tool_emits:
  "ask_with_tool env svc m complete prompt q actor st = (res, st') \<Longrightarrow> emits event_hides_secrets env st st'"
  by (auto simp: ask_with_tool_def Let_def split: sum.splits prod.splits if_splits
      dest!: call_tool_emits ask_model_emits ask_details_emit intro: emits_trans)

lemma protocol_error_emits:
  "audit_protocol_error env path i msg st = (res, st') \<Longrightarrow> emits event_hides_secrets env st st'"
  unfolding audit_protocol_error_def
  by (erule emit_emits) (simp add: event_hides_secrets_def new_event_def)

lemma handle_method_emits:
  "handle_method env svc m complete i request st = (res, st') \<Longrightarrow> emits event_hides_secrets env st st'"
  by (auto simp: handle_method_def Let_def split: sum.splits prod.splits if_splits
      dest: protocol_error_emits ask_with_tool_emits call_tool_emits)

lemma handle_request_emits:
  assumes "handle_request env svc m complete input st = (res, st')"
  shows "emits event_hides_secrets env st st'"
proof -
  obtain i x st1 where t: "handle_try env svc m complete input st = (i, x, st1)" by (metis prod_cases3)
  then have "emits event_hides_secrets env st st1"
    by (auto simp: handle_try_def split: sum.splits if_splits dest: handle_method_emits)
  with assms t show ?thesis
    by (auto simp: handle_request_def Let_def split: prod.splits sum.splits if_splits
        dest!: protocol_error_emits intro: emits_trans)
qed

lemma reachable_emits: "reachable_session env svc st0 st \<Longrightarrow> emits event_hides_secrets env st0 st"
  by (induction rule: reachable_session.induct) (auto intro: emits_trans handle_request_emits)

lemma reachable_log_hides:
  assumes "reachable_session env svc st0 st" "ss_log st0 = []"
    and "writes_whole_records env" "reads_back_lines (env_json env)"
  obtains es where "read_audit (env_json env) (ss_log st) = Inr es" "list_all event_hides_secrets es"
proof -
  obtain xs where t: "trail env st0 xs st" "list_all event_hides_secrets (whole_events xs)"
    using reachable_emits [OF assms(1)] by (auto simp: emits_def)
  obtain rs where "list_all2 (\<lambda>e r. audit_record (env_json env) e = Inr r) (whole_events xs) rs"
    "ss_log st = concat rs"
    using trail_log [OF t(1) assms(3)] assms(2) by auto
  then have "read_audit (env_json env) (ss_log st) = Inr (whole_events xs)"
    using read_audit_records assms(4) by metis
  with t(2) that show thesis by blast
qed

end
