(* ===== verification/Json_Model.thy ===== *)
theory Json_Model
  imports Json_Value
begin

text \<open>
  An instance of the parameter \<open>json_lib\<close>: a printer and a parser of a simple prefix code for JSON
  values. It is no part of the program and stands for no code; it shows that the laws the development
  assumes of the JSON library (every value is printed, and what is printed is read back) can hold
  together, and the witnesses compute with it.
\<close>

fun print_text :: "string \<Rightarrow> string \<Rightarrow> string" where
  "print_text [] rest = CHR ''0'' # rest"
| "print_text (c # cs) rest =
     (if c = newline then CHR ''2'' # print_text cs rest else CHR ''1'' # c # print_text cs rest)"

fun read_text :: "string \<Rightarrow> (string \<times> string) option" where
  "read_text (t # rest) =
     (if t = CHR ''0'' then Some ([], rest)
      else if t = CHR ''2'' then map_option (\<lambda>(cs, r). (newline # cs, r)) (read_text rest)
      else case rest of
             [] \<Rightarrow> None
           | c # rest' \<Rightarrow> map_option (\<lambda>(cs, r). (c # cs, r)) (read_text rest'))"
| "read_text [] = None"

lemma read_print_text: "read_text (print_text s rest) = Some (s, rest)"
  by (induction s) simp_all

fun print_json :: "json \<Rightarrow> string \<Rightarrow> string"
  and print_list :: "json list \<Rightarrow> string \<Rightarrow> string"
  and print_members :: "(string \<times> json) list \<Rightarrow> string \<Rightarrow> string" where
  "print_json JNull rest = CHR ''n'' # rest"
| "print_json (JBool b) rest = (if b then CHR ''t'' else CHR ''f'') # rest"
| "print_json (JNumber s) rest = CHR ''d'' # print_text s rest"
| "print_json (JString s) rest = CHR ''s'' # print_text s rest"
| "print_json (JArray xs) rest = CHR ''a'' # print_list xs rest"
| "print_json (JObject m) rest = CHR ''o'' # print_members m rest"
| "print_list [] rest = CHR ''0'' # rest"
| "print_list (x # xs) rest = CHR ''1'' # print_json x (print_list xs rest)"
| "print_members [] rest = CHR ''0'' # rest"
| "print_members ((k, v) # m) rest = CHR ''1'' # print_text k (print_json v (print_members m rest))"

text \<open>The readers, with the length of the input as fuel.\<close>

fun read_json :: "nat \<Rightarrow> string \<Rightarrow> (json \<times> string) option"
  and read_list :: "nat \<Rightarrow> string \<Rightarrow> (json list \<times> string) option"
  and read_members :: "nat \<Rightarrow> string \<Rightarrow> ((string \<times> json) list \<times> string) option" where
  "read_json (Suc n) (c # rest) =
     (if c = CHR ''n'' then Some (JNull, rest)
      else if c = CHR ''t'' then Some (JBool True, rest)
      else if c = CHR ''f'' then Some (JBool False, rest)
      else if c = CHR ''d'' then map_option (\<lambda>(s, r). (JNumber s, r)) (read_text rest)
      else if c = CHR ''s'' then map_option (\<lambda>(s, r). (JString s, r)) (read_text rest)
      else if c = CHR ''a'' then map_option (\<lambda>(xs, r). (JArray xs, r)) (read_list n rest)
      else map_option (\<lambda>(m, r). (JObject m, r)) (read_members n rest))"
| "read_json _ _ = None"
| "read_list (Suc n) (c # rest) =
     (if c = CHR ''0'' then Some ([], rest)
      else case read_json n rest of
             None \<Rightarrow> None
           | Some (x, r) \<Rightarrow> map_option (\<lambda>(xs, r'). (x # xs, r')) (read_list n r))"
| "read_list _ _ = None"
| "read_members (Suc n) (c # rest) =
     (if c = CHR ''0'' then Some ([], rest)
      else case read_text rest of
             None \<Rightarrow> None
           | Some (k, r) \<Rightarrow>
               (case read_json n r of
                  None \<Rightarrow> None
                | Some (v, r') \<Rightarrow> map_option (\<lambda>(m, r''). ((k, v) # m, r'')) (read_members n r')))"
| "read_members _ _ = None"

lemma length_print_text: "length rest < length (print_text s rest)"
  by (induction s) auto

text \<open>A printed value is a single line.\<close>

lemma newline_print_text [simp]: "newline \<in> set (print_text s rest) \<longleftrightarrow> newline \<in> set rest"
  by (induction s) auto

lemma length_print:
  "length rest < length (print_json j rest)"
  "length rest < length (print_list xs rest)"
  "length rest < length (print_members m rest)"
proof (induction j rest and xs rest and m rest rule: print_json_print_list_print_members.induct)
  case (10 key v m rest)
  with length_print_text [of "print_json v (print_members m rest)" key] show ?case by simp
qed (use length_print_text in \<open>auto simp: less_SucI\<close>)

lemma newline_print [simp]:
  "newline \<in> set (print_json j rest) \<longleftrightarrow> newline \<in> set rest"
  "newline \<in> set (print_list xs rest) \<longleftrightarrow> newline \<in> set rest"
  "newline \<in> set (print_members m rest) \<longleftrightarrow> newline \<in> set rest"
  by (induction j rest and xs rest and m rest rule: print_json_print_list_print_members.induct) auto

lemma read_print:
  "length (print_json j rest) \<le> n \<Longrightarrow> read_json n (print_json j rest) = Some (j, rest)"
  "length (print_list xs rest) \<le> n \<Longrightarrow> read_list n (print_list xs rest) = Some (xs, rest)"
  "length (print_members m rest) \<le> n \<Longrightarrow> read_members n (print_members m rest) = Some (m, rest)"
proof (induction j rest and xs rest and m rest arbitrary: n and n and n
    rule: print_json_print_list_print_members.induct)
  case (8 x xs rest)
  then obtain k where n: "n = Suc k" by (cases n) auto
  have "length (print_list xs rest) \<le> k"
    using 8(3) n length_print(1) [of "print_list xs rest" x] by simp
  with 8 n show ?case by simp
next
  case (10 key v m rest)
  then obtain k where n: "n = Suc k" by (cases n) auto
  have "length (print_json v (print_members m rest)) \<le> k"
    using 10(3) n length_print_text [of "print_json v (print_members m rest)" key] by simp
  moreover then have "length (print_members m rest) \<le> k"
    using length_print(1) [of "print_members m rest" v] by simp
  ultimately show ?case using 10 n by (simp add: read_print_text)
qed (case_tac n; simp add: read_print_text)+

definition model_json_lib :: json_lib where
  "model_json_lib =
     \<lparr>json_dump = (\<lambda>j. Inr (print_json j [])),
      json_parse = (\<lambda>s. case read_json (length s) s of
         Some (j, []) \<Rightarrow> Inr j | _ \<Rightarrow> Inl (JsonExn JsonParseError)),
      json_what = (\<lambda>e. ''json'')\<rparr>"

lemma model_json_lib_laws:
  "json_dump model_json_lib j = Inr (print_json j [])"
  "json_dump model_json_lib j = Inr s \<Longrightarrow> json_parse model_json_lib s = Inr j"
  "json_parse model_json_lib s = Inl e \<Longrightarrow> is_std_exception e"
  by (auto simp: model_json_lib_def read_print split: option.splits list.splits)

end
