(* ===== verification/Kasli_Cli.thy ===== *)
theory Kasli_Cli
  imports Request_Handler Json_Model
begin

text \<open>
  \<open>src/kasli-cli/main.cpp\<close>: the command line client. The options come parsed from CLI11, a library the
  build fetches, with its exclusions already checked; the request goes out through
  \<open>request_with_optional_user_service_start\<close>, an argument here. What the process prints and its exit
  code are the result; an exception outside the two \<open>try\<close> blocks ends the process.
\<close>

section \<open>The code\<close>

record cli_options =
  co_socket_path :: string
  co_socket_given :: bool
  co_list_tools :: bool
  co_call_tool :: string
  co_ask_prompt :: string
  co_ask_tool :: string
  co_tool_params :: "string list"

datatype cli_outcome =
    CliExit int string string
  | CliAborts exn

fun parse_tool_params :: "string list \<Rightarrow> string smap \<Rightarrow> string smap result" where
  "parse_tool_params [] params = Inr params"
| "parse_tool_params (item # encoded) params =
     (case find_char (CHR ''='') item of
        None \<Rightarrow> Inl (InvalidArgument ''--param must use non-empty key=value form'')
      | Some i \<Rightarrow>
          if i = 0 then Inl (InvalidArgument ''--param must use non-empty key=value form'')
          else parse_tool_params encoded (smap_assign (take i item) (drop (i + 1) item) params))"

text \<open>The request made of the options, or the text printed before the client gives up.\<close>

definition cli_request :: "string \<Rightarrow> cli_options \<Rightarrow> string smap \<Rightarrow> string + json" where
  "cli_request help opts params =
     (if co_list_tools opts
      then if params \<noteq> [] then Inl ''--param requires --call-tool or --ask''
           else Inr (make_tools_list_request ''cli-1'')
      else if co_call_tool opts \<noteq> []
      then Inr (make_tool_call_request ''cli-2''
             \<lparr>req_id = ''cli-tool-1'', req_tool_name = co_call_tool opts, req_risk = ReadOnly,
              req_params = params\<rparr>)
      else if co_ask_prompt opts \<noteq> []
      then Inr (make_ask_request ''cli-ask-1'' (co_ask_prompt opts)
             \<lparr>req_id = ''cli-ask-tool-1'', req_tool_name = co_ask_tool opts, req_risk = ReadOnly,
              req_params = params\<rparr>)
      else Inl help)"

definition cli_main ::
  "json_lib \<Rightarrow> string \<Rightarrow> (string \<Rightarrow> string \<Rightarrow> bool \<Rightarrow> string result) \<Rightarrow> cli_options \<Rightarrow> cli_outcome" where
  "cli_main jl help send opts =
     (case parse_tool_params (co_tool_params opts) [] of
        Inl e \<Rightarrow> CliExit 1 [] (what (json_what jl) e @ [newline])
      | Inr params \<Rightarrow>
          (case cli_request help opts params of
             Inl err \<Rightarrow> CliExit 1 [] (err @ [newline])
           | Inr j \<Rightarrow>
               (case json_dump jl j of
                  Inl e \<Rightarrow> CliAborts e
                | Inr request \<Rightarrow>
                    (case send (co_socket_path opts) request (\<not> co_socket_given opts) of
                       Inr reply \<Rightarrow> CliExit 0 (reply @ [newline]) []
                     | Inl e \<Rightarrow>
                         if is_std_exception e then CliExit 1 [] (what (json_what jl) e @ [newline])
                         else CliAborts e))))"

section \<open>Parameters\<close>

definition encode_param :: "string \<times> string \<Rightarrow> string" where
  "encode_param kv = fst kv @ CHR ''='' # snd kv"

definition param_key_ok :: "string \<Rightarrow> bool" where
  "param_key_ok k \<longleftrightarrow> k \<noteq> [] \<and> CHR ''='' \<notin> set k"

lemma parse_encoded_params:
  "\<forall>kv \<in> set kvs. param_key_ok (fst kv) \<Longrightarrow>
     parse_tool_params (map encode_param kvs) params = Inr (fold (\<lambda>(k, v) m. smap_assign k v m) kvs params)"
  by (induction kvs arbitrary: params) (auto simp: encode_param_def param_key_ok_def)

text \<open>Every accepted parameter list is of this form.\<close>

lemma parse_tool_params_Inr:
  "parse_tool_params items params = Inr params' \<Longrightarrow>
     \<exists>kvs. items = map encode_param kvs \<and> (\<forall>kv \<in> set kvs. param_key_ok (fst kv))"
proof (induction items arbitrary: params)
  case (Cons item items)
  then obtain i where i: "find_char (CHR ''='') item = Some i" "i \<noteq> 0"
    and rest: "parse_tool_params items (smap_assign (take i item) (drop (i + 1) item) params) = Inr params'"
    by (auto split: option.splits if_splits)
  from Cons.IH [OF rest] obtain kvs where kvs: "items = map encode_param kvs"
    "\<forall>kv \<in> set kvs. param_key_ok (fst kv)" by blast
  have "item = encode_param (take i item, drop (Suc i) item)"
    using find_char_split [OF i(1)] by (simp add: encode_param_def)
  moreover have "param_key_ok (take i item)"
    using find_char_Some [OF i(1)] i(2) by (auto simp: param_key_ok_def)
  ultimately have "item # items = map encode_param ((take i item, drop (Suc i) item) # kvs)
      \<and> (\<forall>kv \<in> set ((take i item, drop (Suc i) item) # kvs). param_key_ok (fst kv))"
    using kvs by simp
  then show ?case by (rule exI)
qed simp

lemma dispatched_call:
  assumes "i \<noteq> ''unknown''" "json_parse (env_json env) l = Inr (make_tool_call_request i q)"
    and "call_tool env svc m q ''cli'' st = (Inr r, st')"
    and "json_dump (env_json env) (make_tool_call_response i r) = Inr reply"
  shows "handle_request env svc m complete l st = (Inr reply, st')"
  using assms
  by (simp add: handle_request_def handle_try_def request_id_or_unknown_def make_tool_call_request_def
      handle_method_def request.from_to)

lemma dispatched_ask:
  assumes "i \<noteq> ''unknown''" "json_parse (env_json env) l = Inr (make_ask_request i prompt q)"
    and "ask_with_tool env svc m complete prompt q ''cli'' st = (Inr a, st')"
    and "json_dump (env_json env) (make_ask_response i (ask_ok a) (ask_answer a) (ask_error a)) = Inr reply"
  shows "handle_request env svc m complete l st = (Inr reply, st')"
  using assms
  by (simp add: handle_request_def handle_try_def request_id_or_unknown_def make_ask_request_def
      handle_method_def request.from_to)

text \<open>The client prints the reply to the request made of its options.\<close>

lemma cli_main_call:
  assumes "\<not> co_list_tools opts" "co_call_tool opts \<noteq> []"
    and "parse_tool_params (co_tool_params opts) [] = Inr params"
    and "json_dump jl (make_tool_call_request ''cli-2'' \<lparr>req_id = ''cli-tool-1'',
           req_tool_name = co_call_tool opts, req_risk = ReadOnly, req_params = params\<rparr>) = Inr l"
    and "send (co_socket_path opts) l (\<not> co_socket_given opts) = Inr reply"
  shows "cli_main jl help send opts = CliExit 0 (reply @ [newline]) []"
  using assms by (simp add: cli_main_def cli_request_def)

lemma cli_main_ask:
  assumes "\<not> co_list_tools opts" "co_call_tool opts = []" "co_ask_prompt opts \<noteq> []"
    and "parse_tool_params (co_tool_params opts) [] = Inr params"
    and "json_dump jl (make_ask_request ''cli-ask-1'' (co_ask_prompt opts) \<lparr>req_id = ''cli-ask-tool-1'',
           req_tool_name = co_ask_tool opts, req_risk = ReadOnly, req_params = params\<rparr>) = Inr l"
    and "send (co_socket_path opts) l (\<not> co_socket_given opts) = Inr reply"
  shows "cli_main jl help send opts = CliExit 0 (reply @ [newline]) []"
  using assms by (simp add: cli_main_def cli_request_def)

section \<open>An instance\<close>

text \<open>With a library that prints every value and a disk that works, a call is always answered.\<close>

lemma call_tool_answers:
  assumes "\<And>j. \<exists>s. json_dump (env_json env) j = Inr s" "\<And>n. env_disk env n = DiskOk"
  shows "\<exists>st'. call_tool env svc m q actor st = (Inr (tool_outcome (env_json env) svc m q), st')"
proof -
  have b: "\<exists>s. bound_json (env_json env) j = Inr s" for j
    using assms(1) [of j] by (auto simp: bound_json_def)
  obtain ds where d: "tool_audit_details (env_json env) q (decide (svc_policy svc) q)
      (tool_outcome (env_json env) svc m q) = Inr ds"
    using b [of "bounded_params_json (req_params q)"]
      b [of "evidence_refs_json (resp_evidence (tool_outcome (env_json env) svc m q))"]
    by (auto simp: tool_audit_details_def)
  obtain r where "audit_record (env_json env) (new_event env st actor ''tool.call''
      (bound_audit_string (req_tool_name q)) ds) = Inr r"
    using assms(1) by (metis audit_record_def bind_result_simps(2))
  with d assms(2) show ?thesis
    by (simp add: call_tool_def emit_def audit_append_ok)
qed

definition cli_env :: session_env where
  "cli_env = sample_env\<lparr>env_json := model_json_lib\<rparr>"

end
