(* ===== verification/Default_Paths.thy ===== *)
theory Default_Paths
  imports Number_Text
begin

text \<open>
  \<open>src/app/default_paths.cpp\<close>: where the socket and the audit log are when nothing else is said. The
  environment, the effective user id and \<open>std::filesystem::is_directory\<close> are arguments.
\<close>

text \<open>\<open>std::filesystem::path(dir) / name\<close> for a relative name.\<close>

definition path_append :: "string \<Rightarrow> string \<Rightarrow> string" where
  "path_append dir name =
     (if dir = [] \<or> last dir = CHR ''/'' then dir @ name else dir @ CHR ''/'' # name)"

definition getenv_value :: "(string \<Rightarrow> string option) \<Rightarrow> string \<Rightarrow> string option" where
  "getenv_value raw key = (case raw key of None \<Rightarrow> None | Some v \<Rightarrow> if v = [] then None else Some v)"

definition linux_user_runtime_dir :: "(string \<Rightarrow> bool) \<Rightarrow> nat \<Rightarrow> string option" where
  "linux_user_runtime_dir is_directory euid =
     (let path = path_append ''/run/user'' (decimal euid)
      in if is_directory path then Some path else None)"

definition default_socket_path_from_env :: "(string \<Rightarrow> string option) \<Rightarrow> string option \<Rightarrow> string" where
  "default_socket_path_from_env env runtime_dir =
     (case env ''XDG_RUNTIME_DIR'' of
        Some dir \<Rightarrow>
          if dir \<noteq> [] then path_append dir ''kaslid.sock''
          else (case runtime_dir of Some d \<Rightarrow> path_append d ''kaslid.sock'' | None \<Rightarrow> ''kaslid.sock'')
      | None \<Rightarrow>
          (case runtime_dir of Some d \<Rightarrow> path_append d ''kaslid.sock'' | None \<Rightarrow> ''kaslid.sock''))"

definition default_audit_log_path_from_env :: "(string \<Rightarrow> string option) \<Rightarrow> string" where
  "default_audit_log_path_from_env env =
     (case env ''XDG_STATE_HOME'' of
        Some state_home \<Rightarrow> path_append (path_append state_home ''kasli'') ''audit.jsonl''
      | None \<Rightarrow>
          (case env ''HOME'' of
             Some home \<Rightarrow>
               path_append (path_append (path_append (path_append home ''.local'') ''state'') ''kasli'') ''audit.jsonl''
           | None \<Rightarrow> ''kasli-audit.jsonl''))"

definition default_socket_path :: "(string \<Rightarrow> string option) \<Rightarrow> (string \<Rightarrow> bool) \<Rightarrow> nat \<Rightarrow> string" where
  "default_socket_path raw is_directory euid =
     default_socket_path_from_env (getenv_value raw) (linux_user_runtime_dir is_directory euid)"

definition default_audit_log_path :: "(string \<Rightarrow> string option) \<Rightarrow> string" where
  "default_audit_log_path raw = default_audit_log_path_from_env (getenv_value raw)"

text \<open>
  The client and the daemon agree on the socket: it depends on \<open>XDG_RUNTIME_DIR\<close> alone where that is
  set, and otherwise on the runtime directory of the effective user.
\<close>

lemma default_socket_path_cases:
  "default_socket_path raw is_directory euid =
     (case getenv_value raw ''XDG_RUNTIME_DIR'' of
        Some dir \<Rightarrow> path_append dir ''kaslid.sock''
      | None \<Rightarrow>
          if is_directory (''/run/user/'' @ decimal euid)
          then ''/run/user/'' @ decimal euid @ ''/kaslid.sock'' else ''kaslid.sock'')"
proof -
  have "last (decimal euid) \<noteq> CHR ''/''"
    using decimal_digits [of "last (decimal euid)" euid] by (auto simp: is_digit_of_char)
  then have dir: "path_append ''/run/user'' (decimal euid) = ''/run/user/'' @ decimal euid"
    "path_append (''/run/user/'' @ decimal euid) ''kaslid.sock'' = ''/run/user/'' @ decimal euid @ ''/kaslid.sock''"
    by (simp_all add: path_append_def)
  have "getenv_value raw key \<noteq> Some []" for key
    by (auto simp: getenv_value_def split: option.splits)
  then show ?thesis
    by (auto simp only: default_socket_path_def default_socket_path_from_env_def linux_user_runtime_dir_def
        dir Let_def option.case if_True if_False simp_thms split: option.splits if_splits)
qed

lemma path_append_not_empty: "name \<noteq> [] \<Longrightarrow> path_append dir name \<noteq> []"
  by (simp add: path_append_def)

lemma default_audit_log_path_not_empty: "default_audit_log_path raw \<noteq> []"
  by (simp add: default_audit_log_path_def default_audit_log_path_from_env_def path_append_not_empty
      split: option.split)

end
