(* ===== verification/Daemon_Autostart.thy ===== *)
theory Daemon_Autostart
  imports Unix_Socket
begin

text \<open>
  \<open>src/app/daemon_autostart.cpp\<close>: the client's request, with one attempt to start the user service
  when the default socket is not there. The four dependencies of the source (request, start, existence
  check, sleep) are what the environment answers: the first request, the exit code of the start, and for
  each round of the waiting loop whether the socket exists and what a request gets. What is done is a
  trace. The waiting loop ends because the time waited grows to its bound.
\<close>

section \<open>The code\<close>

record autostart_env =
  as_first :: "string result"
  as_start :: int
  as_exists :: "nat \<Rightarrow> bool"
  as_retry :: "nat \<Rightarrow> string result"

datatype autostart_action = SendRequest | StartService | CheckSocket | SleepFor nat

definition start_command :: string where
  "start_command = ''systemctl --user start kaslid''"

definition status_command :: string where
  "status_command = ''systemctl --user status kaslid''"

definition is_startable_default_socket_error :: "errno \<Rightarrow> bool" where
  "is_startable_default_socket_error e \<longleftrightarrow> e = ENOENT \<or> e = ECONNREFUSED"

definition is_socket_not_ready_error :: "errno \<Rightarrow> bool" where
  "is_socket_not_ready_error e \<longleftrightarrow> e = ENOENT \<or> e = ECONNREFUSED"

definition daemon_start_error :: "string \<Rightarrow> exn" where
  "daemon_start_error reason =
     RuntimeError (reason @ ''. Inspect daemon status with: '' @ status_command)"

definition not_ready_error :: "string \<Rightarrow> string \<Rightarrow> exn" where
  "not_ready_error path last_error =
     daemon_start_error (''kaslid socket was not ready at '' @ path @ '' after `'' @ start_command @
       ''`: '' @ last_error)"

text \<open>
  One round of the loop: the result if it returns or throws, or the error to remember, and what was
  done.
\<close>

definition wait_round ::
  "autostart_env \<Rightarrow> nat \<Rightarrow> string \<Rightarrow> (string result + string) \<times> autostart_action list" where
  "wait_round env n last_error =
     (if \<not> as_exists env n then (Inr last_error, [CheckSocket])
      else case as_retry env n of
             Inr reply \<Rightarrow> (Inl (Inr reply), [CheckSocket, SendRequest])
           | Inl (ConnectExn e msg) \<Rightarrow>
               if \<not> is_socket_not_ready_error e
               then (Inl (Inl (ConnectExn e msg)), [CheckSocket, SendRequest])
               else (Inr msg, [CheckSocket, SendRequest])
           | Inl e \<Rightarrow> (Inl (Inl e), [CheckSocket, SendRequest]))"

definition max_wait :: nat where "max_wait = 2000"
definition poll_interval :: nat where "poll_interval = 100"

function wait_loop ::
  "autostart_env \<Rightarrow> string \<Rightarrow> nat \<Rightarrow> nat \<Rightarrow> string \<Rightarrow> string result \<times> autostart_action list" where
  "wait_loop env path n waited last_error =
     (if waited \<le> max_wait
      then case wait_round env n last_error of
             (Inl res, acts) \<Rightarrow> (res, acts)
           | (Inr last_error', acts) \<Rightarrow>
               if waited = max_wait then (Inl (not_ready_error path last_error'), acts)
               else
                 let sleep_duration = min poll_interval (max_wait - waited);
                     (res, more_acts) = wait_loop env path (Suc n) (waited + sleep_duration) last_error'
                 in (res, acts @ SleepFor sleep_duration # more_acts)
      else (Inl (not_ready_error path last_error), []))"
  by pat_completeness auto

termination
  by (relation "measure (\<lambda>(env, path, n, waited, last_error). Suc max_wait - waited)")
    (auto simp: max_wait_def poll_interval_def)

declare wait_loop.simps [simp del]

definition request_after_start :: "autostart_env \<Rightarrow> string \<Rightarrow> string result \<times> autostart_action list" where
  "request_after_start env path = wait_loop env path 0 0 ''socket path did not appear''"

definition request_with_optional_start ::
  "autostart_env \<Rightarrow> string \<Rightarrow> bool \<Rightarrow> string result \<times> autostart_action list" where
  "request_with_optional_start env path allow_autostart =
     (case as_first env of
        Inl (ConnectExn e first_error) \<Rightarrow>
          if \<not> allow_autostart \<or> \<not> is_startable_default_socket_error e
          then (Inl (ConnectExn e first_error), [SendRequest])
          else if as_start env \<noteq> 0
          then (Inl (daemon_start_error (''failed to run `'' @ start_command @
                  ''` after initial request error: '' @ first_error)), [SendRequest, StartService])
          else let (res, acts) = request_after_start env path
               in (res, SendRequest # StartService # acts)
      | res \<Rightarrow> (res, [SendRequest]))"

text \<open>The public entry: only Linux starts a service.\<close>

definition request_with_optional_user_service_start ::
  "bool \<Rightarrow> autostart_env \<Rightarrow> string \<Rightarrow> bool \<Rightarrow> string result \<times> autostart_action list" where
  "request_with_optional_user_service_start linux env path allow_autostart =
     request_with_optional_start env path (linux \<and> allow_autostart)"

section \<open>The waiting loop\<close>

definition slept :: "autostart_action list \<Rightarrow> nat" where
  "slept acts = sum_list (map (\<lambda>a. case a of SleepFor d \<Rightarrow> d | _ \<Rightarrow> 0) acts)"

lemma slept_simps [simp]:
  "slept [] = 0"
  "slept (SleepFor d # acts) = d + slept acts"
  "slept (SendRequest # acts) = slept acts"
  "slept (StartService # acts) = slept acts"
  "slept (CheckSocket # acts) = slept acts"
  "slept (acts @ acts') = slept acts + slept acts'"
  by (simp_all add: slept_def)

lemma wait_round_acts:
  "wait_round env n err = (out, acts) \<Longrightarrow>
     count_list acts CheckSocket = 1 \<and> count_list acts SendRequest \<le> 1 \<and> StartService \<notin> set acts
     \<and> slept acts = 0"
  by (auto simp: wait_round_def split: if_splits sum.splits exn.splits)

text \<open>With \<open>k\<close> rounds of sleep left, the loop does at most \<open>k + 1\<close> checks and requests.\<close>

lemma wait_loop_bounds:
  assumes "waited + k * poll_interval = max_wait"
    and "wait_loop env path n waited err = (res, acts)"
  shows "count_list acts CheckSocket \<le> Suc k \<and> count_list acts SendRequest \<le> Suc k
    \<and> StartService \<notin> set acts \<and> slept acts \<le> k * poll_interval"
  using assms
proof (induction k arbitrary: waited n err res acts)
  case 0
  obtain out acts1 where w: "wait_round env n err = (out, acts1)" by force
  with 0 have "acts = acts1"
    by (subst (asm) wait_loop.simps) (auto split: sum.splits)
  with wait_round_acts [OF w] show ?case by auto
next
  case (Suc k)
  obtain out acts1 where w: "wait_round env n err = (out, acts1)" by force
  note one = wait_round_acts [OF w]
  show ?case
  proof (cases out)
    case (Inl r)
    with Suc.prems w have "acts = acts1"
      by (subst (asm) wait_loop.simps) (auto split: if_splits)
    with one show ?thesis by auto
  next
    case (Inr err')
    have step: "waited < max_wait" "min poll_interval (max_wait - waited) = poll_interval"
      "waited + poll_interval + k * poll_interval = max_wait"
      using Suc.prems(1) by (simp_all add: poll_interval_def)
    obtain res' acts2 where l: "wait_loop env path (Suc n) (waited + poll_interval) err' = (res', acts2)"
      by force
    have "acts = acts1 @ SleepFor poll_interval # acts2"
      using Suc.prems(2) w Inr step l by (subst (asm) wait_loop.simps) (auto simp: Let_def)
    with Suc.IH [OF step(3) l] one show ?thesis by auto
  qed
qed

text \<open>If the first \<open>i\<close> rounds find nothing ready and the next one gets a reply, so does the loop.\<close>

definition not_ready :: "autostart_env \<Rightarrow> nat \<Rightarrow> bool" where
  "not_ready env n \<longleftrightarrow> as_exists env n \<longrightarrow>
     (\<exists>e msg. as_retry env n = Inl (ConnectExn e msg) \<and> is_socket_not_ready_error e)"

lemma wait_round_not_ready: "not_ready env n \<Longrightarrow> \<exists>err' acts. wait_round env n err = (Inr err', acts)"
  by (auto simp: wait_round_def not_ready_def)

lemma wait_round_ready:
  "as_exists env n \<Longrightarrow> as_retry env n = Inr reply \<Longrightarrow> \<exists>acts. wait_round env n err = (Inl (Inr reply), acts)"
  by (simp add: wait_round_def)

lemma wait_loop_ready:
  assumes "waited + i * poll_interval \<le> max_wait" "\<And>j. j < i \<Longrightarrow> not_ready env (n + j)"
    and "as_exists env (n + i)" "as_retry env (n + i) = Inr reply"
  shows "\<exists>acts. wait_loop env path n waited err = (Inr reply, acts)"
  using assms
proof (induction i arbitrary: waited n err)
  case 0
  then obtain acts where "wait_round env n err = (Inl (Inr reply), acts)"
    using wait_round_ready by fastforce
  with 0(1) show ?case by (subst wait_loop.simps) simp
next
  case (Suc i)
  obtain err' acts where w: "wait_round env n err = (Inr err', acts)"
    using wait_round_not_ready Suc.prems(2) [of 0] by fastforce
  have step: "waited < max_wait" "min poll_interval (max_wait - waited) = poll_interval"
    "waited + poll_interval + i * poll_interval \<le> max_wait"
    using Suc.prems(1) by (simp_all add: poll_interval_def)
  obtain acts2 where "wait_loop env path (Suc n) (waited + poll_interval) err' = (Inr reply, acts2)"
    using Suc.IH [OF step(3), of "Suc n" err'] Suc.prems(2) [of "Suc _"] Suc.prems(3,4) by auto
  with w step show ?case by (subst wait_loop.simps) (simp add: Let_def)
qed

lemma first_reply_is_final:
  "as_first env = Inr reply \<Longrightarrow>
     request_with_optional_user_service_start linux env path allow = (Inr reply, [SendRequest])"
  by (simp add: request_with_optional_user_service_start_def request_with_optional_start_def)

section \<open>Properties\<close>

text \<open>
  C35: Starting the daemon is a bounded, one-time effort. The service is started at most once, and only if
  starting is allowed, the platform is Linux and the first request could not connect because the socket
  is missing or refuses; in every other case the result of the first request, reply or exception, is
  handed on after that one request. Waiting sleeps at most two seconds in all, and makes at most 21
  checks and 22 requests.
\<close>

theorem autostart_is_bounded:
  "case request_with_optional_user_service_start linux env path allow of (res, acts) \<Rightarrow>
     count_list acts StartService \<le> 1
     \<and> slept acts \<le> 2000 \<and> count_list acts CheckSocket \<le> 21 \<and> count_list acts SendRequest \<le> 22
     \<and> (if linux \<and> allow \<and> (\<exists>e msg. as_first env = Inl (ConnectExn e msg) \<and> (e = ENOENT \<or> e = ECONNREFUSED))
        then count_list acts StartService = 1
        else res = as_first env \<and> acts = [SendRequest])"
proof -
  obtain res acts where l: "wait_loop env path 0 0 ''socket path did not appear'' = (res, acts)" by force
  have "0 + 20 * poll_interval = max_wait" by (simp add: poll_interval_def max_wait_def)
  note b = wait_loop_bounds [OF this l]
  then have "count_list acts StartService = 0" by (simp add: count_list_0_iff)
  with b show ?thesis
    by (auto simp: request_with_optional_user_service_start_def request_with_optional_start_def
        request_after_start_def l is_startable_default_socket_error_def poll_interval_def
        split: sum.splits exn.splits)
qed

text \<open>
  C36: A daemon that comes up in time answers: if the first request finds no socket, the service starts,
  and in one of the first 21 rounds, a tenth of a second apart, the socket is there and the request gets
  a reply, while every round before finds the socket missing or refusing, the client gets that reply.
\<close>

theorem started_daemon_answers:
  assumes "as_first env = Inl (ConnectExn e msg)" "e = ENOENT \<or> e = ECONNREFUSED" "as_start env = 0"
    and "i \<le> 20" "\<And>j. j < i \<Longrightarrow> not_ready env j" "as_exists env i" "as_retry env i = Inr reply"
  shows "\<exists>acts. request_with_optional_user_service_start True env path True = (Inr reply, acts)"
proof -
  have "0 + i * poll_interval \<le> max_wait" using assms(4) by (simp add: poll_interval_def max_wait_def)
  then obtain acts where "wait_loop env path 0 0 ''socket path did not appear'' = (Inr reply, acts)"
    using wait_loop_ready [of 0 i env 0 reply path "''socket path did not appear''"] assms(5-7) by auto
  with assms(1-3) show ?thesis
    by (simp add: request_with_optional_user_service_start_def request_with_optional_start_def
        request_after_start_def is_startable_default_socket_error_def)
qed

definition sample_autostart :: autostart_env where
  "sample_autostart = \<lparr>as_first = Inl (ConnectExn ENOENT ''no socket''), as_start = 0,
     as_exists = (\<lambda>n. n = 2), as_retry = (\<lambda>n. Inr ''pong'')\<rparr>"

lemma started_daemon_answers_witness:
  "\<exists>acts. request_with_optional_user_service_start True sample_autostart ''k.sock'' True = (Inr ''pong'', acts)"
  by (rule started_daemon_answers [where e = ENOENT and msg = "''no socket''" and i = 2])
    (auto simp: sample_autostart_def not_ready_def)

end
