(* ===== verification/Bounded_Text.thy ===== *)
theory Bounded_Text
  imports Kasli_Prelude
begin

text \<open>
  The bounded evidence bodies. Every tool source has its own copy of \<open>append_bounded\<close>, the
  same text with another \<open>kMaxBodyBytes\<close>; it is translated once here, with the limit as an
  argument, and each tool's theory names its instance. The specification is \<open>clip\<close>: what
  the incremental appends build is one truncation of the concatenated text. The locale
  \<open>bounded_appender\<close> states the contract of one append and proves the bodies of the tools
  equal to \<open>clip\<close> of the full text.
\<close>

section \<open>The code\<close>

definition truncation_marker :: string where
  "truncation_marker = ''truncated=true'' @ [newline]"

lemma length_truncation_marker [simp, bounded_simps]: "length truncation_marker = 15"
  by (simp add: truncation_marker_def)

text \<open>A difference of two \<open>std::size_t\<close> values, which wraps.\<close>

definition size_diff :: "nat \<Rightarrow> nat \<Rightarrow> nat" where
  "size_diff a b = nat ((int a - int b) mod 2 ^ 64)"

text \<open>\<open>std::string::resize(n)\<close>.\<close>

definition resize :: "nat \<Rightarrow> string \<Rightarrow> string" where
  "resize n s = take n s @ replicate (n - length s) (CHR 0x00)"

definition append_bounded :: "nat \<Rightarrow> string \<Rightarrow> string \<Rightarrow> bool \<Rightarrow> string \<times> bool" where
  "append_bounded cap body text truncated =
     (if length body + length text \<le> cap then (body @ text, truncated)
      else
        let remaining = size_diff cap (length body);
            body' =
              (if length truncation_marker < remaining
               then body @ take (size_diff remaining (length truncation_marker)) text
               else if cap < length body + length truncation_marker
               then resize (size_diff cap (length truncation_marker)) body
               else body)
        in (body' @ truncation_marker, True))"

text \<open>Lines appended one after the other, without a look at the flag in between.\<close>

fun append_lines ::
  "(string \<Rightarrow> string \<Rightarrow> bool \<Rightarrow> string \<times> bool) \<Rightarrow> string list \<Rightarrow> string \<times> bool \<Rightarrow> string \<times> bool" where
  "append_lines app [] st = st"
| "append_lines app (t # ts) st = append_lines app ts (app (fst st) t (snd st))"

text \<open>
  The row loop of the list tools with what follows it: each row is appended and the body returned
  as soon as the flag is set; after the last row the marker is appended if there were more rows.
\<close>

fun rows_body ::
  "(string \<Rightarrow> string \<Rightarrow> bool \<Rightarrow> string \<times> bool) \<Rightarrow> string list \<Rightarrow> bool \<Rightarrow> string \<times> bool \<Rightarrow> string" where
  "rows_body app [] has_more st =
     (if has_more then fst (app (fst st) truncation_marker (snd st)) else fst st)"
| "rows_body app (t # ts) has_more st =
     (let st' = app (fst st) t (snd st)
      in if snd st' then fst st' else rows_body app ts has_more st')"

section \<open>The specification\<close>

definition clip :: "nat \<Rightarrow> string \<Rightarrow> string" where
  "clip cap s =
     (if length s \<le> cap then s else take (cap - length truncation_marker) s @ truncation_marker)"

lemma length_clip [bounded_simps]: "length truncation_marker \<le> cap \<Longrightarrow> length (clip cap s) \<le> cap"
  by (simp add: clip_def)

lemma length_clip_full: "length truncation_marker \<le> cap \<Longrightarrow> cap < length s \<Longrightarrow> length (clip cap s) = cap"
  by (simp add: clip_def)

lemma clip_fits [simp]: "length s \<le> cap \<Longrightarrow> clip cap s = s"
  by (simp add: clip_def)

lemma clip_absorbs: "cap < length s \<Longrightarrow> clip cap (s @ t) = clip cap s"
  by (simp add: clip_def)

lemma clip_clip: "length truncation_marker \<le> cap \<Longrightarrow> clip cap (clip cap s @ t) = clip cap (s @ t)"
proof (cases "length s \<le> cap")
  case False
  assume "length truncation_marker \<le> cap"
  with False show ?thesis
    by (cases "t = []") (auto simp: clip_def)
qed simp

text \<open>A clipped text is the whole text, or it ends in the marker after a prefix of the text.\<close>

lemma clip_cases:
  obtains "clip cap s = s" "length s \<le> cap"
  | p where "clip cap s = p @ truncation_marker" "prefix p s" "cap < length s"
  by (cases "length s \<le> cap") (auto simp: clip_def take_is_prefix not_le)

section \<open>The contract of an append\<close>

locale bounded_appender =
  fixes cap :: nat
    and append :: "string \<Rightarrow> string \<Rightarrow> bool \<Rightarrow> string \<times> bool"
  assumes cap_marker: "length truncation_marker \<le> cap"
    and append_fits:
      "length body + length text \<le> cap \<Longrightarrow> append body text tr = (body @ text, tr)"
    and append_overflows:
      "length body \<le> cap \<Longrightarrow> cap < length body + length text \<Longrightarrow>
         append body text tr = (clip cap (body @ text), True)"
begin

text \<open>The state of a body after the text \<open>s\<close> has been appended.\<close>

definition state :: "string \<Rightarrow> string \<times> bool" where
  "state s = (clip cap s, cap < length s)"

lemma state_Nil: "state [] = ([], False)"
  by (simp add: state_def)

lemma append_state: "append (fst (state s)) t (snd (state s)) = state (s @ t)"
proof (cases "length s \<le> cap")
  case True
  then show ?thesis
    by (cases "length s + length t \<le> cap")
      (auto simp: state_def append_fits append_overflows not_le)
next
  case False
  then have full: "length (clip cap s) = cap" using cap_marker by (simp add: length_clip_full)
  show ?thesis
  proof (cases "t = []")
    case True
    with full False show ?thesis by (simp add: state_def append_fits)
  next
    case t: False
    with full have "append (clip cap s) t True = (clip cap (clip cap s @ t), True)"
      by (intro append_overflows) auto
    with False show ?thesis
      using clip_clip [OF cap_marker, of s t] by (simp add: state_def)
  qed
qed

lemma append_lines_state: "append_lines append ts (state s) = state (s @ concat ts)"
  by (induction ts arbitrary: s) (simp_all add: append_state)

lemma rows_body_state:
  "rows_body append ts has_more (state s) =
     clip cap (s @ concat ts @ (if has_more then truncation_marker else []))"
proof (induction ts arbitrary: s)
  case Nil
  then show ?case
    using append_state [of s truncation_marker] by (simp add: state_def)
next
  case (Cons t ts)
  show ?case
  proof (cases "cap < length (s @ t)")
    case True
    with append_state [of s t]
    have "rows_body append (t # ts) has_more (state s) = clip cap (s @ t)"
      by (simp add: state_def)
    also have "\<dots> = clip cap ((s @ t) @ concat ts @ (if has_more then truncation_marker else []))"
      using True by (simp only: clip_absorbs)
    finally show ?thesis by simp
  next
    case False
    then have flag: "\<not> snd (state (s @ t))" by (simp add: state_def)
    have "rows_body append (t # ts) has_more (state s) = rows_body append ts has_more (state (s @ t))"
      using flag by (simp add: append_state Let_def)
    with Cons.IH [of "s @ t"] show ?thesis by simp
  qed
qed

lemma body_of_lines: "append_lines append ts ([], False) = (clip cap (concat ts), cap < length (concat ts))"
  using append_lines_state [of ts "[]"] by (simp add: state_def)

lemma body_of_rows:
  "rows_body append ts has_more (append_lines append hs ([], False)) =
     clip cap (concat hs @ concat ts @ (if has_more then truncation_marker else []))"
  using rows_body_state [of ts has_more "concat hs"] append_lines_state [of hs "[]"]
  by (simp add: state_Nil)

lemma length_clip_cap: "length (clip cap s) \<le> cap"
  by (rule length_clip [OF cap_marker])

end

text \<open>The code keeps the contract for every limit that has room for the marker.\<close>

lemma size_diff_eq:
  assumes "b \<le> a" "a < 2 ^ 64"
  shows "size_diff a b = a - b"
proof -
  have d: "int a - int b = int (a - b)" using assms(1) by (rule of_nat_diff [symmetric])
  have "a - b < 2 ^ 64" using assms(2) by simp
  then have "int (a - b) < 2 ^ 64" by simp
  then have "(int a - int b) mod 2 ^ 64 = int (a - b)"
    unfolding d by (intro mod_pos_pos_trivial) simp_all
  then show ?thesis by (simp add: size_diff_def)
qed

lemma append_bounded_contract:
  assumes "length truncation_marker \<le> cap" "cap < 2 ^ 64"
  shows "bounded_appender cap (append_bounded cap)"
proof
  fix body t :: string and tr
  show "length truncation_marker \<le> cap" by (rule assms(1))
  show "length body + length t \<le> cap \<Longrightarrow> append_bounded cap body t tr = (body @ t, tr)"
    by (simp add: append_bounded_def)
  assume b: "length body \<le> cap" and o: "cap < length body + length t"
  have r: "size_diff cap (length body) = cap - length body"
    using b assms(2) by (simp add: size_diff_eq)
  have m: "size_diff cap (length truncation_marker) = cap - length truncation_marker"
    using assms by (simp only: size_diff_eq)
  consider "length truncation_marker < cap - length body"
    | "cap - length body \<le> length truncation_marker" "cap < length body + length truncation_marker"
    | "cap - length body \<le> length truncation_marker" "length body + length truncation_marker \<le> cap"
    by linarith
  then show "append_bounded cap body t tr = (clip cap (body @ t), True)"
  proof cases
    case 1
    then have "size_diff (cap - length body) (length truncation_marker) =
        cap - length body - length truncation_marker"
      using assms(2) by (intro size_diff_eq) auto
    with 1 o r show ?thesis
      by (simp add: append_bounded_def clip_def Let_def take_append add.commute)
  next
    case 2
    with o r m show ?thesis
      by (simp add: append_bounded_def clip_def Let_def resize_def take_append)
  next
    case 3
    with o r have "length body = cap - length truncation_marker" by linarith
    with 3 o r show ?thesis
      by (simp add: append_bounded_def clip_def Let_def take_append)
  qed
qed

end
