(* ===== verification/Machine.thy ===== *)
theory Machine
  imports Tool_Registry Bounded_Text "HOL-Library.Multiset"
begin

text \<open>
  What the tools that read files observe of the system, and the helpers their sources repeat: the
  file system as the calls of \<open>std::filesystem\<close> and \<open>std::ifstream\<close> answer, \<open>uname\<close>, the clock,
  \<open>trim\<close>, \<open>read_text_file\<close>, the field splitters and \<open>std::ranges::sort\<close>. The locale
  \<open>field_splitter\<close> is the contract of the two splitting loops, \<open>range_sort\<close> that of the sort.
\<close>

section \<open>Observations\<close>

text \<open>
  A directory iterator: its constructor reports an error code, or it delivers names until the end or
  until an increment throws.
\<close>

datatype dir_listing = DirError | DirNames "string list" "exn option"

record uname_info =
  un_sysname :: string
  un_release :: string
  un_machine :: string

record machine =
  mc_file :: "string \<Rightarrow> string option"
  mc_exists :: "string \<Rightarrow> bool result"
  mc_list :: "string \<Rightarrow> dir_listing"
  mc_symlink :: "string \<Rightarrow> string option"
  mc_space :: "string \<Rightarrow> (u64 \<times> u64 \<times> u64) option"
  mc_uname :: "uname_info option"
  mc_ifaddrs :: "(string option \<times> (nat \<times> string option) option) list option"
  mc_utc :: utc_tm

definition path_join :: "string \<Rightarrow> string \<Rightarrow> string" where
  "path_join dir name = dir @ CHR ''/'' # name"

definition path_filename :: "string \<Rightarrow> string" where
  "path_filename path = rev (takeWhile (\<lambda>c. c \<noteq> CHR ''/'') (rev path))"

text \<open>The loop over a directory, collecting names.\<close>

definition list_names :: "machine \<Rightarrow> string \<Rightarrow> string list option result" where
  "list_names m dir =
     (case mc_list m dir of
        DirError \<Rightarrow> Inr None
      | DirNames names None \<Rightarrow> Inr (Some names)
      | DirNames names (Some e) \<Rightarrow> Inl e)"

section \<open>Responses\<close>

definition error_response :: "tool_request \<Rightarrow> string \<Rightarrow> tool_response" where
  "error_response q msg =
     \<lparr>resp_request_id = req_id q, resp_status = Error, resp_message = msg, resp_evidence = []\<rparr>"

definition evidence_response ::
  "tool_request \<Rightarrow> string \<Rightarrow> string \<Rightarrow> string \<Rightarrow> string \<Rightarrow> utc_tm \<Rightarrow> tool_response" where
  "evidence_response q msg source summ body t =
     \<lparr>resp_request_id = req_id q, resp_status = Ok, resp_message = msg,
      resp_evidence = [\<lparr>ev_id = req_id q @ '':'' @ source, ev_source = source, ev_summary = summ,
        ev_body = body, ev_timestamp = utc_timestamp t\<rparr>]\<rparr>"

lemma response_simps [simp]:
  "resp_request_id (error_response q msg) = req_id q"
  "resp_status (error_response q msg) = Error"
  "resp_evidence (error_response q msg) = []"
  "resp_request_id (evidence_response q msg source summ body t) = req_id q"
  "resp_status (evidence_response q msg source summ body t) = Ok"
  "resp_evidence (evidence_response q msg source summ body t) \<noteq> []"
  "e \<in> set (resp_evidence (evidence_response q msg source summ body t)) \<longleftrightarrow>
     e = \<lparr>ev_id = req_id q @ '':'' @ source, ev_source = source, ev_summary = summ,
        ev_body = body, ev_timestamp = utc_timestamp t\<rparr>"
  by (simp_all add: error_response_def evidence_response_def)

text \<open>
  The answers of the tools that make a report: an error without evidence, or one piece of evidence
  under the tool's name. A tool that only gives such answers keeps the contracts of
  \<open>Tool_Registry\<close>.
\<close>

definition reports :: "nat \<Rightarrow> string \<Rightarrow> tool_request \<Rightarrow> tool_response \<Rightarrow> bool" where
  "reports cap name q r \<longleftrightarrow>
     (\<exists>msg. r = error_response q msg)
     \<or> (\<exists>msg summ body t. r = evidence_response q msg name summ body t \<and> length body \<le> cap)"

lemma reports_error [simp]: "reports cap name q (error_response q msg)"
  by (auto simp: reports_def)

lemma reports_evidence [simp]:
  "length body \<le> cap \<Longrightarrow> reports cap name q (evidence_response q msg name summ body t)"
  unfolding reports_def by blast

locale reporting_tool =
  fixes t :: "'m tool" and cap :: nat
  assumes is_read_only: "tool_risk t = ReadOnly"
    and answers: "tool_call t m q = Inr r \<Longrightarrow> reports cap (tool_name t) q r"
begin

lemma report_cases:
  assumes "tool_call t m q = Inr r"
  obtains msg where "r = error_response q msg"
  | msg summ body time where "r = evidence_response q msg (tool_name t) summ body time" "length body \<le> cap"
  using answers [OF assms] unfolding reports_def by blast

lemma report_source: "tool_call t m q = Inr r \<Longrightarrow> e \<in> set (resp_evidence r) \<Longrightarrow> ev_source e = tool_name t"
  by (erule report_cases) auto

end

sublocale reporting_tool \<subseteq> bounded_tool t cap
  by unfold_locales (auto simp: is_read_only elim: report_cases)

sublocale reporting_tool \<subseteq> plain_tool t
  by unfold_locales (auto elim: report_cases)

text \<open>\<open>result.error.empty() ? fallback : result.error\<close>.\<close>

definition error_or :: "string \<Rightarrow> string \<Rightarrow> string" where
  "error_or fallback err = (if err = [] then fallback else err)"

section \<open>Text helpers\<close>

definition trim_front_char :: "char \<Rightarrow> bool" where
  "trim_front_char c \<longleftrightarrow> c = CHR '' '' \<or> c = tab"

definition trim :: "string \<Rightarrow> string" where
  "trim value = dropWhile trim_front_char (rev (dropWhile blank_char (rev value)))"

definition unknown_if_empty :: "string \<Rightarrow> string" where
  "unknown_if_empty value = (if value = [] then ''unknown'' else value)"

definition read_text_file_or :: "machine \<Rightarrow> string \<Rightarrow> string \<Rightarrow> string" where
  "read_text_file_or m path fallback =
     (case mc_file m path of
        None \<Rightarrow> fallback
      | Some content \<Rightarrow>
          let value = trim (first_line content) in if value = [] then fallback else value)"

definition read_text_file :: "machine \<Rightarrow> string \<Rightarrow> string" where
  "read_text_file m path = read_text_file_or m path ''unknown''"

lemma set_dropWhile: "set (dropWhile P s) \<subseteq> set s"
  by (metis set_dropWhileD subsetI)

lemma set_trim: "set (trim s) \<subseteq> set s"
  using set_dropWhile [of trim_front_char "rev (dropWhile blank_char (rev s))"]
    set_dropWhile [of blank_char "rev s"] by (auto simp: trim_def)

lemma read_text_file_one_line: "newline \<notin> set (read_text_file m path)"
proof -
  have "newline \<notin> set (first_line s)" for s
    by (auto simp: first_line_def dest: set_takeWhileD)
  then have "newline \<notin> set (trim (first_line s))" for s
    using set_trim by blast
  then show ?thesis
    by (simp add: read_text_file_def read_text_file_or_def Let_def split: option.split)
qed

lemma read_text_file_not_empty: "read_text_file m path \<noteq> []"
  by (simp add: read_text_file_def read_text_file_or_def Let_def split: option.split)

lemma trim_blank_front: "trim_front_char c \<Longrightarrow> blank_char c"
  by (auto simp: trim_front_char_def blank_char_def)

lemma trim_id: "s = [] \<or> \<not> trim_front_char (hd s) \<and> \<not> blank_char (last s) \<Longrightarrow> trim s = s"
  by (cases s rule: rev_cases) (auto simp: trim_def dropWhile_eq_self_iff)

text \<open>Blanks around a text do not change its trimmed form, apart from line ends in front.\<close>

lemma trim_surround:
  assumes "\<forall>c \<in> set u. trim_front_char c" "\<forall>c \<in> set v. blank_char c"
    and "s \<noteq> []" "\<not> trim_front_char (hd s)" "\<not> blank_char (last s)"
  shows "trim (u @ s @ v) = s"
proof -
  have "dropWhile blank_char (rev v @ rev s @ rev u) = rev s @ rev u"
    using assms(2,3,5) by (subst dropWhile_append2) (auto simp: dropWhile_eq_self_iff hd_append hd_rev)
  moreover have "dropWhile trim_front_char (u @ s) = s"
    using assms(1,3,4) by (subst dropWhile_append2) (auto simp: dropWhile_eq_self_iff)
  ultimately show ?thesis by (simp add: trim_def)
qed

section \<open>Splitting into fields\<close>

locale field_splitter =
  fixes is_sep :: "char \<Rightarrow> bool"
    and split_fields :: "string \<Rightarrow> string list"
  assumes split_blank: "\<forall>c \<in> set s. is_sep c \<Longrightarrow> split_fields s = []"
    and split_seps: "is_sep c \<Longrightarrow> split_fields (c # s) = split_fields s"
    and split_field:
      "f \<noteq> [] \<Longrightarrow> \<forall>c \<in> set f. \<not> is_sep c \<Longrightarrow> s = [] \<or> is_sep (hd s) \<Longrightarrow>
         split_fields (f @ s) = f # split_fields s"
begin

lemma split_join_fields:
  assumes "is_sep sep" "\<forall>f \<in> set fs. f \<noteq> [] \<and> (\<forall>c \<in> set f. \<not> is_sep c)"
  shows "split_fields (join_with [sep] fs) = fs"
  using assms(2)
proof (induction "[sep]" fs rule: join_with.induct)
  case 1
  then show ?case using split_blank by simp
next
  case (2 x)
  then show ?case using split_field [of x "[]"] split_blank [of "[]"] by simp
next
  case (3 x y ys)
  then show ?case
    using split_field [of x "sep # join_with [sep] (y # ys)"] split_seps [OF assms(1)] assms(1) by simp
qed

lemma fields_clean: "f \<in> set (split_fields s) \<Longrightarrow> f \<noteq> [] \<and> (\<forall>c \<in> set f. \<not> is_sep c)"
proof (induction s rule: length_induct)
  case (1 s)
  show ?case
  proof (cases "\<forall>c \<in> set s. is_sep c")
    case True
    with 1 split_blank show ?thesis by auto
  next
    case False
    then obtain x xs where s: "s = x # xs" by (cases s) auto
    show ?thesis
    proof (cases "is_sep x")
      case True
      with 1 s split_seps show ?thesis by auto
    next
      case sep: False
      let ?p = "\<lambda>c. \<not> is_sep c"
      have "split_fields (takeWhile ?p s @ dropWhile ?p s) = takeWhile ?p s # split_fields (dropWhile ?p s)"
      proof (rule split_field)
        show "dropWhile ?p s = [] \<or> is_sep (hd (dropWhile ?p s))"
          using hd_dropWhile [of ?p s] by blast
      qed (use s sep in \<open>auto dest: set_takeWhileD\<close>)
      moreover have "length (dropWhile ?p s) < length s"
        using s sep by (simp add: le_imp_less_Suc length_dropWhile_le)
      moreover have "takeWhile ?p s \<noteq> []" using s sep by simp
      ultimately consider "f = takeWhile ?p s" "f \<noteq> []" | "f \<in> set (split_fields (dropWhile ?p s))"
        using 1(2) by auto
      then show ?thesis
      proof cases
        case 1
        then show ?thesis by (auto dest: set_takeWhileD)
      next
        case 2
        with 1(1) \<open>length (dropWhile ?p s) < length s\<close> show ?thesis by blast
      qed
    qed
  qed
qed

end

section \<open>Sorting\<close>

text \<open>
  \<open>std::ranges::sort\<close> with a comparator: an insertion sort. The library promises a sorted
  permutation for a strict weak ordering and leaves the order of equivalent elements open; what is
  proved rests on these two laws.
\<close>

fun sort_insert :: "('a \<Rightarrow> 'a \<Rightarrow> bool) \<Rightarrow> 'a \<Rightarrow> 'a list \<Rightarrow> 'a list" where
  "sort_insert lt x [] = [x]"
| "sort_insert lt x (y # ys) = (if lt y x then y # sort_insert lt x ys else x # y # ys)"

definition sort_range :: "('a \<Rightarrow> 'a \<Rightarrow> bool) \<Rightarrow> 'a list \<Rightarrow> 'a list" where
  "sort_range lt xs = foldr (sort_insert lt) xs []"

text \<open>Comparators that compare a key.\<close>

definition by_key :: "('a \<Rightarrow> 'k :: linorder) \<Rightarrow> 'a \<Rightarrow> 'a \<Rightarrow> bool" where
  "by_key key x y \<longleftrightarrow> key x < key y"

locale range_sort =
  fixes sorting :: "('a \<Rightarrow> 'a \<Rightarrow> bool) \<Rightarrow> 'a list \<Rightarrow> 'a list"
    and key :: "'a \<Rightarrow> 'k :: linorder"
  assumes sort_permutes: "mset (sorting (by_key key) xs) = mset xs"
    and sort_sorted: "sorted (map key (sorting (by_key key) xs))"
begin

lemma set_sorting: "set (sorting (by_key key) xs) = set xs"
  using sort_permutes by (metis set_mset_mset)

lemma length_sorting: "length (sorting (by_key key) xs) = length xs"
  using sort_permutes by (metis size_mset)

text \<open>The keys come out in one order only, whatever becomes of equivalent elements.\<close>

lemma keys_sorting: "map key (sorting (by_key key) xs) = sort (map key xs)"
  using sort_permutes sort_sorted by (metis mset_map properties_for_sort)

lemma sorting_distinct_keys:
  assumes "distinct (map key xs)" "mset ys = mset xs" "sorted (map key ys)"
  shows "sorting (by_key key) xs = ys"
proof (rule map_inj_on)
  show "map key (sorting (by_key key) xs) = map key ys"
    using keys_sorting assms(2,3) by (metis mset_map properties_for_sort)
  show "inj_on key (set (sorting (by_key key) xs) \<union> set ys)"
    using assms(1,2) set_sorting by (metis Un_absorb distinct_map set_mset_mset)
qed

end

lemma mset_sort_insert: "mset (sort_insert lt x xs) = add_mset x (mset xs)"
  by (induction xs) auto

lemma set_sort_insert: "set (sort_insert lt x xs) = insert x (set xs)"
  by (metis mset_sort_insert set_mset_add_mset_insert set_mset_mset)

lemma sorted_sort_insert:
  "sorted (map key xs) \<Longrightarrow> sorted (map key (sort_insert (by_key key) x xs))"
proof (induction xs)
  case (Cons y ys)
  then show ?case by (cases "key y < key x") (auto simp: set_sort_insert by_key_def)
qed simp

interpretation sort: range_sort sort_range key for key :: "'a \<Rightarrow> 'k :: linorder"
proof
  show "mset (sort_range (by_key key) xs) = mset xs" for xs
    unfolding sort_range_def by (induction xs) (simp_all add: mset_sort_insert)
  show "sorted (map key (sort_range (by_key key) xs))" for xs
    unfolding sort_range_def by (induction xs) (simp_all add: sorted_sort_insert)
qed

section \<open>Rows over sorted names\<close>

text \<open>The row loop shared by the tools over sysfs: at most \<open>limit\<close> rows, and whether more were left.\<close>

fun limited_rows :: "nat \<Rightarrow> (string \<Rightarrow> 'r) \<Rightarrow> string list \<Rightarrow> 'r list \<times> bool \<Rightarrow> 'r list \<times> bool" where
  "limited_rows limit row [] acc = acc"
| "limited_rows limit row (name # names) (rows, extra) =
     (if length rows < limit then limited_rows limit row names (rows @ [row name], extra)
      else limited_rows limit row names (rows, True))"

lemma limited_rows_spec:
  "length rows \<le> limit \<Longrightarrow> limited_rows limit row names (rows, extra) =
     (take limit (rows @ map row names), extra \<or> limit < length rows + length names)"
proof (induction names arbitrary: rows extra)
  case (Cons name names)
  then show ?case by (cases "length rows < limit") (auto simp: take_Cons' Suc_diff_Suc)
qed simp

lemma by_key_id: "by_key (\<lambda>x. x) = ((<) :: string \<Rightarrow> string \<Rightarrow> bool)"
  by (intro ext) (simp add: by_key_def)

lemma sort_names: "sort_range (<) names = sort (names :: string list)"
  using sort.keys_sorting [of "\<lambda>x. x" names] by (simp add: by_key_id)

end
