(* ===== verification/Disk_Tool.thy ===== *)
theory Disk_Tool
  imports Machine Redaction
begin

text \<open>
  \<open>src/tools/disk_tool.cpp\<close>: the mount table of the kernel, filtered, measured and printed. The
  extended-precision arithmetic of \<open>used_percent\<close> is written out (64 bits of significand, as
  \<open>long double\<close> on x86-64).
\<close>

section \<open>Parsing \<open>/proc/self/mountinfo\<close>\<close>

definition disk_append :: "string \<Rightarrow> string \<Rightarrow> bool \<Rightarrow> string \<times> bool" where
  "disk_append = append_bounded (64 * 1024)"

function split_spaces :: "string \<Rightarrow> string list" where
  "split_spaces value =
     (let rest = dropWhile (\<lambda>c. c = CHR '' '') value
      in if rest = [] then []
         else case find_char (CHR '' '') rest of
                None \<Rightarrow> [rest]
              | Some i \<Rightarrow> take i rest # split_spaces (drop (i + 1) rest))"
  by pat_completeness auto

termination
proof (relation "measure length")
  fix s :: string and rest i
  assume r: "rest = dropWhile (\<lambda>c. c = CHR '' '') s" "rest \<noteq> []"
  then have "length rest \<le> length s" "0 < length rest" by (simp_all add: length_dropWhile_le)
  then have "length (drop (i + 1) rest) < length s"
    unfolding length_drop by linarith
  then show "(drop (i + 1) rest, s) \<in> measure length" by simp
qed simp

declare split_spaces.simps [simp del]

definition octal_digit_value :: "char \<Rightarrow> nat option" where
  "octal_digit_value c = (if c < CHR ''0'' \<or> CHR ''7'' < c then None else Some (of_char c - 48))"

fun decode_mountinfo_value :: "string \<Rightarrow> string" where
  "decode_mountinfo_value (c # a # b # d # cs) =
     (if c = backslash
      then case (octal_digit_value a, octal_digit_value b, octal_digit_value d) of
             (Some i, Some j, Some k) \<Rightarrow> char_of (i * 64 + j * 8 + k) # decode_mountinfo_value cs
           | _ \<Rightarrow> c # decode_mountinfo_value (a # b # d # cs)
      else c # decode_mountinfo_value (a # b # d # cs))"
| "decode_mountinfo_value cs = cs"

record disk_mount_info =
  dm_mount_point :: string
  dm_fs_type :: string
  dm_source :: string

definition find_field :: "string \<Rightarrow> string list \<Rightarrow> nat option" where
  "find_field f parts =
     (let i = length (takeWhile (\<lambda>x. x \<noteq> f) parts) in if i < length parts then Some i else None)"

definition parse_mountinfo_line :: "string \<Rightarrow> disk_mount_info option" where
  "parse_mountinfo_line line =
     (let parts = split_spaces line
      in if length parts < 10 then None
         else case find_field ''-'' parts of
                None \<Rightarrow> None
              | Some i \<Rightarrow>
                  if i < 6 \<or> length parts \<le> i + 3 then None
                  else Some \<lparr>dm_mount_point = decode_mountinfo_value (parts ! 4),
                             dm_fs_type = decode_mountinfo_value (parts ! (i + 1)),
                             dm_source = decode_mountinfo_value (parts ! (i + 2))\<rparr>)"

definition is_virtual_filesystem :: "string \<Rightarrow> bool" where
  "is_virtual_filesystem fs_type \<longleftrightarrow> fs_type \<in> set
     [''autofs'', ''bpf'', ''cgroup'', ''cgroup2'', ''configfs'', ''debugfs'', ''devpts'',
      ''devtmpfs'', ''efivarfs'', ''fusectl'', ''hugetlbfs'', ''mqueue'', ''proc'', ''pstore'',
      ''securityfs'', ''selinuxfs'', ''sysfs'', ''tmpfs'', ''tracefs'', ''nsfs'', ''ramfs'',
      ''rpc_pipefs'', ''binfmt_misc'']"

definition is_disk_usage_mount_candidate :: "disk_mount_info \<Rightarrow> bool" where
  "is_disk_usage_mount_candidate mount =
     (if dm_mount_point mount = [] \<or> dm_fs_type mount = [] then False
      else if is_virtual_filesystem (dm_fs_type mount) then False
      else if prefix ''/proc'' (dm_mount_point mount) \<or> prefix ''/sys'' (dm_mount_point mount)
           \<or> prefix ''/dev'' (dm_mount_point mount) then False
      else True)"

section \<open>Percentages\<close>

text \<open>Division rounded to the nearest integer, ties to even.\<close>

definition round_half_even :: "nat \<Rightarrow> nat \<Rightarrow> nat" where
  "round_half_even a b =
     (let q = a div b; r = a mod b
      in if 2 * r < b then q else if b < 2 * r then q + 1 else if even q then q else q + 1)"

fun bit_length :: "nat \<Rightarrow> nat" where
  "bit_length n = (if n = 0 then 0 else Suc (bit_length (n div 2)))"

declare bit_length.simps [simp del]

text \<open>The \<open>long double\<close> next to a natural number, and the truncated quotient of two of them.\<close>

definition to_long_double :: "nat \<Rightarrow> nat" where
  "to_long_double n = (let k = bit_length n - 64 in round_half_even n (2 ^ k) * 2 ^ k)"

definition long_double_quotient :: "nat \<Rightarrow> nat \<Rightarrow> nat" where
  "long_double_quotient a b =
     (let s = 64 - bit_length (a div b) in round_half_even (a * 2 ^ s) b div 2 ^ s)"

definition used_percent :: "u64 \<Rightarrow> u64 \<Rightarrow> nat" where
  "used_percent capacity_bytes available_bytes =
     (if capacity_bytes = 0 \<or> capacity_bytes \<le> available_bytes then 0
      else let used_bytes = capacity_bytes - available_bytes
           in long_double_quotient (to_long_double (unat used_bytes * 100)) (unat capacity_bytes))"

section \<open>Rows and body\<close>

record disk_usage_row =
  du_mount_point :: string
  du_fs_type :: string
  du_source :: string
  du_capacity_bytes :: u64
  du_free_bytes :: u64
  du_available_bytes :: u64
  du_used_percent :: nat

definition format_disk_usage_row :: "disk_usage_row \<Rightarrow> string" where
  "format_disk_usage_row row =
     ''mount_point='' @ redact_likely_secret (du_mount_point row) @
     '' fs_type='' @ redact_likely_secret (du_fs_type row) @
     '' source='' @ redact_likely_secret (du_source row) @
     '' capacity_bytes='' @ to_string_u64 (du_capacity_bytes row) @
     '' free_bytes='' @ to_string_u64 (du_free_bytes row) @
     '' available_bytes='' @ to_string_u64 (du_available_bytes row) @
     '' used_percent='' @ decimal (du_used_percent row) @ [newline]"

definition format_disk_usage_body :: "disk_usage_row list \<Rightarrow> bool \<Rightarrow> string" where
  "format_disk_usage_body rows has_more_rows =
     rows_body disk_append (map format_disk_usage_row rows) has_more_rows
       (append_lines disk_append
          ((''disk_mounts_count='' @ decimal (length rows) @ [newline])
           # (if rows = [] then [''no_disk_mounts=true'' @ [newline]] else []))
          ([], False))"

section \<open>Provider and tool\<close>

record disk_usage_result =
  dr_ok :: bool
  dr_error :: string
  dr_rows :: "disk_usage_row list"
  dr_has_more_rows :: bool

text \<open>The loop over the lines; its accumulator is the vector of rows and the flag.\<close>

fun disk_rows :: "machine \<Rightarrow> string list \<Rightarrow> disk_usage_row list \<times> bool \<Rightarrow> disk_usage_row list \<times> bool" where
  "disk_rows m [] acc = acc"
| "disk_rows m (line # lines) (rows, extra) =
     (case parse_mountinfo_line line of
        None \<Rightarrow> disk_rows m lines (rows, extra)
      | Some mount \<Rightarrow>
          if \<not> is_disk_usage_mount_candidate mount then disk_rows m lines (rows, extra)
          else (case mc_space m (dm_mount_point mount) of
                 None \<Rightarrow> disk_rows m lines (rows, extra)
               | Some (capacity, free, available) \<Rightarrow>
                   if length rows < 100
                   then disk_rows m lines
                     (rows @ [\<lparr>du_mount_point = dm_mount_point mount, du_fs_type = dm_fs_type mount,
                        du_source = dm_source mount, du_capacity_bytes = capacity,
                        du_free_bytes = free, du_available_bytes = available,
                        du_used_percent = used_percent capacity available\<rparr>], extra)
                   else disk_rows m lines (rows, True)))"

definition default_disk_usage_provider :: "machine \<Rightarrow> disk_usage_result" where
  "default_disk_usage_provider m =
     (case mc_file m ''/proc/self/mountinfo'' of
        None \<Rightarrow> \<lparr>dr_ok = False, dr_error = ''mountinfo is not available'', dr_rows = [],
                 dr_has_more_rows = False\<rparr>
      | Some content \<Rightarrow>
          let (rows, extra) = disk_rows m (get_lines content) ([], False)
          in \<lparr>dr_ok = True, dr_error = [], dr_rows = sort_range (by_key du_mount_point) rows,
              dr_has_more_rows = extra\<rparr>)"

definition disk_call :: "machine \<Rightarrow> tool_request \<Rightarrow> tool_response result" where
  "disk_call m q =
     (let res = default_disk_usage_provider m
      in if \<not> dr_ok res
         then Inr (error_response q (error_or ''disk usage provider failed'' (dr_error res)))
         else Inr (evidence_response q ''disk usage listed'' ''disk.usage''
                ''bounded mounted filesystem usage''
                (format_disk_usage_body (dr_rows res) (dr_has_more_rows res)) (mc_utc m)))"

definition disk_usage_tool :: "machine tool" where
  "disk_usage_tool = \<lparr>tool_name = ''disk.usage'', tool_risk = ReadOnly, tool_call = disk_call\<rparr>"

section \<open>Interfaces kept\<close>

lemma cap_64k: "length truncation_marker \<le> 64 * 1024" "(64 * 1024 :: nat) < 2 ^ 64"
  by simp_all

interpretation disk: bounded_appender "64 * 1024" disk_append
  unfolding disk_append_def by (rule append_bounded_contract) (rule cap_64k)+

lemma split_spaces_sep: "split_spaces (CHR '' '' # s) = split_spaces s"
  by (simp add: split_spaces.simps [of "CHR '' '' # s"] split_spaces.simps [of s])

interpretation spaces: field_splitter "\<lambda>c. c = CHR '' ''" split_spaces
proof
  show "split_spaces s = []" if "\<forall>c \<in> set s. c = CHR '' ''" for s
  proof -
    have "dropWhile (\<lambda>c. c = CHR '' '') s = []" using that by simp
    then show ?thesis by (simp add: split_spaces.simps [of s])
  qed
  show "split_spaces (c # s) = split_spaces s" if "c = CHR '' ''" for c s
    using that split_spaces_sep by simp
  show "split_spaces (f @ s) = f # split_spaces s"
    if f: "f \<noteq> []" "\<forall>c \<in> set f. c \<noteq> CHR '' ''" and s: "s = [] \<or> hd s = CHR '' ''" for f s
  proof -
    have rest: "dropWhile (\<lambda>c. c = CHR '' '') (f @ s) = f @ s"
      using f by (cases f) auto
    show ?thesis
    proof (cases s)
      case Nil
      with f rest have none: "find_char (CHR '' '') f = None" by auto
      from Nil f rest show ?thesis
        by (simp add: none split_spaces.simps [of f] split_spaces.simps [of "[]"])
    next
      case (Cons c s')
      with s have s': "s = CHR '' '' # s'" by simp
      have some: "find_char (CHR '' '') (f @ CHR '' '' # s') = Some (length f)"
        using f(2) by (intro find_char_append) auto
      from f(1) rest show ?thesis
        unfolding s' by (simp add: some split_spaces.simps [of "f @ CHR '' '' # s'"] split_spaces_sep)
    qed
  qed
qed

text \<open>The body is one truncation of the header and all rows.\<close>

lemma disk_body_clip:
  "format_disk_usage_body rows extra = clip (64 * 1024)
     ((''disk_mounts_count='' @ decimal (length rows) @ [newline])
      @ (if rows = [] then ''no_disk_mounts=true'' @ [newline] else [])
      @ concat (map format_disk_usage_row rows) @ (if extra then truncation_marker else []))"
  unfolding format_disk_usage_body_def disk.body_of_rows by (cases "rows = []") simp_all

interpretation disk_usage: reporting_tool disk_usage_tool "64 * 1024"
  by unfold_locales
    (auto simp: disk_usage_tool_def disk_call_def Let_def disk_body_clip length_clip
      split: if_splits)

section \<open>Percentages are right\<close>

lemma round_half_even_bounds:
  assumes "0 < b"
  shows "a div b \<le> round_half_even a b" "2 * (b * round_half_even a b) \<le> 2 * a + b"
proof -
  define q r where "q = a div b" and "r = a mod b"
  then have a: "a = q * b + r" and rb: "r < b" using assms by simp_all
  show "a div b \<le> round_half_even a b"
    by (simp add: round_half_even_def Let_def)
  consider "round_half_even a b = q" | "round_half_even a b = q + 1" "b \<le> 2 * r"
    unfolding round_half_even_def Let_def q_def [symmetric] r_def [symmetric]
    by (cases "2 * r < b"; cases "b < 2 * r"; cases "even q") simp_all
  then show "2 * (b * round_half_even a b) \<le> 2 * a + b"
  proof cases
    case 1
    then show ?thesis unfolding a by (simp add: algebra_simps)
  next
    case 2
    then have "2 * (b * (q + 1)) \<le> 2 * (q * b) + 2 * r + b" by (simp add: algebra_simps)
    with 2(1) show ?thesis unfolding a by (simp add: algebra_simps)
  qed
qed

lemma bit_length_le: "n < 2 ^ k \<Longrightarrow> bit_length n \<le> k"
proof (induction k arbitrary: n)
  case 0
  then have "n = 0" by simp
  then show ?case by (simp add: bit_length.simps [of 0])
next
  case (Suc k)
  then have "bit_length (n div 2) \<le> k" by (intro Suc.IH) simp
  then show ?case by (simp add: bit_length.simps [of n])
qed

lemma to_long_double_exact: "n < 2 ^ 64 \<Longrightarrow> to_long_double n = n"
  using bit_length_le [of n 64] by (simp add: to_long_double_def round_half_even_def)

lemma to_long_double_bound: "n < 2 ^ 71 \<Longrightarrow> to_long_double n \<le> n + 64"
proof -
  assume n: "n < 2 ^ 71"
  define k where "k = bit_length n - 64"
  have k: "k \<le> 7" using bit_length_le [OF n] by (simp add: k_def)
  then have "(2::nat) ^ k \<le> 2 ^ 7" by (intro power_increasing) simp_all
  moreover have "2 * (2 ^ k * round_half_even n (2 ^ k)) \<le> 2 * n + 2 ^ k"
    by (rule round_half_even_bounds) simp
  ultimately show ?thesis
    by (simp add: to_long_double_def Let_def k_def [symmetric] mult.commute)
qed

lemma long_double_quotient_bounds:
  assumes b: "0 < b" and q: "a div b < 128"
  shows "a div b \<le> long_double_quotient a b" "long_double_quotient a b \<le> a div b + 1"
    "b < 2 ^ 58 * ((a div b + 1) * b - a) \<Longrightarrow> long_double_quotient a b = a div b"
proof -
  define q s R where "q = a div b" and "s = 64 - bit_length (a div b)"
    and "R = round_half_even (a * 2 ^ s) b"
  have l: "long_double_quotient a b = R div 2 ^ s"
    by (simp add: long_double_quotient_def R_def s_def Let_def)
  have "bit_length (a div b) \<le> 7" by (rule bit_length_le) (use q in simp)
  then have s: "57 \<le> s" by (simp add: s_def)
  have qb: "q * b \<le> a" "a + 1 \<le> (q + 1) * b"
    using b dividend_less_div_times [of b a] by (simp_all add: q_def algebra_simps)
  note R = round_half_even_bounds [OF b, of "a * 2 ^ s", folded R_def]
  have "q * 2 ^ s \<le> a * 2 ^ s div b"
    using qb(1) b by (metis div_le_mono div_mult_self_is_m mult.assoc mult.commute mult_le_mono1)
  with R(1) have lo: "q * 2 ^ s \<le> R" by simp
  then show "a div b \<le> long_double_quotient a b"
    unfolding l q_def [symmetric] by (simp add: less_eq_div_iff_mult_less_eq)
  have step: "2 * (b * R) + 2 * 2 ^ s \<le> 2 * (b * ((q + 1) * 2 ^ s)) + b"
  proof -
    have "(a + 1) * 2 ^ s \<le> (q + 1) * b * 2 ^ s" using qb(2) by (rule mult_le_mono1)
    with R(2) show ?thesis by (simp add: algebra_simps)
  qed
  have "R \<le> (q + 1) * 2 ^ s"
  proof (rule ccontr)
    assume "\<not> ?thesis"
    then have "(q + 1) * 2 ^ s + 1 \<le> R" by simp
    then have "b * ((q + 1) * 2 ^ s + 1) \<le> b * R" by (rule mult_le_mono2)
    with step b show False by (simp add: algebra_simps)
  qed
  then show "long_double_quotient a b \<le> a div b + 1"
    unfolding l q_def [symmetric] using div_le_mono [of R "(q + 1) * 2 ^ s" "2 ^ s"] by simp
  show "long_double_quotient a b = a div b" if close: "b < 2 ^ 58 * ((a div b + 1) * b - a)"
  proof -
    define d where "d = (q + 1) * b - a"
    have ad: "a + d = (q + 1) * b" using qb(2) by (simp add: d_def)
    have "(2::nat) ^ 57 \<le> 2 ^ s" using s by (intro power_increasing) simp_all
    then have "2 ^ 58 * d \<le> 2 * 2 ^ s * d" by (intro mult_le_mono1) simp
    with close have "b < 2 * 2 ^ s * d" by (simp only: d_def q_def)
    then have "b < 2 * (d * 2 ^ s)" by (simp only: ac_simps)
    moreover have "a * 2 ^ s + d * 2 ^ s = b * ((q + 1) * 2 ^ s)"
      using arg_cong [OF ad, of "\<lambda>x. x * 2 ^ s"] by (simp add: algebra_simps)
    ultimately have "2 * (b * R) < 2 * (b * ((q + 1) * 2 ^ s))"
      using R(2) by linarith
    then have "R < (q + 1) * 2 ^ s" by simp
    with lo show ?thesis
      unfolding l q_def [symmetric] by (intro div_nat_eqI) (simp_all add: algebra_simps)
  qed
qed

lemma percent_quotient_exact:
  assumes "0 < c" "u \<le> c" "c < 2 ^ 57"
  shows "long_double_quotient (u * 100) c = u * 100 div c"
proof (rule long_double_quotient_bounds(3) [OF assms(1)])
  have "1 \<le> (u * 100 div c + 1) * c - u * 100" using dividend_less_div_times [OF assms(1), of "u * 100"] by simp
  then have "2 ^ 58 * 1 \<le> 2 ^ 58 * ((u * 100 div c + 1) * c - u * 100)" by (rule mult_le_mono2)
  with assms(3) show "c < 2 ^ 58 * ((u * 100 div c + 1) * c - u * 100)" by simp
  show "u * 100 div c < 128" using assms(1,2) div_le_mono [of "u * 100" "c * 100" c] by simp
qed

lemma percent_quotient_bounded:
  assumes c: "2 ^ 57 \<le> c" and p: "p \<le> c * 100 + 64"
  shows "long_double_quotient p c \<le> 100"
proof -
  have c0: "0 < c" using c by simp
  have "p < 101 * c" using p c by simp
  then have q: "p div c \<le> 100" using c0 by (simp add: less_mult_imp_div_less less_Suc_eq_le [symmetric])
  show ?thesis
  proof (cases "p div c = 100")
    case True
    have "long_double_quotient p c = p div c"
    proof (rule long_double_quotient_bounds(3) [OF c0])
      have "c - 64 \<le> (p div c + 1) * c - p" using True p by simp
      then have "2 ^ 58 * (c - 64) \<le> 2 ^ 58 * ((p div c + 1) * c - p)" by (rule mult_le_mono2)
      with c show "c < 2 ^ 58 * ((p div c + 1) * c - p)" by simp
    qed (use q in simp)
    with True show ?thesis by simp
  next
    case False
    with q long_double_quotient_bounds(2) [OF c0, of p] show ?thesis by simp
  qed
qed

text \<open>
  C33: \<open>used_percent\<close> is a percentage, whatever the two sizes are, although it is computed in
  rounded extended-precision arithmetic; for every capacity below 128 PiB it is the exact integer part of
  the used share.
\<close>

theorem used_percent_is_exact:
  "used_percent capacity available \<le> 100
   \<and> (unat capacity < 2 ^ 57 \<longrightarrow>
        used_percent capacity available =
          (if available < capacity then (unat capacity - unat available) * 100 div unat capacity else 0))"
proof (cases "capacity \<le> available")
  case True
  then show ?thesis by (auto simp: used_percent_def)
next
  case False
  define c u p where "c = unat capacity" and "u = unat (capacity - available)"
    and "p = to_long_double (u * 100)"
  from False have lt: "available < capacity" by simp
  then have u: "u = c - unat available" "u \<le> c" "0 < c"
    using unat_sub [of available capacity] by (simp_all add: u_def c_def word_less_nat_alt less_imp_le)
  have c: "c < 2 ^ 64" using unsigned_less [of capacity, where 'a = nat] by (simp add: c_def)
  have up: "used_percent capacity available = long_double_quotient p c"
    using False lt by (auto simp: used_percent_def p_def u_def c_def Let_def)
  show ?thesis
  proof (cases "c < 2 ^ 57")
    case True
    then have "p = u * 100" unfolding p_def using u(2) by (intro to_long_double_exact) simp
    with up have "used_percent capacity available = u * 100 div c"
      using percent_quotient_exact [OF u(3,2) True] by simp
    moreover have "u * 100 div c \<le> 100" using u(2,3) div_le_mono [of "u * 100" "c * 100" c] by simp
    ultimately show ?thesis using u(1) lt by (simp add: c_def)
  next
    case big: False
    have "u * 100 < 2 ^ 71" using u(2) c by simp
    then have "p \<le> u * 100 + 64" unfolding p_def by (rule to_long_double_bound)
    then have "p \<le> c * 100 + 64" using u(2) by simp
    with big have "long_double_quotient p c \<le> 100" by (intro percent_quotient_bounded) simp_all
    with up big show ?thesis by (simp add: c_def)
  qed
qed

lemma used_percent_is_exact_witness: "used_percent 1000 333 = 66"
proof -
  have "used_percent 1000 333 =
      (if (333 :: u64) < 1000 then (unat (1000 :: u64) - unat (333 :: u64)) * 100 div unat (1000 :: u64) else 0)"
    using used_percent_is_exact [of 1000 333] by simp
  then show ?thesis by simp
qed

section \<open>Mount lines are read as the kernel writes them\<close>

text \<open>
  The kernel writes blanks, tabs, newlines and backslashes of a value as a backslash with three octal
  digits.
\<close>

definition octal_escape :: "char \<Rightarrow> string" where
  "octal_escape c = (let n = of_char c in
     [backslash, digit_char (n div 64), digit_char (n div 8 mod 8), digit_char (n mod 8)])"

definition mangle :: "string \<Rightarrow> string" where
  "mangle s = concat (map (\<lambda>c. if c = CHR '' '' \<or> c = tab \<or> c = newline \<or> c = backslash
     then octal_escape c else [c]) s)"

lemma octal_digit_value_digit_char: "d < 8 \<Longrightarrow> octal_digit_value (digit_char d) = Some d"
  by (simp add: octal_digit_value_def of_char_digit_char less_char_def)

lemma decode_plain: "c \<noteq> backslash \<Longrightarrow> decode_mountinfo_value (c # cs) = c # decode_mountinfo_value cs"
  by (cases "(c # cs)" rule: decode_mountinfo_value.cases; cases "cs" rule: decode_mountinfo_value.cases) auto

lemma octal_digits:
  fixes n :: nat
  assumes "n < 256"
  shows "n div 64 < 8" "n div 64 * 64 + n div 8 mod 8 * 8 + n mod 8 = n"
proof -
  show "n div 64 < 8" using assms by (simp add: div_less_iff_less_mult)
  have "n div 64 = n div 8 div 8" by (simp add: div_mult2_eq [symmetric])
  moreover have "n div 8 div 8 * 8 + n div 8 mod 8 = n div 8" "n div 8 * 8 + n mod 8 = n" by simp_all
  ultimately show "n div 64 * 64 + n div 8 mod 8 * 8 + n mod 8 = n" by linarith
qed

lemma of_char_256: "(of_char c :: nat) < 256"
  using of_char_mod_256 [of c, where 'a = nat] by (metis mod_less_divisor zero_less_numeral)

lemma decode_escape: "decode_mountinfo_value (octal_escape c @ cs) = c # decode_mountinfo_value cs"
  using octal_digits [OF of_char_256 [of c]]
  by (simp add: octal_escape_def Let_def octal_digit_value_digit_char)

lemma decode_mangle: "decode_mountinfo_value (mangle s) = s"
proof (induction s)
  case (Cons c s)
  then show ?case
    by (auto simp: mangle_def decode_plain decode_escape)
qed (simp add: mangle_def)

lemma mangle_clean: "mangle s = [] \<longleftrightarrow> s = []" "CHR '' '' \<notin> set (mangle s)"
proof -
  have d: "CHR '' '' \<noteq> digit_char d" if "d < 8" for d
    using of_char_digit_char [of d] that by (auto dest!: arg_cong [of "CHR '' ''" _ "of_char :: char \<Rightarrow> nat"])
  have "CHR '' '' \<notin> set (octal_escape c)" for c
    using d [OF octal_digits(1) [OF of_char_256 [of c]]] d [of "of_char c div 8 mod 8"] d [of "of_char c mod 8"]
    by (simp add: octal_escape_def Let_def)
  then show "CHR '' '' \<notin> set (mangle s)" by (auto simp: mangle_def split: if_splits)
  show "mangle s = [] \<longleftrightarrow> s = []" by (cases s) (auto simp: mangle_def octal_escape_def Let_def)
qed

lemma mangle_dash: "mangle s = ''-'' \<longleftrightarrow> s = ''-''"
  using decode_mangle [of s] by (auto simp: mangle_def [of "''-''"])

definition mount_line :: "string list \<Rightarrow> string \<Rightarrow> string \<Rightarrow> string list \<Rightarrow> string \<Rightarrow> string \<Rightarrow> string \<Rightarrow> string" where
  "mount_line ids mount_point options tags fs_type source super_options =
     join_with '' '' (ids @ [mangle mount_point, options] @ tags
       @ [''-'', mangle fs_type, mangle source, super_options])"

definition plain_field :: "string \<Rightarrow> bool" where
  "plain_field f \<longleftrightarrow> f \<noteq> [] \<and> CHR '' '' \<notin> set f \<and> f \<noteq> ''-''"

text \<open>
  C32: A line of \<open>/proc/self/mountinfo\<close> as the kernel writes it (four leading fields, the escaped
  mount point, options, any number of optional tags, the separating dash, the escaped type and source and the
  super options) is parsed to exactly the mount point, type and source it was written for, blanks,
  tabs, newlines and backslashes in them included.
\<close>

theorem mount_line_is_read_back:
  assumes "length ids = 4" "\<forall>f \<in> set (ids @ options # tags). plain_field f"
    and "mount_point \<noteq> []" "mount_point \<noteq> ''-''" "fs_type \<noteq> []" "src \<noteq> []"
    and "super \<noteq> []" "CHR '' '' \<notin> set super"
  shows "parse_mountinfo_line (mount_line ids mount_point options tags fs_type src super) =
     Some \<lparr>dm_mount_point = mount_point, dm_fs_type = fs_type, dm_source = src\<rparr>"
proof -
  let ?pre = "ids @ [mangle mount_point, options] @ tags"
  let ?fs = "?pre @ [''-'', mangle fs_type, mangle src, super]"
  have "split_spaces (mount_line ids mount_point options tags fs_type src super) = ?fs"
    unfolding mount_line_def append_assoc [symmetric]
    using assms mangle_clean
    by (intro spaces.split_join_fields) (auto simp: plain_field_def)
  moreover have "find_field ''-'' ?fs = Some (6 + length tags)"
  proof -
    have "\<forall>f \<in> set ?pre. f \<noteq> ''-''" using assms by (auto simp: plain_field_def mangle_dash)
    then have "takeWhile (\<lambda>x. x \<noteq> ''-'') ?fs = ?pre" by (subst takeWhile_append2) auto
    then show ?thesis using assms(1) by (simp add: find_field_def)
  qed
  ultimately show ?thesis
    using assms(1) by (simp add: parse_mountinfo_line_def Let_def nth_append decode_mangle)
qed

lemma mount_line_is_read_back_witness:
  "parse_mountinfo_line (mount_line [''36'', ''35'', ''98:0'', ''/''] ''/mnt/a b'' ''rw'' [''master:1''] ''ext4'' ''/dev/sda1'' ''rw'') =
     Some \<lparr>dm_mount_point = ''/mnt/a b'', dm_fs_type = ''ext4'', dm_source = ''/dev/sda1''\<rparr>"
  by (rule mount_line_is_read_back) (auto simp: plain_field_def)

section \<open>The report\<close>

text \<open>The mounts of a mount table that can be measured, in file order.\<close>

definition measured_mount :: "machine \<Rightarrow> string \<Rightarrow> disk_usage_row option" where
  "measured_mount m line =
     Option.bind (parse_mountinfo_line line) (\<lambda>mount.
       if is_disk_usage_mount_candidate mount
       then map_option (\<lambda>(capacity, free, available).
              \<lparr>du_mount_point = dm_mount_point mount, du_fs_type = dm_fs_type mount,
               du_source = dm_source mount, du_capacity_bytes = capacity, du_free_bytes = free,
               du_available_bytes = available, du_used_percent = used_percent capacity available\<rparr>)
              (mc_space m (dm_mount_point mount))
       else None)"

definition measured_mounts :: "machine \<Rightarrow> string \<Rightarrow> disk_usage_row list" where
  "measured_mounts m content = List.map_filter (measured_mount m) (get_lines content)"

lemma map_filter_step:
  "List.map_filter f (x # xs) = (case f x of None \<Rightarrow> List.map_filter f xs | Some y \<Rightarrow> y # List.map_filter f xs)"
  by (simp add: List.map_filter_def split: option.split)

lemma disk_rows_step:
  "disk_rows m (line # ls) (rows, extra) =
     (case measured_mount m line of
        None \<Rightarrow> disk_rows m ls (rows, extra)
      | Some row \<Rightarrow> if length rows < 100 then disk_rows m ls (rows @ [row], extra)
                    else disk_rows m ls (rows, True))"
  by (auto simp: measured_mount_def split: option.splits)

lemma disk_rows_spec:
  "length rows \<le> 100 \<Longrightarrow> disk_rows m ls (rows, extra) =
     (let found = rows @ List.map_filter (measured_mount m) ls
      in (take 100 found, extra \<or> 100 < length found))"
proof (induction ls arbitrary: rows extra)
  case Nil
  then show ?case by (simp add: List.map_filter_def)
next
  case (Cons line ls)
  then show ?case
    by (simp del: disk_rows.simps add: disk_rows_step map_filter_step Let_def take_Cons' split: option.split)
qed

text \<open>
  C31: What \<open>disk.usage\<close> reports: if the mount table can be read, the tool succeeds with one piece of
  evidence whose body is the text of the first 100 measurable mounts, sorted by mount point, truncated
  once to at most 64 KiB if it is longer; the marker for left-out rows is there exactly when there
  are more than 100.
\<close>

theorem disk_usage_report:
  assumes "mc_file m ''/proc/self/mountinfo'' = Some content"
  shows "\<exists>rows. mset rows = mset (take 100 (measured_mounts m content))
     \<and> sorted (map du_mount_point rows)
     \<and> disk_call m q = Inr (evidence_response q ''disk usage listed'' ''disk.usage''
          ''bounded mounted filesystem usage''
          (clip (64 * 1024)
            ((''disk_mounts_count='' @ decimal (length rows) @ [newline])
             @ (if rows = [] then ''no_disk_mounts=true'' @ [newline] else [])
             @ concat (map format_disk_usage_row rows)
             @ (if 100 < length (measured_mounts m content) then truncation_marker else [])))
          (mc_utc m))"
proof -
  let ?rows = "sort_range (by_key du_mount_point) (take 100 (measured_mounts m content))"
  have "disk_rows m (get_lines content) ([], False) =
      (take 100 (measured_mounts m content), 100 < length (measured_mounts m content))"
    by (simp add: disk_rows_spec measured_mounts_def Let_def)
  with assms have "default_disk_usage_provider m = \<lparr>dr_ok = True, dr_error = [], dr_rows = ?rows,
      dr_has_more_rows = 100 < length (measured_mounts m content)\<rparr>"
    by (simp add: default_disk_usage_provider_def)
  then show ?thesis
    by (intro exI [of _ ?rows])
      (simp add: disk_call_def disk_body_clip sort.sort_permutes sort.sort_sorted)
qed

definition empty_machine :: machine where
  "empty_machine = \<lparr>mc_file = (\<lambda>_. Some []), mc_exists = (\<lambda>_. Inr True), mc_list = (\<lambda>_. DirNames [] None),
     mc_symlink = (\<lambda>_. None), mc_space = (\<lambda>_. None), mc_uname = None, mc_ifaddrs = None,
     mc_utc = \<lparr>tm_year = 126, tm_mon = 0, tm_mday = 2, tm_hour = 3, tm_min = 4, tm_sec = 5\<rparr>\<rparr>"

lemma disk_usage_report_witness:
  "\<exists>rows. mset rows = mset (take 100 (measured_mounts empty_machine [])) \<and> sorted (map du_mount_point rows)"
  using disk_usage_report [where m = empty_machine and content = "[]"] by (auto simp: empty_machine_def)

end
