(* ===== verification/Power_Tool.thy ===== *)
theory Power_Tool
  imports Machine Redaction
begin

text \<open>
  \<open>src/tools/power_tool.cpp\<close> and \<open>src/tools/system_info_tool.cpp\<close>: the power supplies of
  sysfs in the order of their names, and the identity of the system. The system information tool
  is the one tool whose body has no limit and is not redacted.
\<close>

section \<open>Power supplies\<close>

definition power_append :: "string \<Rightarrow> string \<Rightarrow> bool \<Rightarrow> string \<times> bool" where
  "power_append = append_bounded (64 * 1024)"

record power_supply_row =
  ps_name :: string
  ps_type :: string
  ps_status :: string
  ps_online :: string
  ps_capacity_percent :: string
  ps_health :: string
  ps_technology :: string
  ps_energy_now :: string
  ps_energy_full :: string
  ps_charge_now :: string
  ps_charge_full :: string
  ps_power_now :: string
  ps_voltage_now :: string
  ps_current_now :: string
  ps_cycle_count :: string
  ps_manufacturer :: string
  ps_model_name :: string
  ps_source :: string

definition format_power_row :: "power_supply_row \<Rightarrow> string" where
  "format_power_row row =
     ''power_supply=name='' @ redact_likely_secret (unknown_if_empty (ps_name row)) @
     '' type='' @ redact_likely_secret (unknown_if_empty (ps_type row)) @
     '' status='' @ redact_likely_secret (unknown_if_empty (ps_status row)) @
     '' online='' @ redact_likely_secret (unknown_if_empty (ps_online row)) @
     '' capacity_percent='' @ redact_likely_secret (unknown_if_empty (ps_capacity_percent row)) @
     '' health='' @ redact_likely_secret (unknown_if_empty (ps_health row)) @
     '' technology='' @ redact_likely_secret (unknown_if_empty (ps_technology row)) @
     '' energy_now='' @ redact_likely_secret (unknown_if_empty (ps_energy_now row)) @
     '' energy_full='' @ redact_likely_secret (unknown_if_empty (ps_energy_full row)) @
     '' charge_now='' @ redact_likely_secret (unknown_if_empty (ps_charge_now row)) @
     '' charge_full='' @ redact_likely_secret (unknown_if_empty (ps_charge_full row)) @
     '' power_now='' @ redact_likely_secret (unknown_if_empty (ps_power_now row)) @
     '' voltage_now='' @ redact_likely_secret (unknown_if_empty (ps_voltage_now row)) @
     '' current_now='' @ redact_likely_secret (unknown_if_empty (ps_current_now row)) @
     '' cycle_count='' @ redact_likely_secret (unknown_if_empty (ps_cycle_count row)) @
     '' manufacturer='' @ redact_likely_secret (unknown_if_empty (ps_manufacturer row)) @
     '' model_name='' @ redact_likely_secret (unknown_if_empty (ps_model_name row)) @
     '' source='' @ redact_likely_secret (unknown_if_empty (ps_source row)) @ [newline]"

definition format_power_status_body :: "power_supply_row list \<Rightarrow> bool \<Rightarrow> string" where
  "format_power_status_body rows has_more_rows =
     rows_body power_append (map format_power_row rows) has_more_rows
       (append_lines power_append
          ((''power_supplies_count='' @ decimal (length rows) @ [newline])
           # (if rows = [] then [''no_power_supplies=true'' @ [newline]] else []))
          ([], False))"

record power_status_result =
  pr_ok :: bool
  pr_error :: string
  pr_rows :: "power_supply_row list"
  pr_has_more_rows :: bool

definition power_row :: "machine \<Rightarrow> string \<Rightarrow> power_supply_row" where
  "power_row m name =
     (let supply_path = path_join ''/sys/class/power_supply'' name;
          rd = (\<lambda>f. read_text_file m (path_join supply_path f))
      in \<lparr>ps_name = name, ps_type = rd ''type'', ps_status = rd ''status'', ps_online = rd ''online'',
          ps_capacity_percent = rd ''capacity'', ps_health = rd ''health'',
          ps_technology = rd ''technology'', ps_energy_now = rd ''energy_now'',
          ps_energy_full = rd ''energy_full'', ps_charge_now = rd ''charge_now'',
          ps_charge_full = rd ''charge_full'', ps_power_now = rd ''power_now'',
          ps_voltage_now = rd ''voltage_now'', ps_current_now = rd ''current_now'',
          ps_cycle_count = rd ''cycle_count'', ps_manufacturer = rd ''manufacturer'',
          ps_model_name = rd ''model_name'', ps_source = ''sysfs''\<rparr>)"

definition power_failed :: power_status_result where
  "power_failed = \<lparr>pr_ok = False, pr_error = ''power supply status is not available'', pr_rows = [],
     pr_has_more_rows = False\<rparr>"

definition default_power_status_provider :: "machine \<Rightarrow> power_status_result result" where
  "default_power_status_provider m =
     bind_result (mc_exists m ''/sys/class/power_supply'') (\<lambda>present.
       if \<not> present then Inr power_failed
       else bind_result (list_names m ''/sys/class/power_supply'') (\<lambda>listed.
         (case listed of
            None \<Rightarrow> Inr power_failed
          | Some names \<Rightarrow>
              let (rows, extra) = limited_rows 16 (power_row m) (sort_range (<) names) ([], False)
              in Inr \<lparr>pr_ok = True, pr_error = [], pr_rows = rows, pr_has_more_rows = extra\<rparr>)))"

definition power_call :: "machine \<Rightarrow> tool_request \<Rightarrow> tool_response result" where
  "power_call m q =
     bind_result (default_power_status_provider m) (\<lambda>res.
       if \<not> pr_ok res
       then Inr (error_response q (error_or ''power status provider failed'' (pr_error res)))
       else Inr (evidence_response q ''power status listed'' ''power.status''
              ''bounded local power supply status''
              (format_power_status_body (pr_rows res) (pr_has_more_rows res)) (mc_utc m)))"

definition power_status_tool :: "machine tool" where
  "power_status_tool = \<lparr>tool_name = ''power.status'', tool_risk = ReadOnly, tool_call = power_call\<rparr>"

section \<open>System information\<close>

text \<open>
  \<open>body << os_release.rdbuf()\<close> sets the fail bit of \<open>body\<close> if the file is empty, and everything
  written after that is dropped: the state of the stream is the text and that bit.
\<close>

definition stream_file :: "string \<Rightarrow> string \<times> bool \<Rightarrow> string \<times> bool" where
  "stream_file content st =
     (case st of (text, failed) \<Rightarrow>
        if failed then st else if content = [] then (text, True) else (text @ content, False))"

definition stream_text :: "string \<Rightarrow> string \<times> bool \<Rightarrow> string \<times> bool" where
  "stream_text s st = (case st of (text, failed) \<Rightarrow> if failed then st else (text @ s, False))"

definition system_info_body :: "machine \<Rightarrow> string \<Rightarrow> string" where
  "system_info_body m os_release_path =
     (let st = (case mc_file m os_release_path of
                  Some content \<Rightarrow> stream_file content ([], False)
                | None \<Rightarrow> stream_text (''os_release=unavailable'' @ [newline]) ([], False));
          st' = (case mc_uname m of
                   None \<Rightarrow> st
                 | Some u \<Rightarrow>
                     stream_text (''machine='' @ un_machine u @ [newline])
                       (stream_text (''release='' @ un_release u @ [newline])
                         (stream_text (''sysname='' @ un_sysname u @ [newline]) st)))
      in fst st')"

definition system_info_call :: "string \<Rightarrow> machine \<Rightarrow> tool_request \<Rightarrow> tool_response result" where
  "system_info_call os_release_path m q =
     Inr (evidence_response q ''system info collected'' ''system.info'' ''OS identity and kernel summary''
       (system_info_body m os_release_path) (mc_utc m))"

definition system_info_tool :: "string \<Rightarrow> machine tool" where
  "system_info_tool os_release_path =
     \<lparr>tool_name = ''system.info'', tool_risk = ReadOnly, tool_call = system_info_call os_release_path\<rparr>"

section \<open>Facts\<close>

interpretation power: bounded_appender "64 * 1024" power_append
  unfolding power_append_def by (rule append_bounded_contract) simp_all

lemma power_body_clip:
  "format_power_status_body rows extra = clip (64 * 1024)
     ((''power_supplies_count='' @ decimal (length rows) @ [newline])
      @ (if rows = [] then ''no_power_supplies=true'' @ [newline] else [])
      @ concat (map format_power_row rows) @ (if extra then truncation_marker else []))"
  unfolding format_power_status_body_def power.body_of_rows by (cases "rows = []") simp_all

interpretation power_status: reporting_tool power_status_tool "64 * 1024"
  by unfold_locales
    (auto simp: power_status_tool_def power_call_def bind_result_eq_Inr power_body_clip length_clip
      split: if_splits)

interpretation system_info: plain_tool "system_info_tool path"
  by unfold_locales (auto simp: system_info_tool_def system_info_call_def)

text \<open>An empty release file silences the rest of the body.\<close>

lemma empty_os_release_hides_uname: "mc_file m path = Some [] \<Longrightarrow> system_info_body m path = []"
  by (simp add: system_info_body_def stream_file_def stream_text_def Let_def split: option.split)

end
