(* ===== verification/Network_Tool.thy ===== *)
theory Network_Tool
  imports Machine Redaction
begin

text \<open>
  \<open>src/tools/network_tool.cpp\<close>: the interfaces of sysfs with their addresses (\<open>getifaddrs\<close>), the
  default route (\<open>/proc/net/route\<close>) and their counters. An entry of \<open>getifaddrs\<close> is its name and
  address family with the host text of \<open>getnameinfo\<close>, each missing where the source skips it.
\<close>

section \<open>Parsing\<close>

definition network_append :: "string \<Rightarrow> string \<Rightarrow> bool \<Rightarrow> string \<times> bool" where
  "network_append = append_bounded (64 * 1024)"

function split_whitespace :: "string \<Rightarrow> string list" where
  "split_whitespace s =
     (let rest = dropWhile trim_front_char s
      in if rest = [] then []
         else takeWhile (\<lambda>c. \<not> trim_front_char c) rest
              # split_whitespace (dropWhile (\<lambda>c. \<not> trim_front_char c) rest))"
  by pat_completeness auto

termination
proof (relation "measure length")
  fix s :: string and rest
  assume r: "rest = dropWhile trim_front_char s" "rest \<noteq> []"
  then have "\<not> trim_front_char (hd rest)" using hd_dropWhile by blast
  then have "length (dropWhile (\<lambda>c. \<not> trim_front_char c) rest) < length rest"
    using r(2) by (cases rest) (simp_all add: le_imp_less_Suc length_dropWhile_le)
  also have "length rest \<le> length s" using r(1) by (simp add: length_dropWhile_le)
  finally show "(dropWhile (\<lambda>c. \<not> trim_front_char c) rest, s) \<in> measure length" by simp
qed simp

declare split_whitespace.simps [simp del]

text \<open>\<open>flags & kRouteUp\<close> is the lowest bit.\<close>

definition parse_default_route_interface :: "string \<Rightarrow> string option" where
  "parse_default_route_interface line =
     (let parts = split_whitespace line
      in if length parts < 8 \<or> parts ! 0 = ''Iface'' then None
         else if parts ! 0 = [] \<or> parts ! 1 \<noteq> ''00000000'' \<or> parts ! 7 \<noteq> ''00000000'' then None
         else case stoull 16 (parts ! 3) of
                None \<Rightarrow> None
              | Some flags \<Rightarrow> if \<not> bit flags 0 then None else Some (parts ! 0))"

definition read_uint_file :: "machine \<Rightarrow> string \<Rightarrow> u64" where
  "read_uint_file m path =
     (case stoull 10 (read_text_file_or m path ''0'') of None \<Rightarrow> 0 | Some n \<Rightarrow> n)"

definition add_bounded_unique :: "string list \<Rightarrow> string \<Rightarrow> string list" where
  "add_bounded_unique vals v =
     (if v = [] \<or> 8 \<le> length vals then vals else if v \<in> set vals then vals else vals @ [v])"

record interface_addresses =
  ia_ipv4 :: "string list"
  ia_ipv6 :: "string list"

definition no_addresses :: interface_addresses where
  "no_addresses = \<lparr>ia_ipv4 = [], ia_ipv6 = []\<rparr>"

definition AF_INET :: nat where "AF_INET = 2"
definition AF_INET6 :: nat where "AF_INET6 = 10"

text \<open>\<open>addresses[name]\<close> creates an empty entry where there is none.\<close>

fun collect_addresses ::
  "(string option \<times> (nat \<times> string option) option) list \<Rightarrow> interface_addresses smap
   \<Rightarrow> interface_addresses smap" where
  "collect_addresses [] acc = acc"
| "collect_addresses ((Some name, Some (family, Some host)) # rest) acc =
     (if family \<noteq> AF_INET \<and> family \<noteq> AF_INET6 then collect_addresses rest acc
      else let item = (case smap_find acc name of None \<Rightarrow> no_addresses | Some item \<Rightarrow> item);
               item' = (if family = AF_INET
                        then item\<lparr>ia_ipv4 := add_bounded_unique (ia_ipv4 item) host\<rparr>
                        else item\<lparr>ia_ipv6 := add_bounded_unique (ia_ipv6 item) host\<rparr>)
           in collect_addresses rest (smap_assign name item' acc))"
| "collect_addresses (_ # rest) acc = collect_addresses rest acc"

definition collect_interface_addresses :: "machine \<Rightarrow> interface_addresses smap" where
  "collect_interface_addresses m =
     (case mc_ifaddrs m of None \<Rightarrow> [] | Some entries \<Rightarrow> collect_addresses entries [])"

definition collect_default_route_interfaces :: "machine \<Rightarrow> string list" where
  "collect_default_route_interfaces m =
     (case mc_file m ''/proc/net/route'' of
        None \<Rightarrow> []
      | Some content \<Rightarrow> List.map_filter parse_default_route_interface (get_lines content))"

section \<open>Rows and body\<close>

record network_interface_row =
  ni_name :: string
  ni_oper_state :: string
  ni_type :: string
  ni_mtu :: string
  ni_carrier :: string
  ni_mac_address :: string
  ni_ipv4_addresses :: "string list"
  ni_ipv6_addresses :: "string list"
  ni_rx_bytes :: u64
  ni_tx_bytes :: u64
  ni_default_route :: bool
  ni_source :: string

definition format_network_address_list :: "string list \<Rightarrow> string" where
  "format_network_address_list addresses =
     (if addresses = [] then ''none''
      else join_with '','' (take 8 addresses) @ (if 8 < length addresses then '',truncated'' else []))"

definition format_network_row :: "network_interface_row \<Rightarrow> string" where
  "format_network_row row =
     ''name='' @ redact_likely_secret (ni_name row) @
     '' oper_state='' @ redact_likely_secret (ni_oper_state row) @
     '' type='' @ redact_likely_secret (ni_type row) @
     '' mtu='' @ redact_likely_secret (ni_mtu row) @
     '' carrier='' @ redact_likely_secret (ni_carrier row) @
     '' mac='' @ redact_likely_secret (ni_mac_address row) @
     '' ipv4='' @ redact_likely_secret (format_network_address_list (ni_ipv4_addresses row)) @
     '' ipv6='' @ redact_likely_secret (format_network_address_list (ni_ipv6_addresses row)) @
     '' rx_bytes='' @ to_string_u64 (ni_rx_bytes row) @
     '' tx_bytes='' @ to_string_u64 (ni_tx_bytes row) @
     '' default_route='' @ (if ni_default_route row then ''true'' else ''false'') @
     '' source='' @ redact_likely_secret (ni_source row) @ [newline]"

definition format_network_summary_body :: "network_interface_row list \<Rightarrow> bool \<Rightarrow> string" where
  "format_network_summary_body rows has_more_rows =
     rows_body network_append (map format_network_row rows) has_more_rows
       (append_lines network_append
          ((''network_interfaces_count='' @ decimal (length rows) @ [newline])
           # (if rows = [] then [''no_network_interfaces=true'' @ [newline]] else []))
          ([], False))"

section \<open>Provider and tool\<close>

record network_summary_result =
  nr_ok :: bool
  nr_error :: string
  nr_rows :: "network_interface_row list"
  nr_has_more_rows :: bool

definition network_failed :: network_summary_result where
  "network_failed = \<lparr>nr_ok = False, nr_error = ''network interfaces are not available'', nr_rows = [],
     nr_has_more_rows = False\<rparr>"

definition network_row ::
  "machine \<Rightarrow> interface_addresses smap \<Rightarrow> string list \<Rightarrow> string \<Rightarrow> network_interface_row" where
  "network_row m addresses default_routes name =
     (let interface_path = path_join ''/sys/class/net'' name;
          row_addresses = (case smap_find addresses name of None \<Rightarrow> no_addresses | Some a \<Rightarrow> a);
          rd = (\<lambda>f. read_text_file m (path_join interface_path f));
          stat = path_join interface_path ''statistics''
      in \<lparr>ni_name = name, ni_oper_state = rd ''operstate'', ni_type = rd ''type'', ni_mtu = rd ''mtu'',
          ni_carrier = rd ''carrier'', ni_mac_address = rd ''address'',
          ni_ipv4_addresses = ia_ipv4 row_addresses, ni_ipv6_addresses = ia_ipv6 row_addresses,
          ni_rx_bytes = read_uint_file m (path_join stat ''rx_bytes''),
          ni_tx_bytes = read_uint_file m (path_join stat ''tx_bytes''),
          ni_default_route = (name \<in> set default_routes), ni_source = ''sysfs''\<rparr>)"

definition default_network_summary_provider :: "machine \<Rightarrow> network_summary_result result" where
  "default_network_summary_provider m =
     bind_result (mc_exists m ''/sys/class/net'') (\<lambda>present.
       if \<not> present then Inr network_failed
       else let addresses = collect_interface_addresses m;
                default_routes = collect_default_route_interfaces m
            in bind_result (list_names m ''/sys/class/net'') (\<lambda>listed.
                 (case listed of
                    None \<Rightarrow> Inr network_failed
                  | Some names \<Rightarrow>
                      let (rows, extra) = limited_rows 100 (network_row m addresses default_routes)
                            (sort_range (<) names) ([], False)
                      in Inr \<lparr>nr_ok = True, nr_error = [], nr_rows = rows, nr_has_more_rows = extra\<rparr>)))"

definition network_call :: "machine \<Rightarrow> tool_request \<Rightarrow> tool_response result" where
  "network_call m q =
     bind_result (default_network_summary_provider m) (\<lambda>res.
       if \<not> nr_ok res
       then Inr (error_response q (error_or ''network summary provider failed'' (nr_error res)))
       else Inr (evidence_response q ''network interfaces listed'' ''network.summary''
              ''bounded local network interface summary''
              (format_network_summary_body (nr_rows res) (nr_has_more_rows res)) (mc_utc m)))"

definition network_summary_tool :: "machine tool" where
  "network_summary_tool = \<lparr>tool_name = ''network.summary'', tool_risk = ReadOnly, tool_call = network_call\<rparr>"

section \<open>Facts\<close>

interpretation network: bounded_appender "64 * 1024" network_append
  unfolding network_append_def by (rule append_bounded_contract) simp_all

lemma network_body_clip:
  "format_network_summary_body rows extra = clip (64 * 1024)
     ((''network_interfaces_count='' @ decimal (length rows) @ [newline])
      @ (if rows = [] then ''no_network_interfaces=true'' @ [newline] else [])
      @ concat (map format_network_row rows) @ (if extra then truncation_marker else []))"
  unfolding format_network_summary_body_def network.body_of_rows by (cases "rows = []") simp_all

interpretation network_summary: reporting_tool network_summary_tool "64 * 1024"
  by unfold_locales
    (auto simp: network_summary_tool_def network_call_def bind_result_eq_Inr network_body_clip length_clip
      split: if_splits)

interpretation whitespace: field_splitter trim_front_char split_whitespace
proof
  show nil: "split_whitespace s = []" if "\<forall>c \<in> set s. trim_front_char c" for s
    using that by (simp add: split_whitespace.simps [of s])
  show "split_whitespace (c # s) = split_whitespace s" if "trim_front_char c" for c s
    using that by (simp add: split_whitespace.simps [of "c # s"] split_whitespace.simps [of s])
  show "split_whitespace (f @ s) = f # split_whitespace s"
    if f: "f \<noteq> []" "\<forall>c \<in> set f. \<not> trim_front_char c" and s: "s = [] \<or> trim_front_char (hd s)" for f s
  proof -
    have "dropWhile trim_front_char (f @ s) = f @ s" using f by (cases f) auto
    moreover have "takeWhile (\<lambda>c. \<not> trim_front_char c) (f @ s) = f"
      "dropWhile (\<lambda>c. \<not> trim_front_char c) (f @ s) = s"
      using f(2) s by (cases s; simp)+
    ultimately show ?thesis
      using f(1) by (simp add: split_whitespace.simps [of "f @ s"])
  qed
qed

section \<open>Address lists\<close>

definition addresses_ok :: "interface_addresses \<Rightarrow> bool" where
  "addresses_ok a \<longleftrightarrow>
     length (ia_ipv4 a) \<le> 8 \<and> distinct (ia_ipv4 a) \<and> [] \<notin> set (ia_ipv4 a)
     \<and> length (ia_ipv6 a) \<le> 8 \<and> distinct (ia_ipv6 a) \<and> [] \<notin> set (ia_ipv6 a)"

definition address_map_ok :: "interface_addresses smap \<Rightarrow> bool" where
  "address_map_ok m \<longleftrightarrow> (\<forall>name item. smap_find m name = Some item \<longrightarrow> addresses_ok item)"

lemma add_bounded_unique_ok:
  "length vs \<le> 8 \<Longrightarrow> distinct vs \<Longrightarrow> [] \<notin> set vs \<Longrightarrow>
     length (add_bounded_unique vs v) \<le> 8 \<and> distinct (add_bounded_unique vs v) \<and> [] \<notin> set (add_bounded_unique vs v)"
  by (auto simp: add_bounded_unique_def)

lemma no_addresses_ok: "addresses_ok no_addresses"
  by (simp add: addresses_ok_def no_addresses_def)

lemma collect_addresses_ok: "address_map_ok acc \<Longrightarrow> address_map_ok (collect_addresses es acc)"
proof (induction es acc rule: collect_addresses.induct)
  case (2 name family host rest acc)
  define item where "item = (case smap_find acc name of None \<Rightarrow> no_addresses | Some item \<Rightarrow> item)"
  have item: "addresses_ok item"
    using 2(3) no_addresses_ok by (simp add: item_def address_map_ok_def split: option.split)
  then have "addresses_ok (item\<lparr>ia_ipv4 := add_bounded_unique (ia_ipv4 item) host\<rparr>)"
    "addresses_ok (item\<lparr>ia_ipv6 := add_bounded_unique (ia_ipv6 item) host\<rparr>)"
    by (simp_all add: addresses_ok_def add_bounded_unique_ok)
  then have "address_map_ok (smap_assign name (if family = AF_INET
      then item\<lparr>ia_ipv4 := add_bounded_unique (ia_ipv4 item) host\<rparr>
      else item\<lparr>ia_ipv6 := add_bounded_unique (ia_ipv6 item) host\<rparr>) acc)"
    using 2(3) by (simp add: address_map_ok_def smap.find_assign)
  with 2 show ?case by (simp add: item_def [symmetric] Let_def)
qed simp_all

lemma network_row_ok:
  assumes "address_map_ok addresses" "row = network_row m addresses routes name"
  shows "addresses_ok \<lparr>ia_ipv4 = ni_ipv4_addresses row, ia_ipv6 = ni_ipv6_addresses row\<rparr>"
  using assms no_addresses_ok
  by (auto simp: network_row_def Let_def address_map_ok_def addresses_ok_def split: option.split)

lemma network_provider_rows:
  assumes "default_network_summary_provider m = Inr res" "nr_ok res"
  shows "\<exists>names. nr_rows res = map (network_row m (collect_interface_addresses m)
      (collect_default_route_interfaces m)) names \<and> length names \<le> 100 \<and> sorted names"
proof -
  from assms obtain names where n: "list_names m ''/sys/class/net'' = Inr (Some names)"
    by (auto simp: default_network_summary_provider_def bind_result_eq_Inr network_failed_def
        split: if_splits option.splits)
  with assms have "nr_rows res = take 100 (map (network_row m (collect_interface_addresses m)
      (collect_default_route_interfaces m)) (sort names))"
    by (auto simp: default_network_summary_provider_def bind_result_eq_Inr network_failed_def
        limited_rows_spec sort_names Let_def split: if_splits option.splits)
  then show ?thesis
    by (intro exI [of _ "take 100 (sort names)"]) (simp add: take_map sorted_wrt_take)
qed

text \<open>
  Every interface row of \<open>network.summary\<close> carries at most 8 addresses per family, without
  duplicates and without empty ones. So the marker for left-out addresses is never printed: the lists the
  provider makes are printed whole, and a ninth address is dropped without a trace.
\<close>

theorem network_addresses_are_capped:
  assumes "default_network_summary_provider m = Inr res" "row \<in> set (nr_rows res)"
  shows "addresses_ok \<lparr>ia_ipv4 = ni_ipv4_addresses row, ia_ipv6 = ni_ipv6_addresses row\<rparr>
     \<and> format_network_address_list (ni_ipv4_addresses row) =
         (if ni_ipv4_addresses row = [] then ''none'' else join_with '','' (ni_ipv4_addresses row))
     \<and> format_network_address_list (ni_ipv6_addresses row) =
         (if ni_ipv6_addresses row = [] then ''none'' else join_with '','' (ni_ipv6_addresses row))"
proof -
  have "nr_ok res"
    using assms by (auto simp: default_network_summary_provider_def bind_result_eq_Inr network_failed_def
        limited_rows_spec Let_def split: if_splits option.splits)
  with assms obtain name where
    "row = network_row m (collect_interface_addresses m) (collect_default_route_interfaces m) name"
    using network_provider_rows [of m res] by auto
  moreover have "address_map_ok []" by (simp add: address_map_ok_def smap_find_def)
  then have "address_map_ok (collect_interface_addresses m)"
    by (simp add: collect_interface_addresses_def collect_addresses_ok split: option.split)
  ultimately have ok: "addresses_ok \<lparr>ia_ipv4 = ni_ipv4_addresses row, ia_ipv6 = ni_ipv6_addresses row\<rparr>"
    by (intro network_row_ok)
  then show ?thesis by (simp add: format_network_address_list_def addresses_ok_def)
qed

definition one_interface :: machine where
  "one_interface = \<lparr>mc_file = (\<lambda>_. None), mc_exists = (\<lambda>_. Inr True), mc_list = (\<lambda>_. DirNames [''lo''] None),
     mc_symlink = (\<lambda>_. None), mc_space = (\<lambda>_. None), mc_uname = None, mc_ifaddrs = None,
     mc_utc = \<lparr>tm_year = 126, tm_mon = 0, tm_mday = 2, tm_hour = 3, tm_min = 4, tm_sec = 5\<rparr>\<rparr>"

lemma network_addresses_are_capped_witness:
  "\<exists>row :: network_interface_row. length (ni_ipv4_addresses row) \<le> 8
     \<and> format_network_address_list (ni_ipv4_addresses row) = ''none''"
proof -
  obtain row where p: "default_network_summary_provider one_interface =
      Inr \<lparr>nr_ok = True, nr_error = [], nr_rows = [row], nr_has_more_rows = False\<rparr>"
    and row: "ni_ipv4_addresses row = []"
    by (simp add: default_network_summary_provider_def one_interface_def list_names_def sort_range_def
        network_row_def collect_interface_addresses_def smap_find_def no_addresses_def Let_def)
  have "format_network_address_list (ni_ipv4_addresses row) = ''none''"
    using network_addresses_are_capped [OF p, of row] row by simp
  with row show ?thesis by (intro exI [of _ row]) simp
qed

end
