(* ===== verification/Hardware_Tool.thy ===== *)
theory Hardware_Tool
  imports Machine Redaction
begin

text \<open>
  \<open>src/tools/hardware_tool.cpp\<close>: the processor, memory, firmware and graphics summary. Counts and
  sizes are \<open>u64\<close> words as in the source, so the multiplication of \<open>parse_kib_value\<close> and the sum of
  the cores wrap.
\<close>

section \<open>Parsing\<close>

definition hardware_append :: "string \<Rightarrow> string \<Rightarrow> bool \<Rightarrow> string \<times> bool" where
  "hardware_append = append_bounded (64 * 1024)"

definition parse_key_value_line :: "string \<Rightarrow> (string \<times> string) option" where
  "parse_key_value_line line =
     (case find_char (CHR '':'') line of
        None \<Rightarrow> None
      | Some i \<Rightarrow> Some (trim (substr line 0 i), trim (drop (i + 1) line)))"

definition parse_size :: "string \<Rightarrow> u64" where
  "parse_size s = (case stoull 10 s of None \<Rightarrow> 0 | Some n \<Rightarrow> n)"

definition parse_kib_value :: "string \<Rightarrow> u64" where
  "parse_kib_value s =
     (let digits = takeWhile is_digit s
      in if digits = [] then 0
         else case stoull 10 digits of None \<Rightarrow> 0 | Some n \<Rightarrow> n * 1024)"

record cpu_summary =
  cpu_vendor_id :: string
  cpu_model_name :: string
  cpu_logical_processors :: u64
  cpu_physical_cores :: u64

text \<open>The local variables of \<open>parse_cpuinfo_summary\<close>.\<close>

record cpu_scan =
  cs_vendor_id :: string
  cs_model_name :: string
  cs_core_ids :: "string list"
  cs_sockets :: "u64 smap"
  cs_fallback :: u64
  cs_logical :: u64
  cs_has_processor :: bool
  cs_physical_id :: string
  cs_core_id :: string
  cs_cpu_cores :: u64

definition finalize_cpu_block :: "cpu_scan \<Rightarrow> cpu_scan" where
  "finalize_cpu_block st =
     (if \<not> cs_has_processor st then st
      else
        let st1 = st\<lparr>cs_logical := cs_logical st + 1\<rparr>;
            pid = cs_physical_id st;
            st2 = (if pid \<noteq> [] \<and> cs_core_id st \<noteq> []
                   then st1\<lparr>cs_core_ids := List.insert (pid @ '':'' @ cs_core_id st) (cs_core_ids st)\<rparr>
                   else if pid \<noteq> [] \<and> 0 < cs_cpu_cores st
                   then st1\<lparr>cs_sockets := smap_assign pid
                          (max (case smap_find (cs_sockets st) pid of None \<Rightarrow> 0 | Some n \<Rightarrow> n)
                             (cs_cpu_cores st)) (cs_sockets st)\<rparr>
                   else st1)
        in st2\<lparr>cs_fallback := max (cs_fallback st) (cs_cpu_cores st)\<rparr>)"

definition cpu_scan_line :: "string \<Rightarrow> cpu_scan \<Rightarrow> cpu_scan" where
  "cpu_scan_line line st =
     (if trim line = []
      then (finalize_cpu_block st)\<lparr>cs_has_processor := False, cs_physical_id := [], cs_core_id := [],
             cs_cpu_cores := 0\<rparr>
      else case parse_key_value_line line of
             None \<Rightarrow> st
           | Some (key, v) \<Rightarrow>
               if key = ''processor'' then st\<lparr>cs_has_processor := True\<rparr>
               else if key = ''vendor_id'' \<and> cs_vendor_id st = [] then st\<lparr>cs_vendor_id := v\<rparr>
               else if key = ''model name'' \<and> cs_model_name st = [] then st\<lparr>cs_model_name := v\<rparr>
               else if key = ''physical id'' then st\<lparr>cs_physical_id := v\<rparr>
               else if key = ''core id'' then st\<lparr>cs_core_id := v\<rparr>
               else if key = ''cpu cores'' then st\<lparr>cs_cpu_cores := parse_size v\<rparr>
               else st)"

definition cpu_scan_start :: cpu_scan where
  "cpu_scan_start = \<lparr>cs_vendor_id = [], cs_model_name = [], cs_core_ids = [], cs_sockets = [],
     cs_fallback = 0, cs_logical = 0, cs_has_processor = False, cs_physical_id = [],
     cs_core_id = [], cs_cpu_cores = 0\<rparr>"

definition parse_cpuinfo_summary :: "string \<Rightarrow> cpu_summary" where
  "parse_cpuinfo_summary content =
     (let st = finalize_cpu_block (fold cpu_scan_line (split_on newline content) cpu_scan_start)
      in \<lparr>cpu_vendor_id = cs_vendor_id st, cpu_model_name = cs_model_name st,
          cpu_logical_processors = cs_logical st,
          cpu_physical_cores =
            (if cs_core_ids st \<noteq> [] then of_nat (length (cs_core_ids st))
             else if cs_sockets st \<noteq> [] then sum_list (map snd (cs_sockets st))
             else if 0 < cs_fallback st then cs_fallback st
             else cs_logical st)\<rparr>)"

record memory_summary =
  ms_total_bytes :: u64
  ms_available_bytes :: u64
  ms_swap_total_bytes :: u64

definition mem_scan_line :: "string \<Rightarrow> memory_summary \<Rightarrow> memory_summary" where
  "mem_scan_line line st =
     (case parse_key_value_line line of
        None \<Rightarrow> st
      | Some (key, v) \<Rightarrow>
          if key = ''MemTotal'' then st\<lparr>ms_total_bytes := parse_kib_value v\<rparr>
          else if key = ''MemAvailable'' then st\<lparr>ms_available_bytes := parse_kib_value v\<rparr>
          else if key = ''SwapTotal'' then st\<lparr>ms_swap_total_bytes := parse_kib_value v\<rparr>
          else st)"

definition parse_meminfo_summary :: "string \<Rightarrow> memory_summary" where
  "parse_meminfo_summary content =
     fold mem_scan_line (split_on newline content)
       \<lparr>ms_total_bytes = 0, ms_available_bytes = 0, ms_swap_total_bytes = 0\<rparr>"

definition max_hardware_input :: nat where
  "max_hardware_input = 64 * 1024"

definition truncate_hardware_input :: "string \<Rightarrow> string" where
  "truncate_hardware_input content =
     (if length content \<le> max_hardware_input then content
      else
        let cut = take max_hardware_input content
        in case find_last_char newline cut of
             Some i \<Rightarrow> if i + 1 < length cut then take (i + 1) cut else cut
           | None \<Rightarrow> cut)"

definition read_file_contents :: "machine \<Rightarrow> string \<Rightarrow> string" where
  "read_file_contents m path =
     (case mc_file m path of
        None \<Rightarrow> []
      | Some content \<Rightarrow> truncate_hardware_input (take (max_hardware_input + 1) content))"

definition is_drm_card_name :: "string \<Rightarrow> bool" where
  "is_drm_card_name name =
     (if \<not> prefix ''card'' name \<or> length name = 4 then False else list_all is_digit (drop 4 name))"

definition read_driver_name :: "machine \<Rightarrow> string \<Rightarrow> string" where
  "read_driver_name m device_path =
     (case mc_symlink m (path_join device_path ''driver'') of
        None \<Rightarrow> ''unknown''
      | Some target \<Rightarrow> if target = [] then ''unknown'' else path_filename target)"

section \<open>Rows and body\<close>

record dmi_summary =
  dmi_system_vendor :: string
  dmi_product_name :: string
  dmi_product_version :: string
  dmi_board_vendor :: string
  dmi_board_name :: string
  dmi_bios_vendor :: string
  dmi_bios_version :: string
  dmi_chassis_type :: string

record gpu_device_row =
  gpu_name :: string
  gpu_vendor_id :: string
  gpu_device_id :: string
  gpu_class_id :: string
  gpu_driver :: string
  gpu_source :: string

record hardware_summary =
  hs_architecture :: string
  hs_cpu :: cpu_summary
  hs_memory :: memory_summary
  hs_dmi :: dmi_summary
  hs_gpu_devices :: "gpu_device_row list"
  hs_has_more_gpu_devices :: bool

definition format_gpu_row :: "gpu_device_row \<Rightarrow> string" where
  "format_gpu_row row =
     ''gpu=name='' @ redact_likely_secret (gpu_name row) @
     '' vendor_id='' @ redact_likely_secret (unknown_if_empty (gpu_vendor_id row)) @
     '' device_id='' @ redact_likely_secret (unknown_if_empty (gpu_device_id row)) @
     '' class='' @ redact_likely_secret (unknown_if_empty (gpu_class_id row)) @
     '' driver='' @ redact_likely_secret (unknown_if_empty (gpu_driver row)) @
     '' source='' @ redact_likely_secret (unknown_if_empty (gpu_source row)) @ [newline]"

definition text_line :: "string \<Rightarrow> string \<Rightarrow> string" where
  "text_line label v = label @ redact_likely_secret (unknown_if_empty v) @ [newline]"

definition number_line :: "string \<Rightarrow> u64 \<Rightarrow> string" where
  "number_line label n = label @ to_string_u64 n @ [newline]"

definition hardware_header :: "hardware_summary \<Rightarrow> string list" where
  "hardware_header s =
     (let cpu = hs_cpu s; mem = hs_memory s; dmi = hs_dmi s
      in [''hardware_summary=1'' @ [newline],
          text_line ''architecture='' (hs_architecture s),
          text_line ''cpu_vendor='' (cpu_vendor_id cpu),
          text_line ''cpu_model='' (cpu_model_name cpu),
          number_line ''cpu_logical_processors='' (cpu_logical_processors cpu),
          number_line ''cpu_physical_cores='' (cpu_physical_cores cpu),
          number_line ''memory_total_bytes='' (ms_total_bytes mem),
          number_line ''memory_available_bytes='' (ms_available_bytes mem),
          number_line ''swap_total_bytes='' (ms_swap_total_bytes mem),
          text_line ''system_vendor='' (dmi_system_vendor dmi),
          text_line ''product_name='' (dmi_product_name dmi),
          text_line ''product_version='' (dmi_product_version dmi),
          text_line ''board_vendor='' (dmi_board_vendor dmi),
          text_line ''board_name='' (dmi_board_name dmi),
          text_line ''bios_vendor='' (dmi_bios_vendor dmi),
          text_line ''bios_version='' (dmi_bios_version dmi),
          text_line ''chassis_type='' (dmi_chassis_type dmi),
          ''gpu_devices_count='' @ decimal (length (hs_gpu_devices s)) @ [newline]])"

definition format_hardware_summary_body :: "hardware_summary \<Rightarrow> string" where
  "format_hardware_summary_body s =
     rows_body hardware_append (map format_gpu_row (hs_gpu_devices s)) (hs_has_more_gpu_devices s)
       (append_lines hardware_append (hardware_header s) ([], False))"

section \<open>Provider and tool\<close>

definition gpu_row :: "machine \<Rightarrow> string \<Rightarrow> string \<Rightarrow> gpu_device_row" where
  "gpu_row m name device_path =
     \<lparr>gpu_name = name, gpu_vendor_id = read_text_file m (path_join device_path ''vendor''),
      gpu_device_id = read_text_file m (path_join device_path ''device''),
      gpu_class_id = read_text_file m (path_join device_path ''class''),
      gpu_driver = read_driver_name m device_path, gpu_source = ''sysfs''\<rparr>"

fun gpu_rows ::
  "machine \<Rightarrow> string list \<Rightarrow> gpu_device_row list \<times> bool \<Rightarrow> (gpu_device_row list \<times> bool) result" where
  "gpu_rows m [] acc = Inr acc"
| "gpu_rows m (name # names) (rows, extra) =
     (let device_path = path_join (path_join ''/sys/class/drm'' name) ''device''
      in bind_result (mc_exists m device_path) (\<lambda>present.
           if \<not> present then gpu_rows m names (rows, extra)
           else if length rows < 16 then gpu_rows m names (rows @ [gpu_row m name device_path], extra)
           else gpu_rows m names (rows, True)))"

definition dmi_rows :: "machine \<Rightarrow> dmi_summary" where
  "dmi_rows m =
     (let rd = (\<lambda>f. read_text_file m (path_join ''/sys/class/dmi/id'' f))
      in \<lparr>dmi_system_vendor = rd ''sys_vendor'', dmi_product_name = rd ''product_name'',
          dmi_product_version = rd ''product_version'', dmi_board_vendor = rd ''board_vendor'',
          dmi_board_name = rd ''board_name'', dmi_bios_vendor = rd ''bios_vendor'',
          dmi_bios_version = rd ''bios_version'', dmi_chassis_type = rd ''chassis_type''\<rparr>)"

text \<open>
  The provider's result is \<open>None\<close> where \<open>ok\<close> is false. An error code of the directory iterator is
  ignored: the loop over its entries does nothing then.
\<close>

definition default_hardware_summary_provider :: "machine \<Rightarrow> hardware_summary option result" where
  "default_hardware_summary_provider m =
     (case mc_uname m of
        None \<Rightarrow> Inr None
      | Some u \<Rightarrow>
          let summary = \<lparr>hs_architecture = un_machine u,
                hs_cpu = parse_cpuinfo_summary (read_file_contents m ''/proc/cpuinfo''),
                hs_memory = parse_meminfo_summary (read_file_contents m ''/proc/meminfo''),
                hs_dmi = dmi_rows m, hs_gpu_devices = [], hs_has_more_gpu_devices = False\<rparr>
          in bind_result (mc_exists m ''/sys/class/drm'') (\<lambda>present.
               if \<not> present then Inr (Some summary)
               else bind_result (list_names m ''/sys/class/drm'') (\<lambda>listed.
                 let names = (case listed of None \<Rightarrow> [] | Some ns \<Rightarrow> filter is_drm_card_name ns)
                 in bind_result (gpu_rows m (sort_range (<) names) ([], False)) (\<lambda>(rows, extra).
                      Inr (Some (summary\<lparr>hs_gpu_devices := rows, hs_has_more_gpu_devices := extra\<rparr>))))))"

definition hardware_call :: "machine \<Rightarrow> tool_request \<Rightarrow> tool_response result" where
  "hardware_call m q =
     bind_result (default_hardware_summary_provider m) (\<lambda>res.
       case res of
         None \<Rightarrow> Inr (error_response q (error_or ''hardware summary provider failed''
                   ''hardware summary is not available''))
       | Some summary \<Rightarrow>
           Inr (evidence_response q ''hardware summary collected'' ''hardware.summary''
             ''bounded local hardware summary'' (format_hardware_summary_body summary) (mc_utc m)))"

definition hardware_summary_tool :: "machine tool" where
  "hardware_summary_tool =
     \<lparr>tool_name = ''hardware.summary'', tool_risk = ReadOnly, tool_call = hardware_call\<rparr>"

section \<open>Interfaces kept\<close>

interpretation hardware: bounded_appender "64 * 1024" hardware_append
  unfolding hardware_append_def by (rule append_bounded_contract) simp_all

lemma hardware_body_clip:
  "format_hardware_summary_body s = clip (64 * 1024)
     (concat (hardware_header s) @ concat (map format_gpu_row (hs_gpu_devices s))
      @ (if hs_has_more_gpu_devices s then truncation_marker else []))"
  unfolding format_hardware_summary_body_def by (rule hardware.body_of_rows)

interpretation hardware_summary: reporting_tool hardware_summary_tool "64 * 1024"
  by unfold_locales
    (auto simp: hardware_summary_tool_def hardware_call_def bind_result_eq_Inr hardware_body_clip length_clip
      split: option.splits)

section \<open>Kernel tables\<close>

text \<open>A line \<open>key<tabs>: number\<close> followed by blanks or letters, as the kernel prints its tables.\<close>

definition table_line :: "string \<Rightarrow> string \<Rightarrow> string \<Rightarrow> string" where
  "table_line key pad v = key @ pad @ '': '' @ v"

definition table_key :: "string \<Rightarrow> bool" where
  "table_key key \<longleftrightarrow> key \<noteq> [] \<and> CHR '':'' \<notin> set key \<and> newline \<notin> set key
     \<and> \<not> trim_front_char (hd key) \<and> \<not> blank_char (last key)"

definition table_value :: "string \<Rightarrow> bool" where
  "table_value v \<longleftrightarrow> v \<noteq> [] \<and> newline \<notin> set v \<and> \<not> trim_front_char (hd v) \<and> \<not> blank_char (last v)"

lemma table_line_parsed:
  assumes "table_key key" "table_value v" "\<forall>c \<in> set pad. c = tab \<or> c = CHR '' ''"
  shows "parse_key_value_line (table_line key pad v) = Some (key, v)"
    "trim (table_line key pad v) \<noteq> []" "newline \<notin> set (table_line key pad v)"
proof -
  have colon: "CHR '':'' \<notin> set (key @ pad)" using assms by (auto simp: table_key_def)
  have line: "table_line key pad v = (key @ pad) @ CHR '':'' # ('' '' @ v)"
    by (simp add: table_line_def)
  have f: "find_char (CHR '':'') (table_line key pad v) = Some (length (key @ pad))"
    unfolding line by (rule find_char_append [OF colon])
  have "trim ([] @ key @ pad) = key"
    using assms by (intro trim_surround) (auto simp: table_key_def blank_char_def)
  moreover have "trim ('' '' @ v @ []) = v"
    using assms by (intro trim_surround) (auto simp: table_value_def trim_front_char_def)
  ultimately show "parse_key_value_line (table_line key pad v) = Some (key, v)"
    unfolding parse_key_value_line_def f by (simp add: line substr_def)
  have "trim (table_line key pad v) = table_line key pad v"
    using assms by (intro trim_id) (auto simp: table_line_def table_key_def table_value_def)
  then show "trim (table_line key pad v) \<noteq> []" by (simp add: table_line_def)
  show "newline \<notin> set (table_line key pad v)"
    using assms by (auto simp: table_line_def table_key_def table_value_def)
qed

lemma digit_not_blank: "is_digit c \<Longrightarrow> \<not> blank_char c \<and> \<not> trim_front_char c"
  by (auto simp: is_digit_of_char blank_char_def trim_front_char_def)

lemma table_value_decimal: "table_value (decimal n)"
  using decimal_digits [of "hd (decimal n)" n] decimal_digits [of "last (decimal n)" n]
    digit_not_blank decimal_no_newline by (simp add: table_value_def)

lemma fold_line:
  "newline \<notin> set l \<Longrightarrow> fold f (split_on newline (l @ newline # rest)) st
     = fold f (split_on newline rest) (f l st)"
  by (simp add: split_on_append)

text \<open>One block of \<open>/proc/cpuinfo\<close>: the processor number, other lines, the ids of package and core.\<close>

definition other_cpu_line :: "string \<Rightarrow> bool" where
  "other_cpu_line l \<longleftrightarrow> newline \<notin> set l \<and> trim l \<noteq> [] \<and>
     (case parse_key_value_line l of
        None \<Rightarrow> True
      | Some (k, v) \<Rightarrow> k \<notin> {''processor'', ''vendor_id'', ''model name'', ''physical id'', ''core id'', ''cpu cores''})"

fun cpuinfo_block :: "string list \<Rightarrow> nat \<times> nat \<times> nat \<Rightarrow> string" where
  "cpuinfo_block others (i, p, c) =
     table_line ''processor'' [tab] (decimal i) @ [newline]
     @ concat (map (\<lambda>l. l @ [newline]) others)
     @ table_line ''physical id'' [tab] (decimal p) @ [newline]
     @ table_line ''core id'' [tab, tab] (decimal c) @ [newline] @ [newline]"

definition core_key :: "nat \<times> nat \<Rightarrow> string" where
  "core_key pc = decimal (fst pc) @ '':'' @ decimal (snd pc)"

lemma core_key_inject: "inj core_key"
proof (rule injI)
  fix a b assume e: "core_key a = core_key b"
  have nc: "CHR '':'' \<notin> set (decimal n)" for n
    by (rule decimal_no_char) (simp add: is_digit_of_char)
  have "find_char (CHR '':'') (core_key a) = find_char (CHR '':'') (core_key b)" by (simp only: e)
  then have "length (decimal (fst a)) = length (decimal (fst b))"
    by (simp add: core_key_def nc)
  with e have "decimal (fst a) = decimal (fst b) \<and> decimal (snd a) = decimal (snd b)"
    by (simp add: core_key_def append_eq_append_conv)
  then show "a = b" by (simp add: prod_eq_iff)
qed

lemma other_line_skipped: "other_cpu_line l \<Longrightarrow> cpu_scan_line l st = st"
proof (cases "parse_key_value_line l")
  case (Some kv)
  assume o: "other_cpu_line l"
  obtain k v where kv: "kv = (k, v)" by force
  from o Some kv have "k \<noteq> ''processor''" "k \<noteq> ''vendor_id''" "k \<noteq> ''model name''"
    "k \<noteq> ''physical id''" "k \<noteq> ''core id''" "k \<noteq> ''cpu cores''" "trim l \<noteq> []"
    unfolding other_cpu_line_def by simp_all
  with Some kv show ?thesis by (simp only: cpu_scan_line_def option.case prod.case if_False simp_thms)
next
  case None
  assume "other_cpu_line l"
  with None show ?thesis by (simp add: cpu_scan_line_def other_cpu_line_def)
qed

lemma other_lines_skipped:
  "list_all other_cpu_line ls \<Longrightarrow>
     fold cpu_scan_line (split_on newline (concat (map (\<lambda>l. l @ [newline]) ls) @ rest)) st
     = fold cpu_scan_line (split_on newline rest) st"
proof (induction ls)
  case (Cons l ls)
  then have l: "cpu_scan_line l st = st" "newline \<notin> set l"
    using other_line_skipped by (simp_all add: other_cpu_line_def)
  have "fold cpu_scan_line (split_on newline (l @ newline # concat (map (\<lambda>l. l @ [newline]) ls) @ rest)) st
      = fold cpu_scan_line (split_on newline (concat (map (\<lambda>l. l @ [newline]) ls) @ rest)) st"
    using fold_line [OF l(2), of cpu_scan_line "concat (map (\<lambda>l. l @ [newline]) ls) @ rest" st] l(1) by simp
  with Cons show ?case by simp
qed simp

definition between_blocks :: "cpu_scan \<Rightarrow> bool" where
  "between_blocks st \<longleftrightarrow> \<not> cs_has_processor st \<and> cs_physical_id st = [] \<and> cs_core_id st = []
     \<and> cs_cpu_cores st = 0 \<and> cs_fallback st = 0 \<and> cs_sockets st = []"

lemma cpu_id_lines:
  "cpu_scan_line (table_line ''processor'' [tab] (decimal i)) st = st\<lparr>cs_has_processor := True\<rparr>"
  "cpu_scan_line (table_line ''physical id'' [tab] (decimal i)) st = st\<lparr>cs_physical_id := decimal i\<rparr>"
  "cpu_scan_line (table_line ''core id'' [tab, tab] (decimal i)) st = st\<lparr>cs_core_id := decimal i\<rparr>"
  "newline \<notin> set (table_line ''processor'' [tab] (decimal i))"
  "newline \<notin> set (table_line ''physical id'' [tab] (decimal i))"
  "newline \<notin> set (table_line ''core id'' [tab, tab] (decimal i))"
proof -
  have keys: "table_key ''processor''" "table_key ''physical id''" "table_key ''core id''"
    by (simp_all add: table_key_def trim_front_char_def blank_char_def)
  note pr = table_line_parsed [OF keys(1) table_value_decimal [of i], of "[tab]", simplified]
  note ph = table_line_parsed [OF keys(2) table_value_decimal [of i], of "[tab]", simplified]
  note co = table_line_parsed [OF keys(3) table_value_decimal [of i], of "[tab, tab]", simplified]
  show "cpu_scan_line (table_line ''processor'' [tab] (decimal i)) st = st\<lparr>cs_has_processor := True\<rparr>"
    using pr by (simp add: cpu_scan_line_def)
  show "cpu_scan_line (table_line ''physical id'' [tab] (decimal i)) st = st\<lparr>cs_physical_id := decimal i\<rparr>"
    using ph by (simp add: cpu_scan_line_def)
  show "cpu_scan_line (table_line ''core id'' [tab, tab] (decimal i)) st = st\<lparr>cs_core_id := decimal i\<rparr>"
    using co by (simp add: cpu_scan_line_def)
qed (simp_all add: table_line_def decimal_no_newline)

lemma cpu_block_step:
  assumes b: "between_blocks st" and o: "list_all other_cpu_line others"
  shows "fold cpu_scan_line (split_on newline (cpuinfo_block others (i, p, c) @ rest)) st
     = fold cpu_scan_line (split_on newline rest)
         (st\<lparr>cs_logical := cs_logical st + 1, cs_core_ids := List.insert (core_key (p, c)) (cs_core_ids st)\<rparr>)"
    (is "_ = fold _ _ ?st'")
proof -
  let ?f = "\<lambda>u. fold cpu_scan_line (split_on newline u)"
  let ?ids = "table_line ''physical id'' [tab] (decimal p) @ newline # table_line ''core id'' [tab, tab] (decimal c)
      @ newline # newline # rest"
  let ?s1 = "st\<lparr>cs_has_processor := True\<rparr>"
  have "?f (cpuinfo_block others (i, p, c) @ rest) st =
      ?f (concat (map (\<lambda>l. l @ [newline]) others) @ ?ids) ?s1"
    using fold_line [OF cpu_id_lines(4), of cpu_scan_line] by (simp add: cpu_id_lines(1))
  also have "\<dots> = ?f ?ids ?s1" by (rule other_lines_skipped [OF o])
  also have "\<dots> = ?f (newline # rest) (?s1\<lparr>cs_physical_id := decimal p, cs_core_id := decimal c\<rparr>)"
    using fold_line [OF cpu_id_lines(5), of cpu_scan_line] fold_line [OF cpu_id_lines(6), of cpu_scan_line]
    by (simp add: cpu_id_lines(2,3))
  also have "\<dots> = ?f rest (cpu_scan_line [] (?s1\<lparr>cs_physical_id := decimal p, cs_core_id := decimal c\<rparr>))"
    using fold_line [of "[]" cpu_scan_line rest] by simp
  also have "cpu_scan_line [] (?s1\<lparr>cs_physical_id := decimal p, cs_core_id := decimal c\<rparr>) = ?st'"
    using b by (simp add: cpu_scan_line_def finalize_cpu_block_def Let_def between_blocks_def core_key_def trim_def)
  finally show ?thesis .
qed

lemma cpu_blocks_fold:
  "between_blocks st \<Longrightarrow> list_all other_cpu_line others \<Longrightarrow>
     fold cpu_scan_line (split_on newline (concat (map (cpuinfo_block others) blocks))) st
     = cpu_scan_line [] (st\<lparr>cs_logical := cs_logical st + of_nat (length blocks),
         cs_core_ids := fold List.insert (map (core_key \<circ> snd) blocks) (cs_core_ids st)\<rparr>)"
proof (induction blocks arbitrary: st)
  case Nil
  then show ?case by (simp add: split_on_no_sep)
next
  case (Cons b blocks)
  obtain i p c where b: "b = (i, p, c)" by (cases b) auto
  let ?st = "st\<lparr>cs_logical := cs_logical st + 1, cs_core_ids := List.insert (core_key (p, c)) (cs_core_ids st)\<rparr>"
  have "between_blocks ?st" using Cons.prems(1) by (simp add: between_blocks_def)
  note ih = Cons.IH [OF this Cons.prems(2)]
  have "fold cpu_scan_line (split_on newline (concat (map (cpuinfo_block others) (b # blocks)))) st
      = fold cpu_scan_line (split_on newline (concat (map (cpuinfo_block others) blocks))) ?st"
    unfolding b list.map concat.simps by (rule cpu_block_step [OF Cons.prems])
  also note ih
  finally show ?case by (simp add: b algebra_simps)
qed

lemma length_fold_insert:
  "distinct xs \<Longrightarrow> distinct (fold List.insert ys xs) \<and> set (fold List.insert ys xs) = set ys \<union> set xs"
  by (induction ys arbitrary: xs) auto



text \<open>The three sizes of \<open>/proc/meminfo\<close>, and the kibibytes of a line.\<close>

definition meminfo_line :: "string \<Rightarrow> nat \<Rightarrow> string" where
  "meminfo_line key kib = table_line key [] (decimal kib @ '' kB'')"

lemma takeWhile_decimal: "takeWhile is_digit (decimal n @ CHR '' '' # s) = decimal n"
  using decimal_digits by (subst takeWhile_append2) (auto simp: is_digit_of_char)

lemma parse_kib_decimal:
  "n < 2 ^ 64 \<Longrightarrow> parse_kib_value (decimal n @ '' kB'') = of_nat n * 1024"
  using stoull_decimal_append [of n "[]"] takeWhile_decimal [of n "''kB''"]
  by (simp add: parse_kib_value_def Let_def)

lemma mem_line_value: "table_value (decimal kib @ '' kB'')"
  using decimal_digits [of "hd (decimal kib)" kib] digit_not_blank decimal_no_newline
  by (simp add: table_value_def hd_append blank_char_def)

text \<open>
  From the lines the kernel prints for them, the three memory sizes are the kibibytes times 1024, in
  bytes, exactly as long as they are below \<open>2 ^ 64\<close> bytes; from \<open>2 ^ 54\<close> KiB on the
  product wraps around.
\<close>

theorem meminfo_sizes:
  assumes "t < 2 ^ 64" "a < 2 ^ 64" "sw < 2 ^ 64"
  shows "parse_meminfo_summary (meminfo_line ''MemTotal'' t @ [newline] @ meminfo_line ''MemAvailable'' a
       @ [newline] @ meminfo_line ''SwapTotal'' sw @ [newline])
     = \<lparr>ms_total_bytes = of_nat (t * 1024), ms_available_bytes = of_nat (a * 1024), ms_swap_total_bytes = of_nat (sw * 1024)\<rparr>
     \<and> (unat (of_nat (t * 1024) :: u64) = t * 1024 \<longleftrightarrow> t < 2 ^ 54)"
proof -
  have keys: "table_key ''MemTotal''" "table_key ''MemAvailable''" "table_key ''SwapTotal''"
    by (simp_all add: table_key_def trim_front_char_def blank_char_def)
  note l = table_line_parsed [OF _ mem_line_value, where pad = "[]", simplified, folded meminfo_line_def]
  let ?f = "\<lambda>u. fold mem_scan_line (split_on newline u)"
  have scan: "mem_scan_line (meminfo_line ''MemTotal'' t) st = st\<lparr>ms_total_bytes := of_nat (t * 1024)\<rparr>"
    "mem_scan_line (meminfo_line ''MemAvailable'' a) st = st\<lparr>ms_available_bytes := of_nat (a * 1024)\<rparr>"
    "mem_scan_line (meminfo_line ''SwapTotal'' sw) st = st\<lparr>ms_swap_total_bytes := of_nat (sw * 1024)\<rparr>" for st
    using l(1) [OF keys(1), of t] l(1) [OF keys(2), of a] l(1) [OF keys(3), of sw] assms
    by (simp_all add: mem_scan_line_def parse_kib_decimal)
  have last: "?f [] st = st" for st
    by (simp add: split_on_no_sep mem_scan_line_def parse_key_value_line_def)
  have "?f (meminfo_line ''MemTotal'' t @ newline # meminfo_line ''MemAvailable'' a
       @ newline # meminfo_line ''SwapTotal'' sw @ newline # []) st
     = st\<lparr>ms_total_bytes := of_nat (t * 1024), ms_available_bytes := of_nat (a * 1024), ms_swap_total_bytes := of_nat (sw * 1024)\<rparr>" for st
    unfolding fold_line [OF l(3) [OF keys(1)]] fold_line [OF l(3) [OF keys(2)]] fold_line [OF l(3) [OF keys(3)]]
      scan last by simp
  moreover have "unat (of_nat (t * 1024) :: u64) = t * 1024 \<longleftrightarrow> t < 2 ^ 54"
  proof -
    have "unat (of_nat (t * 1024) :: u64) = t * 1024 mod 2 ^ 64" by (simp only: unat_of_nat) simp
    then show ?thesis by (simp add: mod_eq_self_iff_div_eq_0 div_eq_0_iff)
  qed
  ultimately show ?thesis by (simp add: parse_meminfo_summary_def)
qed

lemma meminfo_sizes_witness:
  "ms_total_bytes (parse_meminfo_summary (meminfo_line ''MemTotal'' 16 @ [newline] @ meminfo_line ''MemAvailable'' 8
       @ [newline] @ meminfo_line ''SwapTotal'' 0 @ [newline])) = 16384"
  using meminfo_sizes [of 16 8 0] by simp

end
