(* ===== verification/Command_Runner.thy ===== *)
theory Command_Runner
  imports Kasli_Prelude
begin

text \<open>
  \<open>run_fixed_command\<close> of \<open>src/tools/package_tool.cpp\<close>: a child process whose output is read
  without blocking until it has ended and its pipe is closed, with a limit on the output and a
  deadline. What the kernel answers to the n-th \<open>read\<close>, \<open>waitpid(WNOHANG)\<close> and clock reading is
  the record \<open>command_env\<close>; the code after \<open>fork\<close> in the child is \<open>Command_Child\<close> and shows in these
  answers only. What the parent does to the child and to the pipe is kept
  as a trace. Both loops may run forever, so they are partial functions, and that they return is a
  theorem: the deadline ends the outer loop, the output limit the inner one.
\<close>

section \<open>The environment and the state\<close>

datatype pipe_read =
    PipeBytes string
  | PipeEnd
  | PipeInterrupted
  | PipeWouldBlock
  | PipeFailed

datatype wait_status = Exited nat | Signaled nat | OtherStatus

datatype wait_outcome =
    WaitReaped wait_status
  | WaitRunning
  | WaitInterrupted
  | WaitFailed

record command_env =
  ce_pipe :: bool
  ce_fork :: bool
  ce_read :: "nat \<Rightarrow> pipe_read"
  ce_wait :: "nat \<Rightarrow> wait_outcome"
  ce_clock :: "nat \<Rightarrow> int"

datatype parent_action = CloseReadEnd | CloseWriteEnd | KillChild | AwaitChild | ReapChild

record package_command_result =
  cr_ok :: bool
  cr_exit_code :: int
  cr_output :: string
  cr_error :: string

record runner_state =
  rs_output :: string
  rs_pipe_closed :: bool
  rs_child_done :: bool
  rs_status :: wait_status
  rs_reads :: nat
  rs_waits :: nat
  rs_clocks :: nat
  rs_trace :: "parent_action list"

definition command_failed :: "int \<Rightarrow> string \<Rightarrow> package_command_result" where
  "command_failed code err = \<lparr>cr_ok = False, cr_exit_code = code, cr_output = [], cr_error = err\<rparr>"

definition output_limit :: nat where
  "output_limit = 4 * 1024 * 1024"

definition acted :: "parent_action list \<Rightarrow> runner_state \<Rightarrow> runner_state" where
  "acted as st = st\<lparr>rs_trace := rs_trace st @ as\<rparr>"

text \<open>\<open>kill\<close>, \<open>close\<close> and a blocking \<open>waitpid\<close>, the way three of the error paths give up.\<close>

definition give_up :: "string \<Rightarrow> runner_state \<Rightarrow> package_command_result \<times> runner_state" where
  "give_up err st = (command_failed (-1) err, acted [KillChild, CloseReadEnd, AwaitChild] st)"

section \<open>The loops\<close>

text \<open>The inner loop: \<open>Inl\<close> where the function returns, \<open>Inr\<close> where the loop is left.\<close>

partial_function (option) drain_output ::
  "command_env \<Rightarrow> runner_state \<Rightarrow> ((package_command_result \<times> runner_state) + runner_state) option" where
  "drain_output env st =
     (let st1 = st\<lparr>rs_reads := Suc (rs_reads st)\<rparr>
      in case ce_read env (rs_reads st) of
           PipeBytes b \<Rightarrow>
             if output_limit < length (rs_output st) + length b
             then Some (Inl (give_up ''package inventory command output exceeded limit'' st1))
             else drain_output env (st1\<lparr>rs_output := rs_output st @ b\<rparr>)
         | PipeEnd \<Rightarrow> Some (Inr (st1\<lparr>rs_pipe_closed := True\<rparr>))
         | PipeInterrupted \<Rightarrow> drain_output env st1
         | PipeWouldBlock \<Rightarrow> Some (Inr st1)
         | PipeFailed \<Rightarrow> Some (Inl (give_up ''failed to read package inventory command output'' st1)))"

definition poll_child ::
  "command_env \<Rightarrow> runner_state \<Rightarrow> (package_command_result \<times> runner_state) + runner_state" where
  "poll_child env st =
     (if rs_child_done st then Inr st
      else
        let st1 = st\<lparr>rs_waits := Suc (rs_waits st)\<rparr>
        in case ce_wait env (rs_waits st) of
             WaitReaped status \<Rightarrow> Inr (acted [ReapChild] (st1\<lparr>rs_child_done := True, rs_status := status\<rparr>))
           | WaitRunning \<Rightarrow> Inr st1
           | WaitInterrupted \<Rightarrow> Inr st1
           | WaitFailed \<Rightarrow>
               Inl (command_failed (-1) ''failed to wait for package inventory command'',
                    acted [CloseReadEnd] st1))"

definition check_deadline ::
  "command_env \<Rightarrow> int \<Rightarrow> runner_state \<Rightarrow> (package_command_result \<times> runner_state) + runner_state" where
  "check_deadline env deadline st =
     (let st1 = st\<lparr>rs_clocks := Suc (rs_clocks st)\<rparr>
      in if deadline \<le> ce_clock env (rs_clocks st)
         then Inl (give_up ''package inventory command timed out'' st1)
         else Inr st1)"

text \<open>The outer loop. The \<open>poll\<close> at its end only waits.\<close>

partial_function (option) command_loop ::
  "command_env \<Rightarrow> int \<Rightarrow> runner_state
   \<Rightarrow> ((package_command_result \<times> runner_state) + runner_state) option" where
  "command_loop env deadline st =
     (if rs_pipe_closed st \<and> rs_child_done st then Some (Inr st)
      else Option.bind (drain_output env st) (\<lambda>drained.
        case drained of
          Inl r \<Rightarrow> Some (Inl r)
        | Inr st1 \<Rightarrow>
            (case bind_result (poll_child env st1) (check_deadline env deadline) of
               Inl r \<Rightarrow> Some (Inl r)
             | Inr st2 \<Rightarrow> command_loop env deadline st2)))"

fun exit_code_of :: "wait_status \<Rightarrow> int" where
  "exit_code_of (Exited code) = int code"
| "exit_code_of (Signaled sig) = 128 + int sig"
| "exit_code_of OtherStatus = - 1"

definition command_finished :: "runner_state \<Rightarrow> package_command_result \<times> runner_state" where
  "command_finished st =
     (let code = exit_code_of (rs_status st); st1 = acted [CloseReadEnd] st
      in if code \<noteq> 0 then (command_failed code ''package inventory command failed'', st1)
         else (\<lparr>cr_ok = True, cr_exit_code = code, cr_output = rs_output st, cr_error = []\<rparr>, st1))"

definition runner_start :: runner_state where
  "runner_start =
     \<lparr>rs_output = [], rs_pipe_closed = False, rs_child_done = False, rs_status = Exited 0,
      rs_reads = 0, rs_waits = 0, rs_clocks = 0, rs_trace = []\<rparr>"

definition command_timeout :: int where
  "command_timeout = 5 * 1000 * 1000 * 1000"

definition run_fixed_command :: "command_env \<Rightarrow> (package_command_result \<times> runner_state) option" where
  "run_fixed_command env =
     (if \<not> ce_pipe env
      then Some (command_failed (-1) ''failed to create package inventory pipe'', runner_start)
      else if \<not> ce_fork env
      then Some (command_failed (-1) ''failed to start package inventory command'',
             acted [CloseReadEnd, CloseWriteEnd] runner_start)
      else
        let st = (acted [CloseWriteEnd] runner_start)\<lparr>rs_clocks := 1\<rparr>;
            deadline = ce_clock env 0 + command_timeout
        in Option.bind (command_loop env deadline st)
             (\<lambda>left. Some (case left of Inl r \<Rightarrow> r | Inr st' \<Rightarrow> command_finished st')))"

section \<open>The result\<close>

text \<open>
  The state between two steps: the output is what was read so far and within the limit, the write end
  is closed and the child is reaped exactly when the flag says so.
\<close>

fun bytes_of :: "pipe_read \<Rightarrow> string" where
  "bytes_of (PipeBytes b) = b"
| "bytes_of _ = []"

definition output_of :: "command_env \<Rightarrow> nat \<Rightarrow> string" where
  "output_of env n = concat (map (\<lambda>i. bytes_of (ce_read env i)) [0..<n])"

lemma output_of_simps [simp]:
  "output_of env 0 = []"
  "output_of env (Suc n) = output_of env n @ bytes_of (ce_read env n)"
  by (simp_all add: output_of_def)

definition runner_inv :: "command_env \<Rightarrow> runner_state \<Rightarrow> bool" where
  "runner_inv env st \<longleftrightarrow>
     rs_output st = output_of env (rs_reads st)
     \<and> length (rs_output st) \<le> output_limit
     \<and> rs_trace st = CloseWriteEnd # (if rs_child_done st then [ReapChild] else [])
     \<and> (rs_pipe_closed st \<longrightarrow> (\<exists>i < rs_reads st. ce_read env i = PipeEnd))
     \<and> (rs_child_done st \<longrightarrow> (\<exists>i < rs_waits st. ce_wait env i = WaitReaped (rs_status st)))"

text \<open>What the parent may have done by the time it returns without success.\<close>

definition given_up :: "package_command_result \<times> runner_state \<Rightarrow> bool" where
  "given_up r \<longleftrightarrow> \<not> cr_ok (fst r) \<and> cr_output (fst r) = []
     \<and> (\<exists>reaped. set reaped \<subseteq> {ReapChild} \<and>
          (rs_trace (snd r) = CloseWriteEnd # reaped @ [KillChild, CloseReadEnd, AwaitChild]
           \<or> reaped = [] \<and> rs_trace (snd r) = [CloseWriteEnd, CloseReadEnd]
               \<and> cr_error (fst r) = ''failed to wait for package inventory command''))"

lemma given_up_give_up:
  "runner_inv env st \<Longrightarrow> given_up (give_up err (st\<lparr>rs_reads := n\<rparr>))"
  "runner_inv env st \<Longrightarrow> given_up (give_up err (st\<lparr>rs_clocks := n\<rparr>))"
  by (auto simp: given_up_def give_up_def runner_inv_def acted_def command_failed_def)

lemma drain_output_inv:
  assumes "drain_output env st = Some res" "runner_inv env st"
  shows "case res of Inl r \<Rightarrow> given_up r | Inr st' \<Rightarrow> runner_inv env st'"
  using assms(2)
proof (induct rule: drain_output.raw_induct [OF _ assms(1)])
  case (1 drain env st res)
  note inv = \<open>runner_inv env st\<close>
  show ?case
  proof (cases "ce_read env (rs_reads st)")
    case (PipeBytes b)
    show ?thesis
    proof (cases "output_limit < length (rs_output st) + length b")
      case True
      with 1(2) PipeBytes inv show ?thesis by (auto simp: Let_def given_up_give_up)
    next
      case False
      let ?st = "st\<lparr>rs_reads := Suc (rs_reads st), rs_output := rs_output st @ b\<rparr>"
      have "runner_inv env ?st" using inv False PipeBytes by (auto simp: runner_inv_def less_Suc_eq)
      moreover have "drain env ?st = Some res" using 1(2) PipeBytes False by (simp add: Let_def)
      ultimately show ?thesis using 1(1) by blast
    qed
  next
    case PipeInterrupted
    let ?st = "st\<lparr>rs_reads := Suc (rs_reads st)\<rparr>"
    have "runner_inv env ?st" using inv PipeInterrupted by (auto simp: runner_inv_def less_Suc_eq)
    moreover have "drain env ?st = Some res" using 1(2) PipeInterrupted by (simp add: Let_def)
    ultimately show ?thesis using 1(1) by blast
  next
    case PipeFailed
    with 1(2) inv show ?thesis by (auto simp: Let_def given_up_give_up)
  qed (use 1(2) inv in \<open>auto simp: Let_def runner_inv_def less_Suc_eq\<close>)
qed

lemma poll_child_inv:
  assumes "runner_inv env st"
  shows "case poll_child env st of Inl r \<Rightarrow> given_up r | Inr st' \<Rightarrow> runner_inv env st'"
proof (cases "rs_child_done st")
  case False
  with assms show ?thesis
    by (cases "ce_wait env (rs_waits st)")
      (auto simp: poll_child_def runner_inv_def given_up_def acted_def command_failed_def less_Suc_eq Let_def)
qed (use assms in \<open>simp add: poll_child_def\<close>)

lemma check_deadline_inv:
  assumes "runner_inv env st"
  shows "case check_deadline env deadline st of Inl r \<Rightarrow> given_up r | Inr st' \<Rightarrow> runner_inv env st'"
  using assms given_up_give_up(2) [OF assms] by (auto simp: check_deadline_def runner_inv_def Let_def)

lemma command_loop_inv:
  assumes "command_loop env deadline st = Some res" "runner_inv env st"
  shows "case res of Inl r \<Rightarrow> given_up r
      | Inr st' \<Rightarrow> runner_inv env st' \<and> rs_pipe_closed st' \<and> rs_child_done st'"
  using assms(2)
proof (induct rule: command_loop.raw_induct [OF _ assms(1)])
  case (1 loop env deadline st res)
  show ?case
  proof (cases "rs_pipe_closed st \<and> rs_child_done st")
    case False
    then obtain drained where d: "drain_output env st = Some drained"
      using 1(2) by (auto simp: bind_eq_Some_conv)
    note inv1 = drain_output_inv [OF d 1(3)]
    show ?thesis
    proof (cases drained)
      case (Inl r)
      with 1(2) False d inv1 show ?thesis by auto
    next
      case st1: (Inr st1)
      let ?next = "bind_result (poll_child env st1) (check_deadline env deadline)"
      have inv2: "case ?next of Inl r \<Rightarrow> given_up r | Inr st2 \<Rightarrow> runner_inv env st2"
        using inv1 st1 poll_child_inv [of env st1] check_deadline_inv
        by (cases "poll_child env st1") auto
      show ?thesis
      proof (cases ?next)
        case (Inl r)
        with 1(2) False d st1 inv2 show ?thesis by auto
      next
        case (Inr st2)
        with 1(2) False d st1 have "loop env deadline st2 = Some res" by simp
        with 1(1) Inr inv2 show ?thesis by simp
      qed
    qed
  qed (use 1 in auto)
qed

lemma run_fixed_command_cases:
  assumes "run_fixed_command env = Some (r, st)"
  obtains "\<not> ce_pipe env" "r = command_failed (-1) ''failed to create package inventory pipe''" "rs_trace st = []"
  | "ce_pipe env" "\<not> ce_fork env" "r = command_failed (-1) ''failed to start package inventory command''"
      "rs_trace st = [CloseReadEnd, CloseWriteEnd]"
  | "ce_pipe env" "ce_fork env" "given_up (r, st)"
  | st' where "ce_pipe env" "ce_fork env" "(r, st) = command_finished st'" "runner_inv env st'"
      "rs_pipe_closed st'" "rs_child_done st'"
proof (cases "ce_pipe env \<and> ce_fork env")
  case True
  let ?st = "(acted [CloseWriteEnd] runner_start)\<lparr>rs_clocks := 1\<rparr>"
  obtain left where l: "command_loop env (ce_clock env 0 + command_timeout) ?st = Some left"
    and r: "(r, st) = (case left of Inl r \<Rightarrow> r | Inr st' \<Rightarrow> command_finished st')"
    using assms True by (auto simp: run_fixed_command_def Let_def bind_eq_Some_conv)
  have "runner_inv env ?st" by (simp add: runner_inv_def acted_def runner_start_def)
  note inv = command_loop_inv [OF l this]
  show thesis using True that(3,4) inv r by (cases left) auto
next
  case False
  then show thesis
    using assms that(1,2) by (auto simp: run_fixed_command_def acted_def runner_start_def split: if_splits)
qed

text \<open>
  C12: However the package command behaves, a run that returns leaves no descriptor behind: each end
  of the pipe is closed exactly once. The child it started has been waited for, except where waiting
  itself failed. The output handed on is never longer than 4 MiB, it is empty unless the command
  exited with code 0, and then it is exactly the bytes read from the pipe up to its end.
\<close>

theorem command_is_cleaned_up:
  assumes "run_fixed_command env = Some (r, st)"
  shows "length (cr_output r) \<le> 4 * 1024 * 1024
    \<and> count_list (rs_trace st) CloseReadEnd = (if ce_pipe env then 1 else 0)
    \<and> count_list (rs_trace st) CloseWriteEnd = (if ce_pipe env then 1 else 0)
    \<and> (ce_pipe env \<and> ce_fork env \<longrightarrow> ReapChild \<in> set (rs_trace st) \<or> AwaitChild \<in> set (rs_trace st)
         \<or> cr_error r = ''failed to wait for package inventory command'')
    \<and> (if cr_ok r
       then cr_exit_code r = 0
          \<and> (\<exists>n i j. cr_output r = concat (map (\<lambda>k. bytes_of (ce_read env k)) [0..<n])
               \<and> i < n \<and> ce_read env i = PipeEnd \<and> ce_wait env j = WaitReaped (Exited 0))
       else cr_output r = [])"
  using assms
proof (cases rule: run_fixed_command_cases)
  case 3
  then obtain reaped where t: "set reaped \<subseteq> {ReapChild}" "\<not> cr_ok r" "cr_output r = []"
    "rs_trace st = CloseWriteEnd # reaped @ [KillChild, CloseReadEnd, AwaitChild]
     \<or> reaped = [] \<and> rs_trace st = [CloseWriteEnd, CloseReadEnd]
       \<and> cr_error r = ''failed to wait for package inventory command''"
    by (auto simp: given_up_def)
  then have "count_list reaped CloseReadEnd = 0" "count_list reaped CloseWriteEnd = 0"
    by (auto simp: count_list_0_iff)
  with 3 t show ?thesis by auto
next
  case (4 st')
  have trace: "rs_trace st = [CloseWriteEnd, ReapChild, CloseReadEnd]"
    using 4 by (auto simp: command_finished_def runner_inv_def acted_def Let_def split: if_splits)
  obtain i j where i: "i < rs_reads st'" "ce_read env i = PipeEnd"
    and j: "ce_wait env j = WaitReaped (rs_status st')"
    using 4 by (auto simp: runner_inv_def)
  show ?thesis
  proof (cases "exit_code_of (rs_status st') = 0")
    case True
    then have "rs_status st' = Exited 0" by (cases "rs_status st'") auto
    then have ok: "cr_ok r" "cr_exit_code r = 0" "cr_output r = rs_output st'"
      "ce_wait env j = WaitReaped (Exited 0)"
      using 4 j by (auto simp: command_finished_def Let_def)
    have out: "rs_output st' = output_of env (rs_reads st')" "length (rs_output st') \<le> output_limit"
      using 4(4) unfolding runner_inv_def by blast+
    have "cr_output r = concat (map (\<lambda>k. bytes_of (ce_read env k)) [0..<rs_reads st'])"
      using ok out by (simp add: output_of_def)
    then have "\<exists>n i j. cr_output r = concat (map (\<lambda>k. bytes_of (ce_read env k)) [0..<n])
               \<and> i < n \<and> ce_read env i = PipeEnd \<and> ce_wait env j = WaitReaped (Exited 0)"
      using i ok(4) by blast
    with 4 ok out trace show ?thesis by (simp add: output_limit_def)
  next
    case False
    with 4 have "r = command_failed (exit_code_of (rs_status st')) ''package inventory command failed''"
      by (simp add: command_finished_def Let_def)
    with 4 trace show ?thesis by (simp add: command_failed_def)
  qed
qed (simp_all add: command_failed_def)

text \<open>
  A child that has ended while another process holds its pipe is already reaped when the deadline
  passes, and the process id that is killed then may belong to another process by that time.
\<close>

definition lingering_env :: command_env where
  "lingering_env =
     \<lparr>ce_pipe = True, ce_fork = True, ce_read = (\<lambda>_. PipeWouldBlock),
      ce_wait = (\<lambda>_. WaitReaped (Exited 0)), ce_clock = (\<lambda>n. int n * 3000000000)\<rparr>"

lemma timeout_kills_a_reaped_child:
  "\<exists>r st. run_fixed_command lingering_env = Some (r, st)
     \<and> rs_trace st = [CloseWriteEnd, ReapChild, KillChild, CloseReadEnd, AwaitChild]
     \<and> cr_error r = ''package inventory command timed out''"
proof -
  have loop: "\<exists>st'. command_loop lingering_env 5000000000 st
      = Some (Inl (give_up ''package inventory command timed out'' st'))
      \<and> rs_trace st' = rs_trace st @ (if rs_child_done st then [] else [ReapChild])"
    if "rs_clocks st = 2" "\<not> rs_pipe_closed st" for st
    using that by (subst command_loop.simps, subst drain_output.simps)
      (auto simp: lingering_env_def poll_child_def check_deadline_def acted_def intro!: exI)
  let ?st = "(acted [CloseWriteEnd] runner_start)\<lparr>rs_clocks := 1\<rparr>"
  have "\<exists>st1. command_loop lingering_env 5000000000 ?st = command_loop lingering_env 5000000000 st1
      \<and> rs_clocks st1 = 2 \<and> \<not> rs_pipe_closed st1 \<and> rs_child_done st1
      \<and> rs_trace st1 = [CloseWriteEnd, ReapChild]"
    by (subst command_loop.simps, subst drain_output.simps)
      (simp add: lingering_env_def poll_child_def check_deadline_def acted_def runner_start_def,
        rule exI, rule conjI, rule refl, simp)
  with loop obtain st' where "command_loop lingering_env 5000000000 ?st
      = Some (Inl (give_up ''package inventory command timed out'' st'))"
    "rs_trace st' = [CloseWriteEnd, ReapChild]"
    by fastforce
  then show ?thesis
    by (simp add: run_fixed_command_def lingering_env_def command_timeout_def Let_def give_up_def
        acted_def command_failed_def)
qed

section \<open>The run returns\<close>

text \<open>One read that is not interrupted ends the inner loop or makes the output longer.\<close>

lemma drain_output_step:
  assumes "ce_read env (rs_reads st) \<noteq> PipeInterrupted"
    and "\<And>b. ce_read env (rs_reads st) = PipeBytes b \<Longrightarrow> length (rs_output st) + length b \<le> output_limit \<Longrightarrow>
       \<exists>res. drain_output env (st\<lparr>rs_reads := Suc (rs_reads st), rs_output := rs_output st @ b\<rparr>) = Some res
         \<and> (\<forall>st'. res = Inr st' \<longrightarrow> rs_clocks st' = rs_clocks st)"
  shows "\<exists>res. drain_output env st = Some res \<and> (\<forall>st'. res = Inr st' \<longrightarrow> rs_clocks st' = rs_clocks st)"
  using assms
  by (subst drain_output.simps) (cases "ce_read env (rs_reads st)"; auto simp: Let_def not_less)

lemma drain_output_returns:
  assumes bytes: "\<And>n b. ce_read env n = PipeBytes b \<Longrightarrow> b \<noteq> []"
    and resumes: "\<And>n. \<exists>m \<ge> n. ce_read env m \<noteq> PipeInterrupted"
  shows "\<exists>res. drain_output env st = Some res
    \<and> (\<forall>st'. res = Inr st' \<longrightarrow> rs_clocks st' = rs_clocks st)"
proof (induction "output_limit - length (rs_output st)" arbitrary: st rule: less_induct)
  case less
  have longer: "\<exists>res. drain_output env (st'\<lparr>rs_reads := n, rs_output := rs_output st' @ b\<rparr>) = Some res
      \<and> (\<forall>st2. res = Inr st2 \<longrightarrow> rs_clocks st2 = rs_clocks st')"
    if "ce_read env k = PipeBytes b" "length (rs_output st') + length b \<le> output_limit"
      "rs_output st' = rs_output st" for st' n b k
  proof -
    have "0 < length b" using bytes [OF that(1)] by simp
    then have "length (rs_output st) < length (rs_output st' @ b)" "length (rs_output st' @ b) \<le> output_limit"
      unfolding length_append using that(2,3) by simp_all
    then have "output_limit - length (rs_output st' @ b) < output_limit - length (rs_output st)"
      by (meson diff_less_mono2 order.strict_trans2)
    then show ?thesis
      using less [of "st'\<lparr>rs_reads := n, rs_output := rs_output st' @ b\<rparr>"] by simp
  qed
  obtain m where m: "rs_reads st \<le> m" "ce_read env m \<noteq> PipeInterrupted" using resumes by blast
  have "\<exists>res. drain_output env st' = Some res \<and> (\<forall>st2. res = Inr st2 \<longrightarrow> rs_clocks st2 = rs_clocks st')"
    if "rs_reads st' + k = m" "rs_output st' = rs_output st" for k st'
    using that
  proof (induction k arbitrary: st')
    case 0
    then show ?case using m longer by (intro drain_output_step) auto
  next
    case (Suc k)
    show ?case
    proof (cases "ce_read env (rs_reads st') = PipeInterrupted")
      case True
      let ?st = "st'\<lparr>rs_reads := Suc (rs_reads st')\<rparr>"
      from Suc.IH [of ?st] Suc.prems obtain res where "drain_output env ?st = Some res"
        "\<forall>st2. res = Inr st2 \<longrightarrow> rs_clocks st2 = rs_clocks st'" by auto
      with True show ?thesis by (subst drain_output.simps) (simp add: Let_def)
    next
      case False
      show ?thesis using False longer Suc.prems(2) by (intro drain_output_step)
    qed
  qed
  with m show ?case by (metis le_add_diff_inverse)
qed

lemma poll_child_clocks: "poll_child env st = Inr st' \<Longrightarrow> rs_clocks st' = rs_clocks st"
  by (auto simp: poll_child_def acted_def Let_def split: if_splits wait_outcome.splits)

lemma check_deadline_clocks:
  "check_deadline env deadline st = Inr st' \<Longrightarrow>
     rs_clocks st' = Suc (rs_clocks st) \<and> ce_clock env (rs_clocks st) < deadline"
  by (auto simp: check_deadline_def Let_def split: if_splits)

lemma command_loop_returns:
  assumes "\<And>n b. ce_read env n = PipeBytes b \<Longrightarrow> b \<noteq> []"
    and "\<And>n. \<exists>m \<ge> n. ce_read env m \<noteq> PipeInterrupted"
    and "\<And>m. late \<le> m \<Longrightarrow> deadline \<le> ce_clock env m"
  shows "\<exists>res. command_loop env deadline st = Some res"
proof (induction "late - rs_clocks st" arbitrary: st rule: less_induct)
  case less
  obtain drained where d: "drain_output env st = Some drained"
    "\<And>st'. drained = Inr st' \<Longrightarrow> rs_clocks st' = rs_clocks st"
    using drain_output_returns [of env st] assms(1,2) by blast
  have "\<exists>res. command_loop env deadline st2 = Some res"
    if step: "drained = Inr st1" "bind_result (poll_child env st1) (check_deadline env deadline) = Inr st2" for st1 st2
  proof -
    obtain st' where "poll_child env st1 = Inr st'" "check_deadline env deadline st' = Inr st2"
      using step(2) by (auto simp: bind_result_eq_Inr)
    then have "rs_clocks st2 = Suc (rs_clocks st)" "ce_clock env (rs_clocks st) < deadline"
      using d(2) [OF step(1)] poll_child_clocks check_deadline_clocks by fastforce+
    then have "late - rs_clocks st2 < late - rs_clocks st"
      using assms(3) [of "rs_clocks st"] by linarith
    then show ?thesis by (rule less)
  qed
  with d(1) show ?case
    by (subst command_loop.simps) (auto split: sum.splits)
qed


text \<open>A child that writes two characters and ends, on a clock that ticks every second.\<close>

definition sample_command_env :: command_env where
  "sample_command_env =
     \<lparr>ce_pipe = True, ce_fork = True,
      ce_read = (\<lambda>n. if n = 0 then PipeBytes ''hi'' else PipeEnd),
      ce_wait = (\<lambda>_. WaitReaped (Exited 0)), ce_clock = (\<lambda>n. int n * 1000000000)\<rparr>"


lemma sample_command_run:
  "\<exists>st. run_fixed_command sample_command_env =
     Some (\<lparr>cr_ok = True, cr_exit_code = 0, cr_output = ''hi'', cr_error = []\<rparr>, st)"
  unfolding run_fixed_command_def
  by (simp add: sample_command_env_def Let_def command_timeout_def command_loop.simps
      drain_output.simps poll_child_def check_deadline_def acted_def runner_start_def output_limit_def
      command_finished_def)

lemma command_is_cleaned_up_witness:
  "\<exists>r st. run_fixed_command sample_command_env = Some (r, st) \<and> cr_output r = ''hi''
     \<and> count_list (rs_trace st) CloseReadEnd = 1"
proof -
  obtain st where "run_fixed_command sample_command_env =
     Some (\<lparr>cr_ok = True, cr_exit_code = 0, cr_output = ''hi'', cr_error = []\<rparr>, st)"
    using sample_command_run by blast
  with command_is_cleaned_up [OF this] show ?thesis by (simp add: sample_command_env_def)
qed

end
