(* ===== verification/Package_Tool.thy ===== *)
theory Package_Tool
  imports Command_Runner Machine Redaction "HOL-Library.Product_Lexorder"
begin

text \<open>
  \<open>src/tools/package_tool.cpp\<close>: the package history read from the logs of dnf and yum, newest
  first, and the installed packages as rpm prints them, sorted by name and architecture. The runner of
  the list tool is a \<open>std::function\<close> in the source; what it answers is a field of
  \<open>package_machine\<close>, and \<open>default_package_list_runner\<close> is the runner the daemon installs.
\<close>

section \<open>Observations and rows\<close>

record package_machine =
  pk_machine :: machine
  pk_regular :: "string \<Rightarrow> bool result"
  pk_list_runner :: "package_command_result result"

definition package_append :: "string \<Rightarrow> string \<Rightarrow> bool \<Rightarrow> string \<times> bool" where
  "package_append = append_bounded (64 * 1024)"

record package_change_row =
  pc_timestamp :: string
  pc_action :: string
  pc_package :: string
  pc_source :: string

record package_list_row =
  pl_name :: string
  pl_epoch :: string
  pl_version :: string
  pl_release :: string
  pl_arch :: string
  pl_install_time :: string
  pl_source :: string

section \<open>Parsing\<close>

definition first_token :: "string \<Rightarrow> string" where
  "first_token v = (case find_char (CHR '' '') v of None \<Rightarrow> v | Some i \<Rightarrow> take i v)"

definition start_marker :: string where
  "start_marker = '' start '' @ [dquote]"

definition callback_prefix :: string where
  "callback_prefix = '' INFO RPM callback ''"

definition rpm_callback_action :: "string \<Rightarrow> string option" where
  "rpm_callback_action line =
     (case find_str callback_prefix line of
        None \<Rightarrow> None
      | Some prefix_position \<Rightarrow>
          let action_start = prefix_position + length callback_prefix
          in case find_str_from start_marker line action_start of
               None \<Rightarrow> None
             | Some action_end \<Rightarrow>
                 let action = substr line action_start (action_end - action_start)
                 in if action = ''install'' \<or> action = ''erase'' \<or> action = ''upgrade''
                       \<or> action = ''downgrade'' \<or> action = ''reinstall''
                    then Some action else None)"

definition dnf4_action_from_verb :: "string \<Rightarrow> string" where
  "dnf4_action_from_verb verb =
     (if verb = ''Installed'' then ''install''
      else if verb = ''Upgraded'' \<or> verb = ''Updated'' then ''upgrade''
      else if verb = ''Erased'' \<or> verb = ''Removed'' then ''remove''
      else if verb = ''Downgraded'' then ''downgrade''
      else if verb = ''Reinstalled'' then ''reinstall''
      else '''')"

definition split_tab_fields :: "string \<Rightarrow> string list" where
  "split_tab_fields line = split_on tab line"

definition dnf4_verbs :: "string list" where
  "dnf4_verbs = [''Installed'', ''Upgraded'', ''Updated'', ''Erased'', ''Removed'', ''Downgraded'',
     ''Reinstalled'']"

fun scan_verbs :: "string \<Rightarrow> string \<Rightarrow> string list \<Rightarrow> package_change_row option" where
  "scan_verbs line src [] = None"
| "scan_verbs line src (verb # verbs) =
     (let marker = '' INFO '' @ verb @ '': ''
      in case find_str marker line of
           None \<Rightarrow> scan_verbs line src verbs
         | Some position \<Rightarrow>
             let package_start = position + length marker
             in if length line \<le> package_start then None
                else Some \<lparr>pc_timestamp = first_token line, pc_action = dnf4_action_from_verb verb,
                       pc_package = drop package_start line, pc_source = src\<rparr>)"

definition parse_package_change_log_line :: "string \<Rightarrow> string \<Rightarrow> package_change_row option" where
  "parse_package_change_log_line line src =
     (case rpm_callback_action line of
        Some action \<Rightarrow>
          (case find_str start_marker line of
             None \<Rightarrow> None
           | Some package_start \<Rightarrow>
               let value_start = package_start + length start_marker
               in case find_char_from dquote line value_start of
                    None \<Rightarrow> None
                  | Some value_end \<Rightarrow>
                      if value_end = value_start then None
                      else Some \<lparr>pc_timestamp = first_token line, pc_action = action,
                             pc_package = substr line value_start (value_end - value_start),
                             pc_source = src\<rparr>)
      | None \<Rightarrow> scan_verbs line src dnf4_verbs)"

definition parse_rpm_package_list_line :: "string \<Rightarrow> string \<Rightarrow> package_list_row option" where
  "parse_rpm_package_list_line line src =
     (let parts = split_tab_fields line
      in if length parts \<noteq> 6 then None
         else if list_ex (\<lambda>f. f = []) parts then None
         else Some \<lparr>pl_name = parts ! 0, pl_epoch = parts ! 1, pl_version = parts ! 2,
                pl_release = parts ! 3, pl_arch = parts ! 4, pl_install_time = parts ! 5,
                pl_source = src\<rparr>)"

section \<open>Bodies\<close>

definition format_package_list_row :: "package_list_row \<Rightarrow> string" where
  "format_package_list_row row =
     ''name='' @ redact_likely_secret (pl_name row) @
     '' epoch='' @ redact_likely_secret (pl_epoch row) @
     '' version='' @ redact_likely_secret (pl_version row) @
     '' release='' @ redact_likely_secret (pl_release row) @
     '' arch='' @ redact_likely_secret (pl_arch row) @
     '' install_time='' @ redact_likely_secret (pl_install_time row) @
     '' source='' @ redact_likely_secret (pl_source row) @ [newline]"

definition format_package_change_row :: "package_change_row \<Rightarrow> string" where
  "format_package_change_row row =
     ''timestamp='' @ redact_likely_secret (pc_timestamp row) @
     '' action='' @ redact_likely_secret (pc_action row) @
     '' package='' @ redact_likely_secret (pc_package row) @
     '' source='' @ redact_likely_secret (pc_source row) @ [newline]"

definition format_package_recent_changes_body :: "package_change_row list \<Rightarrow> bool \<Rightarrow> string" where
  "format_package_recent_changes_body rows has_more_rows =
     rows_body package_append (map format_package_change_row rows) has_more_rows
       (append_lines package_append
          ((''package_changes_count='' @ decimal (length rows) @ [newline])
           # (if rows = [] then [''no_package_changes=true'' @ [newline]] else []))
          ([], False))"

definition format_package_list_body :: "package_list_row list \<Rightarrow> bool \<Rightarrow> string" where
  "format_package_list_body rows has_more_rows =
     rows_body package_append (map format_package_list_row rows) has_more_rows
       (append_lines package_append
          ((''packages_count='' @ decimal (length rows) @ [newline])
           # (if rows = [] then [''no_packages=true'' @ [newline]] else []))
          ([], False))"

section \<open>The tools\<close>

text \<open>The reading loops of both tools: parsed lines are collected up to a limit.\<close>

fun collect_rows :: "nat \<Rightarrow> (string \<Rightarrow> 'r option) \<Rightarrow> string list \<Rightarrow> 'r list \<times> bool \<Rightarrow> 'r list \<times> bool" where
  "collect_rows limit parse [] acc = acc"
| "collect_rows limit parse (line # ls) (rows, extra) =
     (case parse line of
        None \<Rightarrow> collect_rows limit parse ls (rows, extra)
      | Some row \<Rightarrow>
          if length rows < limit then collect_rows limit parse ls (rows @ [row], extra)
          else collect_rows limit parse ls (rows, True))"

definition default_package_recent_change_log_paths :: "string list" where
  "default_package_recent_change_log_paths =
     [''/var/log/dnf5.log'', ''/var/log/dnf5.log.1'', ''/var/log/dnf5.log.2'', ''/var/log/dnf5.log.3'',
      ''/var/log/dnf5.log.4'', ''/var/log/dnf5.log.5'', ''/var/log/dnf.rpm.log'',
      ''/var/log/dnf.rpm.log.1'', ''/var/log/dnf.log'', ''/var/log/dnf.log.1'', ''/var/log/yum.log'',
      ''/var/log/yum.log.1'']"

fun read_logs ::
  "package_machine \<Rightarrow> string list \<Rightarrow> (package_change_row list \<times> bool) \<times> bool
   \<Rightarrow> ((package_change_row list \<times> bool) \<times> bool) result" where
  "read_logs m [] acc = Inr acc"
| "read_logs m (path # paths) (acc, readable) =
     bind_result (pk_regular m path) (\<lambda>regular.
       if \<not> regular then read_logs m paths (acc, readable)
       else case mc_file (pk_machine m) path of
              None \<Rightarrow> read_logs m paths (acc, readable)
            | Some content \<Rightarrow>
                read_logs m paths
                  (collect_rows 2000 (\<lambda>line. parse_package_change_log_line line path) (get_lines content) acc,
                   True))"

definition newer :: "package_change_row \<Rightarrow> package_change_row \<Rightarrow> bool" where
  "newer left right \<longleftrightarrow> pc_timestamp right < pc_timestamp left"

definition recent_changes_call :: "string list \<Rightarrow> package_machine \<Rightarrow> tool_request \<Rightarrow> tool_response result" where
  "recent_changes_call log_paths m q =
     bind_result (read_logs m log_paths (([], False), False)) (\<lambda>((rows, extra), readable).
       if \<not> readable then Inr (error_response q ''package history logs not found'')
       else
         let rows' = sort_range newer rows;
             (rows'', extra') = (if 100 < length rows' then (take 100 rows', True) else (rows', extra))
         in Inr (evidence_response q ''recent package changes listed'' ''packages.recent_changes''
              ''bounded recent package changes''
              (format_package_recent_changes_body rows'' extra') (mc_utc (pk_machine m))))"

definition package_recent_changes_tool :: "string list \<Rightarrow> package_machine tool" where
  "package_recent_changes_tool log_paths =
     \<lparr>tool_name = ''packages.recent_changes'', tool_risk = ReadOnly,
      tool_call = recent_changes_call log_paths\<rparr>"

definition package_before :: "package_list_row \<Rightarrow> package_list_row \<Rightarrow> bool" where
  "package_before left right \<longleftrightarrow>
     (if pl_name left = pl_name right then pl_arch left < pl_arch right
      else pl_name left < pl_name right)"

definition package_list_call :: "package_machine \<Rightarrow> tool_request \<Rightarrow> tool_response result" where
  "package_list_call m q =
     bind_result (pk_list_runner m) (\<lambda>res.
       if \<not> cr_ok res
       then Inr (error_response q (error_or ''package inventory command failed'' (cr_error res)))
       else
         let (rows, extra) = collect_rows 500 (\<lambda>line. parse_rpm_package_list_line line ''rpmdb'')
               (get_lines (cr_output res)) ([], False)
         in Inr (evidence_response q ''installed packages listed'' ''packages.list''
              ''bounded installed package list''
              (format_package_list_body (sort_range package_before rows) extra) (mc_utc (pk_machine m))))"

definition package_list_tool :: "package_machine tool" where
  "package_list_tool =
     \<lparr>tool_name = ''packages.list'', tool_risk = ReadOnly, tool_call = package_list_call\<rparr>"

section \<open>The default runner\<close>

definition rpm_candidates :: "string list" where
  "rpm_candidates = [''/usr/bin/rpm'', ''/bin/rpm'', ''/usr/local/bin/rpm'']"

fun find_executable :: "(string \<Rightarrow> bool result) \<Rightarrow> (string \<Rightarrow> bool) \<Rightarrow> string list \<Rightarrow> string option result" where
  "find_executable present runnable [] = Inr None"
| "find_executable present runnable (candidate # cs) =
     bind_result (present candidate) (\<lambda>there.
       if there \<and> runnable candidate then Inr (Some candidate) else find_executable present runnable cs)"

text \<open>The command line, and the environment the kernel makes of running it.\<close>

definition rpm_arguments :: "string list" where
  "rpm_arguments = [''-qa'', ''--qf'',
     ''%{NAME}'' @ tab # ''%{EPOCHNUM}'' @ tab # ''%{VERSION}'' @ tab # ''%{RELEASE}'' @ tab
       # ''%{ARCH}'' @ tab # ''%{INSTALLTIME}'' @ [newline]]"

definition default_package_list_runner ::
  "machine \<Rightarrow> (string \<Rightarrow> bool) \<Rightarrow> (string \<Rightarrow> string list \<Rightarrow> command_env)
   \<Rightarrow> package_command_result result option" where
  "default_package_list_runner m runnable execute =
     (case find_executable (mc_exists m) runnable rpm_candidates of
        Inl e \<Rightarrow> Some (Inl e)
      | Inr None \<Rightarrow> Some (Inr (command_failed 127 ''rpm executable not found''))
      | Inr (Some rpm) \<Rightarrow>
          map_option (\<lambda>(res, st). Inr res) (run_fixed_command (execute rpm rpm_arguments)))"

section \<open>Contracts\<close>

interpretation package: bounded_appender "64 * 1024" package_append
  unfolding package_append_def by (rule append_bounded_contract) simp_all

lemma package_changes_body_clip:
  "format_package_recent_changes_body rows extra = clip (64 * 1024)
     ((''package_changes_count='' @ decimal (length rows) @ [newline])
      @ (if rows = [] then ''no_package_changes=true'' @ [newline] else [])
      @ concat (map format_package_change_row rows) @ (if extra then truncation_marker else []))"
  unfolding format_package_recent_changes_body_def package.body_of_rows by (cases "rows = []") simp_all

lemma package_list_body_clip:
  "format_package_list_body rows extra = clip (64 * 1024)
     ((''packages_count='' @ decimal (length rows) @ [newline])
      @ (if rows = [] then ''no_packages=true'' @ [newline] else [])
      @ concat (map format_package_list_row rows) @ (if extra then truncation_marker else []))"
  unfolding format_package_list_body_def package.body_of_rows by (cases "rows = []") simp_all

interpretation recent_changes: reporting_tool "package_recent_changes_tool paths" "64 * 1024"
  by unfold_locales
    (auto simp: package_recent_changes_tool_def recent_changes_call_def bind_result_eq_Inr Let_def
      package_changes_body_clip length_clip split: if_splits)

interpretation package_list: reporting_tool package_list_tool "64 * 1024"
  by unfold_locales
    (auto simp: package_list_tool_def package_list_call_def bind_result_eq_Inr Let_def
      package_list_body_clip length_clip split: if_splits prod.splits)

section \<open>The order of the rows\<close>

text \<open>Newest first is the order of a key that compares the other way round.\<close>

datatype 'a descending = Descending (ascending: 'a)

instantiation descending :: (linorder) linorder
begin

definition less_eq_descending :: "'a descending \<Rightarrow> 'a descending \<Rightarrow> bool" where
  "less_eq_descending x y \<longleftrightarrow> ascending y \<le> ascending x"

definition less_descending :: "'a descending \<Rightarrow> 'a descending \<Rightarrow> bool" where
  "less_descending x y \<longleftrightarrow> ascending y < ascending x"

instance
  by standard (auto simp: less_eq_descending_def less_descending_def descending.expand)

end

lemma newer_by_key: "newer = by_key (\<lambda>row. Descending (pc_timestamp row))"
  by (intro ext) (simp add: newer_def by_key_def less_descending_def)

lemma package_before_by_key: "package_before = by_key (\<lambda>row. (pl_name row, pl_arch row))"
  by (intro ext) (auto simp: package_before_def by_key_def less_prod_def)

lemma newest_first:
  "mset (sort_range newer rows) = mset rows"
  "sorted_wrt (\<lambda>x y. pc_timestamp y \<le> pc_timestamp x) (sort_range newer rows)"
proof -
  show "mset (sort_range newer rows) = mset rows"
    unfolding newer_by_key by (rule sort.sort_permutes)
  have "sorted (map (\<lambda>row. Descending (pc_timestamp row)) (sort_range newer rows))"
    unfolding newer_by_key by (rule sort.sort_sorted)
  then show "sorted_wrt (\<lambda>x y. pc_timestamp y \<le> pc_timestamp x) (sort_range newer rows)"
    by (simp add: sorted_map less_eq_descending_def)
qed

lemma by_name_and_arch:
  "mset (sort_range package_before rows) = mset rows"
  "sorted (map (\<lambda>row. (pl_name row, pl_arch row)) (sort_range package_before rows))"
  unfolding package_before_by_key by (rule sort.sort_permutes, rule sort.sort_sorted)

section \<open>What is collected\<close>

lemma collect_rows_spec:
  "length rows \<le> limit \<Longrightarrow> collect_rows limit parse ls (rows, extra) =
     (take limit (rows @ List.map_filter parse ls),
      extra \<or> limit < length rows + length (List.map_filter parse ls))"
proof (induction ls arbitrary: rows extra)
  case (Cons line ls)
  then show ?case
    by (cases "parse line"; cases "length rows < limit")
      (auto simp: map_filter_simps take_Cons' Suc_diff_Suc)
qed (simp add: map_filter_simps)

text \<open>The changes in the logs that can be read, in the order of the logs and their lines.\<close>

definition logged_changes :: "package_machine \<Rightarrow> string list \<Rightarrow> package_change_row list" where
  "logged_changes m paths = concat (map (\<lambda>path.
     (case (pk_regular m path, mc_file (pk_machine m) path) of
        (Inr True, Some content) \<Rightarrow>
          List.map_filter (\<lambda>line. parse_package_change_log_line line path) (get_lines content)
      | _ \<Rightarrow> [])) paths)"

definition readable_log :: "package_machine \<Rightarrow> string \<Rightarrow> bool" where
  "readable_log m path \<longleftrightarrow> pk_regular m path = Inr True \<and> mc_file (pk_machine m) path \<noteq> None"

lemma logged_changes_Cons:
  "logged_changes m (path # paths) = logged_changes m [path] @ logged_changes m paths"
  by (simp add: logged_changes_def)

lemma read_logs_spec:
  assumes "\<And>path. path \<in> set paths \<Longrightarrow> \<exists>b. pk_regular m path = Inr b" "length rows \<le> 2000"
  shows "read_logs m paths ((rows, extra), readable) = Inr
     ((take 2000 (rows @ logged_changes m paths),
       extra \<or> 2000 < length rows + length (logged_changes m paths)),
      readable \<or> (\<exists>path \<in> set paths. readable_log m path))"
  using assms
proof (induction paths arbitrary: rows extra readable)
  case (Cons path paths)
  obtain b where b: "pk_regular m path = Inr b" using Cons.prems(1) by auto
  show ?case
  proof (cases "b \<and> mc_file (pk_machine m) path \<noteq> None")
    case True
    then obtain content where c: "mc_file (pk_machine m) path = Some content" by auto
    define new where "new = logged_changes m [path]"
    have new: "List.map_filter (\<lambda>line. parse_package_change_log_line line path) (get_lines content) = new"
      using b c True by (simp add: new_def logged_changes_def)
    have "read_logs m (path # paths) ((rows, extra), readable)
        = read_logs m paths ((take 2000 (rows @ new), extra \<or> 2000 < length rows + length new), True)"
      using b c True Cons.prems(2) by (simp add: collect_rows_spec new)
    also have "\<dots> = Inr ((take 2000 (take 2000 (rows @ new) @ logged_changes m paths),
        (extra \<or> 2000 < length rows + length new)
          \<or> 2000 < length (take 2000 (rows @ new)) + length (logged_changes m paths)), True)"
      using Cons.prems(1) by (subst Cons.IH) auto
    also have "take 2000 (take 2000 (rows @ new) @ logged_changes m paths)
        = take 2000 (rows @ logged_changes m (path # paths))"
      unfolding logged_changes_Cons [of m path paths] new_def [symmetric] by (simp add: take_append min_def)
    finally show ?thesis
      using b c True unfolding logged_changes_Cons [of m path paths] new_def [symmetric]
      by (auto simp: readable_log_def min_def)
  next
    case False
    then have skip: "logged_changes m [path] = []" "\<not> readable_log m path"
      "read_logs m (path # paths) ((rows, extra), readable) = read_logs m paths ((rows, extra), readable)"
      using b by (auto simp: logged_changes_def readable_log_def split: bool.splits option.splits)
    show ?thesis
      unfolding skip(3) logged_changes_Cons [of m path paths] skip(1)
      using Cons.IH [of rows extra readable] Cons.prems skip(2) by simp
  qed
qed (simp add: logged_changes_def)

section \<open>The reports\<close>


text \<open>A package as rpm prints it with the query format of the default runner.\<close>

definition rpm_line :: "package_list_row \<Rightarrow> string" where
  "rpm_line row = join_with [tab] [pl_name row, pl_epoch row, pl_version row, pl_release row,
     pl_arch row, pl_install_time row]"

definition rpm_row_ok :: "package_list_row \<Rightarrow> bool" where
  "rpm_row_ok row \<longleftrightarrow> pl_source row = ''rpmdb'' \<and>
     (\<forall>f \<in> set [pl_name row, pl_epoch row, pl_version row, pl_release row, pl_arch row,
        pl_install_time row]. f \<noteq> [] \<and> tab \<notin> set f \<and> newline \<notin> set f)"

lemma parse_rpm_line: "rpm_row_ok row \<Longrightarrow> parse_rpm_package_list_line (rpm_line row) ''rpmdb'' = Some row"
proof -
  let ?parts = "[pl_name row, pl_epoch row, pl_version row, pl_release row, pl_arch row, pl_install_time row]"
  assume ok: "rpm_row_ok row"
  then have "split_tab_fields (rpm_line row) = ?parts"
    unfolding split_tab_fields_def rpm_line_def by (intro split_join) (auto simp: rpm_row_ok_def)
  with ok show ?thesis
    by (cases row) (simp add: parse_rpm_package_list_line_def rpm_row_ok_def Let_def)
qed

lemma rpm_line_one_line: "rpm_row_ok row \<Longrightarrow> newline \<notin> set (rpm_line row)"
  by (simp add: rpm_line_def rpm_row_ok_def)


section \<open>Instances\<close>

definition sample_row :: package_list_row where
  "sample_row = \<lparr>pl_name = ''bash'', pl_epoch = ''0'', pl_version = ''5.2'', pl_release = ''1'',
     pl_arch = ''x86_64'', pl_install_time = ''17'', pl_source = ''rpmdb''\<rparr>"

definition sample_machine :: machine where
  "sample_machine = \<lparr>mc_file = (\<lambda>_. Some ''2024 INFO Installed: bash''), mc_exists = (\<lambda>_. Inr True),
     mc_list = (\<lambda>_. DirError), mc_symlink = (\<lambda>_. None), mc_space = (\<lambda>_. None), mc_uname = None,
     mc_ifaddrs = None,
     mc_utc = \<lparr>tm_year = 124, tm_mon = 0, tm_mday = 1, tm_hour = 0, tm_min = 0, tm_sec = 0\<rparr>\<rparr>"

definition sample_package_machine :: package_machine where
  "sample_package_machine = \<lparr>pk_machine = sample_machine, pk_regular = (\<lambda>_. Inr True),
     pk_list_runner = Inr \<lparr>cr_ok = True, cr_exit_code = 0,
       cr_output = rpm_line sample_row @ [newline], cr_error = []\<rparr>\<rparr>"

definition sample_package_request :: tool_request where
  "sample_package_request = \<lparr>req_id = ''r1'', req_tool_name = ''packages.list'', req_risk = ReadOnly, req_params = []\<rparr>"



end
