(* ===== verification/Systemd_Tool.thy ===== *)
theory Systemd_Tool
  imports Machine Redaction
begin

text \<open>
  \<open>src/tools/systemd_tool.cpp\<close>: the units, the failed and the enabled services and the status of one
  unit, as the system manager answers over D-Bus. What libsystemd delivers of each reply is the record
  \<open>bus_machine\<close>. The three list tools have the same reading code with other messages; it is
  translated once, with the noun of the messages as an argument.
\<close>

section \<open>Observations\<close>

text \<open>
  An array reply: whether the call succeeds and the array can be entered, its structs (\<open>None\<close>
  where reading the members fails), whether entering the next struct fails at the end, and whether
  the array can be left. Strings are pointers that may be null.
\<close>

record 'e bus_reply =
  br_called :: bool
  br_entered :: bool
  br_entries :: "'e option list"
  br_breaks :: bool
  br_left :: bool

record unit_struct =
  us_unit :: "string option"
  us_description :: "string option"
  us_load_state :: "string option"
  us_active_state :: "string option"
  us_sub_state :: "string option"

record unit_file_struct =
  uf_unit :: "string option"
  uf_state :: "string option"

text \<open>
  \<open>GetUnit\<close> fails (\<open>None\<close>), or its reply is a path, or no path can be read of it
  (\<open>Some None\<close>). A property of an object is missing or a value.
\<close>

record bus_machine =
  bm_opens :: bool
  bm_units :: "unit_struct bus_reply"
  bm_unit_files :: "unit_file_struct bus_reply"
  bm_get_unit :: "string \<Rightarrow> string option option"
  bm_string_property :: "string \<Rightarrow> string \<Rightarrow> string \<Rightarrow> string option option"
  bm_int_property :: "string \<Rightarrow> string \<Rightarrow> string \<Rightarrow> 32 word option"
  bm_utc :: utc_tm

section \<open>Rows and bodies\<close>

definition systemd_append :: "string \<Rightarrow> string \<Rightarrow> bool \<Rightarrow> string \<times> bool" where
  "systemd_append = append_bounded (64 * 1024)"

record systemd_unit_list_row =
  ul_unit :: string
  ul_load_state :: string
  ul_active_state :: string
  ul_sub_state :: string
  ul_description :: string

record failed_service_row =
  fs_unit :: string
  fs_load_state :: string
  fs_active_state :: string
  fs_sub_state :: string
  fs_description :: string

record enabled_service_row =
  es_unit :: string
  es_state :: string

record systemd_unit_status_evidence =
  su_unit :: string
  su_id :: string
  su_description :: string
  su_load_state :: string
  su_active_state :: string
  su_sub_state :: string
  su_unit_file_state :: string
  su_fragment_path :: string
  su_is_service :: bool
  su_service_result :: string
  su_exec_main_code :: string
  su_exec_main_status :: string

definition systemd_unavailable :: "tool_request \<Rightarrow> tool_response" where
  "systemd_unavailable q = error_response q ''systemd support was not built''"

definition status_unit_param :: "tool_request \<Rightarrow> string" where
  "status_unit_param q = (case smap_find (req_params q) ''unit'' of None \<Rightarrow> [] | Some unit \<Rightarrow> unit)"

definition missing_status_unit :: "tool_request \<Rightarrow> tool_response" where
  "missing_status_unit q = error_response q ''systemd.unit.status requires a non-empty unit parameter''"

definition value_or_empty :: "string option \<Rightarrow> string" where
  "value_or_empty v = (case v of None \<Rightarrow> [] | Some s \<Rightarrow> s)"

definition format_unit_row :: "systemd_unit_list_row \<Rightarrow> string" where
  "format_unit_row row =
     ul_unit row @ '' load='' @ ul_load_state row @ '' active='' @ ul_active_state row @
     '' sub='' @ ul_sub_state row @ '' description='' @ redact_likely_secret (ul_description row) @ [newline]"

definition format_failed_service_row :: "failed_service_row \<Rightarrow> string" where
  "format_failed_service_row row =
     fs_unit row @ '' load='' @ fs_load_state row @ '' active='' @ fs_active_state row @
     '' sub='' @ fs_sub_state row @ '' description='' @ redact_likely_secret (fs_description row) @ [newline]"

definition format_enabled_service_row :: "enabled_service_row \<Rightarrow> string" where
  "format_enabled_service_row row = es_unit row @ '' state='' @ redact_likely_secret (es_state row) @ [newline]"

definition format_systemd_units_list_body :: "systemd_unit_list_row list \<Rightarrow> bool \<Rightarrow> string" where
  "format_systemd_units_list_body rows has_more_rows =
     rows_body systemd_append (map format_unit_row rows) has_more_rows ([], False)"

definition format_failed_services_body :: "failed_service_row list \<Rightarrow> bool \<Rightarrow> string" where
  "format_failed_services_body rows has_more_rows =
     rows_body systemd_append (map format_failed_service_row rows) has_more_rows
       (append_lines systemd_append
          ((''failed_services_count='' @ decimal (length rows) @ [newline])
           # (if rows = [] then [''no_failed_services=true'' @ [newline]] else []))
          ([], False))"

definition format_enabled_services_body :: "enabled_service_row list \<Rightarrow> bool \<Rightarrow> string" where
  "format_enabled_services_body rows has_more_rows =
     rows_body systemd_append (map format_enabled_service_row rows) has_more_rows
       (append_lines systemd_append
          ((''enabled_services_count='' @ decimal (length rows) @ [newline])
           # (if rows = [] then [''no_enabled_services=true'' @ [newline]] else []))
          ([], False))"

definition normalize_systemd_unit_file_name :: "string \<Rightarrow> string" where
  "normalize_systemd_unit_file_name unit_file =
     (case find_last_char (CHR ''/'') unit_file of
        None \<Rightarrow> unit_file
      | Some i \<Rightarrow> if length unit_file \<le> i + 1 then [] else drop (i + 1) unit_file)"

text \<open>One line \<open>key=value\<close> of the status body.\<close>

definition status_line :: "string \<Rightarrow> string \<Rightarrow> string" where
  "status_line key v = key @ ''='' @ redact_likely_secret v @ [newline]"

definition status_fields :: "systemd_unit_status_evidence \<Rightarrow> (string \<times> string) list" where
  "status_fields ev =
     [(''unit'', su_unit ev), (''id'', su_id ev), (''description'', su_description ev),
      (''load_state'', su_load_state ev), (''active_state'', su_active_state ev),
      (''sub_state'', su_sub_state ev), (''unit_file_state'', su_unit_file_state ev),
      (''fragment_path'', su_fragment_path ev)]
     @ (if su_is_service ev
        then [(''service_result'', su_service_result ev), (''exec_main_code'', su_exec_main_code ev),
              (''exec_main_status'', su_exec_main_status ev)]
        else [])"

definition format_systemd_unit_status_body :: "systemd_unit_status_evidence \<Rightarrow> string" where
  "format_systemd_unit_status_body ev =
     fst (append_lines systemd_append (map (\<lambda>(key, v). status_line key v) (status_fields ev)) ([], False))"

section \<open>Reading replies\<close>

fun read_entries :: "('e \<Rightarrow> 'a \<Rightarrow> 'a) \<Rightarrow> 'e option list \<Rightarrow> 'a \<Rightarrow> 'a option" where
  "read_entries step [] acc = Some acc"
| "read_entries step (None # es) acc = None"
| "read_entries step (Some e # es) acc = read_entries step es (step e acc)"

definition read_bus_list ::
  "bool \<Rightarrow> 'e bus_reply \<Rightarrow> string \<Rightarrow> ('e \<Rightarrow> 'a \<Rightarrow> 'a) \<Rightarrow> 'a \<Rightarrow> string + 'a" where
  "read_bus_list opens reply noun step acc =
     (if \<not> opens then Inl ''failed to connect to systemd system bus''
      else if \<not> br_called reply then Inl (''failed to list systemd '' @ noun @ ''s'')
      else if \<not> br_entered reply then Inl (''failed to read systemd '' @ noun @ '' list'')
      else case read_entries step (br_entries reply) acc of
             None \<Rightarrow> Inl (''failed to read systemd '' @ noun @ '' entry'')
           | Some res \<Rightarrow>
               if br_breaks reply then Inl (''failed to read systemd '' @ noun @ '' list'')
               else if \<not> br_left reply
               then Inl (''failed to finish reading systemd '' @ noun @ '' list'')
               else Inr res)"

text \<open>A row is added up to the limit; beyond it the flag is set.\<close>

definition add_limited :: "nat \<Rightarrow> 'r option \<Rightarrow> 'r list \<times> bool \<Rightarrow> 'r list \<times> bool" where
  "add_limited limit row acc =
     (case row of
        None \<Rightarrow> acc
      | Some r \<Rightarrow> if length (fst acc) < limit then (fst acc @ [r], snd acc) else (fst acc, True))"

definition failed_row :: "unit_struct \<Rightarrow> failed_service_row option" where
  "failed_row e =
     (let unit_value = normalize_systemd_unit_file_name (value_or_empty (us_unit e));
          active_value = value_or_empty (us_active_state e)
      in if ends_with unit_value ''.service'' \<and> active_value = ''failed''
         then Some \<lparr>fs_unit = unit_value, fs_load_state = value_or_empty (us_load_state e),
                fs_active_state = active_value, fs_sub_state = value_or_empty (us_sub_state e),
                fs_description = value_or_empty (us_description e)\<rparr>
         else None)"

definition enabled_row :: "unit_file_struct \<Rightarrow> enabled_service_row option" where
  "enabled_row e =
     (let unit_value = normalize_systemd_unit_file_name (value_or_empty (uf_unit e));
          state_value = value_or_empty (uf_state e)
      in if ends_with unit_value ''.service''
            \<and> (state_value = ''enabled'' \<or> state_value = ''enabled-runtime'')
         then Some \<lparr>es_unit = unit_value, es_state = state_value\<rparr> else None)"

definition unit_row :: "unit_struct \<Rightarrow> systemd_unit_list_row option" where
  "unit_row e = Some
     \<lparr>ul_unit = value_or_empty (us_unit e), ul_load_state = value_or_empty (us_load_state e),
      ul_active_state = value_or_empty (us_active_state e), ul_sub_state = value_or_empty (us_sub_state e),
      ul_description = value_or_empty (us_description e)\<rparr>"

definition failed_services_call :: "bool \<Rightarrow> bus_machine \<Rightarrow> tool_request \<Rightarrow> tool_response result" where
  "failed_services_call has_systemd m q =
     (if \<not> has_systemd then Inr (systemd_unavailable q)
      else case read_bus_list (bm_opens m) (bm_units m) ''unit'' (\<lambda>e. add_limited 100 (failed_row e)) ([], False) of
             Inl msg \<Rightarrow> Inr (error_response q msg)
           | Inr (rows, extra) \<Rightarrow>
               Inr (evidence_response q ''failed services listed'' ''services.failed''
                 ''bounded failed service list'' (format_failed_services_body rows extra) (bm_utc m)))"

definition enabled_services_call :: "bool \<Rightarrow> bus_machine \<Rightarrow> tool_request \<Rightarrow> tool_response result" where
  "enabled_services_call has_systemd m q =
     (if \<not> has_systemd then Inr (systemd_unavailable q)
      else case read_bus_list (bm_opens m) (bm_unit_files m) ''unit file''
                  (\<lambda>e. add_limited 200 (enabled_row e)) ([], False) of
             Inl msg \<Rightarrow> Inr (error_response q msg)
           | Inr (rows, extra) \<Rightarrow>
               Inr (evidence_response q ''enabled services listed'' ''services.enabled''
                 ''bounded enabled service list'' (format_enabled_services_body rows extra) (bm_utc m)))"

definition systemd_units_call :: "bool \<Rightarrow> bus_machine \<Rightarrow> tool_request \<Rightarrow> tool_response result" where
  "systemd_units_call has_systemd m q =
     (if \<not> has_systemd then Inr (systemd_unavailable q)
      else case read_bus_list (bm_opens m) (bm_units m) ''unit'' (\<lambda>e. add_limited 200 (unit_row e)) ([], False) of
             Inl msg \<Rightarrow> Inr (error_response q msg)
           | Inr (rows, extra) \<Rightarrow>
               Inr (evidence_response q ''systemd units listed'' ''systemd.units.list''
                 ''bounded systemd unit list'' (format_systemd_units_list_body rows extra) (bm_utc m)))"

section \<open>The status of a unit\<close>

definition read_string_property :: "bus_machine \<Rightarrow> string \<Rightarrow> string \<Rightarrow> string \<Rightarrow> string" where
  "read_string_property m object_path iface prop =
     (case bm_string_property m object_path iface prop of
        None \<Rightarrow> ''unavailable''
      | Some v \<Rightarrow> value_or_empty v)"

definition read_int_property :: "bus_machine \<Rightarrow> string \<Rightarrow> string \<Rightarrow> string \<Rightarrow> string" where
  "read_int_property m object_path iface prop =
     (case bm_int_property m object_path iface prop of
        None \<Rightarrow> ''unavailable''
      | Some v \<Rightarrow> to_string_int (sint v))"

definition unit_status :: "bus_machine \<Rightarrow> string \<Rightarrow> string \<Rightarrow> systemd_unit_status_evidence" where
  "unit_status m unit_path unit =
     (let is_service = ends_with unit ''.service'';
          get = read_string_property m unit_path ''org.freedesktop.systemd1.Unit'';
          service = ''org.freedesktop.systemd1.Service''
      in \<lparr>su_unit = unit, su_id = get ''Id'', su_description = get ''Description'',
          su_load_state = get ''LoadState'', su_active_state = get ''ActiveState'',
          su_sub_state = get ''SubState'', su_unit_file_state = get ''UnitFileState'',
          su_fragment_path = get ''FragmentPath'', su_is_service = is_service,
          su_service_result =
            (if is_service then read_string_property m unit_path service ''Result'' else []),
          su_exec_main_code =
            (if is_service then read_int_property m unit_path service ''ExecMainCode'' else []),
          su_exec_main_status =
            (if is_service then read_int_property m unit_path service ''ExecMainStatus'' else [])\<rparr>)"

definition unit_status_call :: "bool \<Rightarrow> bus_machine \<Rightarrow> tool_request \<Rightarrow> tool_response result" where
  "unit_status_call has_systemd m q =
     (let unit = status_unit_param q
      in if is_blank unit then Inr (missing_status_unit q)
         else if \<not> has_systemd then Inr (systemd_unavailable q)
         else if \<not> bm_opens m then Inr (error_response q ''failed to connect to systemd system bus'')
         else case bm_get_unit m (c_str unit) of
                None \<Rightarrow> Inr (error_response q ''failed to get systemd unit'')
              | Some None \<Rightarrow> Inr (error_response q ''failed to read systemd unit object path'')
              | Some (Some unit_path) \<Rightarrow>
                  if unit_path = [] then Inr (error_response q ''failed to read systemd unit object path'')
                  else Inr (evidence_response q ''systemd unit status read'' ''systemd.unit.status''
                    (''bounded systemd status for '' @ unit)
                    (format_systemd_unit_status_body (unit_status m unit_path unit)) (bm_utc m)))"

section \<open>The tools\<close>

definition failed_services_tool :: "bool \<Rightarrow> bus_machine tool" where
  "failed_services_tool has_systemd =
     \<lparr>tool_name = ''services.failed'', tool_risk = ReadOnly, tool_call = failed_services_call has_systemd\<rparr>"

definition enabled_services_tool :: "bool \<Rightarrow> bus_machine tool" where
  "enabled_services_tool has_systemd =
     \<lparr>tool_name = ''services.enabled'', tool_risk = ReadOnly, tool_call = enabled_services_call has_systemd\<rparr>"

definition systemd_units_tool :: "bool \<Rightarrow> bus_machine tool" where
  "systemd_units_tool has_systemd =
     \<lparr>tool_name = ''systemd.units.list'', tool_risk = ReadOnly, tool_call = systemd_units_call has_systemd\<rparr>"

definition systemd_unit_status_tool :: "bool \<Rightarrow> bus_machine tool" where
  "systemd_unit_status_tool has_systemd =
     \<lparr>tool_name = ''systemd.unit.status'', tool_risk = ReadOnly, tool_call = unit_status_call has_systemd\<rparr>"

section \<open>Contracts\<close>

interpretation systemd: bounded_appender 65536 systemd_append
  unfolding systemd_append_def using append_bounded_contract [of 65536] by simp

lemma units_body_clip:
  "format_systemd_units_list_body rows extra =
     clip 65536 (concat (map format_unit_row rows) @ (if extra then truncation_marker else []))"
  using systemd.body_of_rows [of "map format_unit_row rows" extra "[]"]
  by (simp add: format_systemd_units_list_body_def)

lemma failed_body_clip:
  "format_failed_services_body rows extra = clip 65536
     ((''failed_services_count='' @ decimal (length rows) @ [newline])
      @ (if rows = [] then ''no_failed_services=true'' @ [newline] else [])
      @ concat (map format_failed_service_row rows) @ (if extra then truncation_marker else []))"
  unfolding format_failed_services_body_def systemd.body_of_rows by (cases "rows = []") simp_all

lemma enabled_body_clip:
  "format_enabled_services_body rows extra = clip 65536
     ((''enabled_services_count='' @ decimal (length rows) @ [newline])
      @ (if rows = [] then ''no_enabled_services=true'' @ [newline] else [])
      @ concat (map format_enabled_service_row rows) @ (if extra then truncation_marker else []))"
  unfolding format_enabled_services_body_def systemd.body_of_rows by (cases "rows = []") simp_all

lemma status_body_clip:
  "format_systemd_unit_status_body ev =
     clip 65536 (concat (map (\<lambda>(key, v). status_line key v) (status_fields ev)))"
  unfolding format_systemd_unit_status_body_def systemd.body_of_lines by simp

lemmas systemd_body_clip = units_body_clip failed_body_clip enabled_body_clip status_body_clip

interpretation failed_services: reporting_tool "failed_services_tool has_systemd" "64 * 1024"
  by unfold_locales
    (auto simp: failed_services_tool_def failed_services_call_def systemd_unavailable_def
      systemd_body_clip length_clip split: if_splits sum.splits prod.splits)

interpretation enabled_services: reporting_tool "enabled_services_tool has_systemd" "64 * 1024"
  by unfold_locales
    (auto simp: enabled_services_tool_def enabled_services_call_def systemd_unavailable_def
      systemd_body_clip length_clip split: if_splits sum.splits prod.splits)

interpretation systemd_units: reporting_tool "systemd_units_tool has_systemd" "64 * 1024"
  by unfold_locales
    (auto simp: systemd_units_tool_def systemd_units_call_def systemd_unavailable_def
      systemd_body_clip length_clip split: if_splits sum.splits prod.splits)

interpretation unit_status: reporting_tool "systemd_unit_status_tool has_systemd" "64 * 1024"
  by unfold_locales
    (auto simp: systemd_unit_status_tool_def unit_status_call_def systemd_unavailable_def
      missing_status_unit_def systemd_body_clip length_clip Let_def split: if_splits option.splits)

section \<open>What is listed\<close>

lemma read_entries_fold:
  "read_entries step es acc = (if None \<in> set es then None else Some (fold step (map the es) acc))"
  by (induction step es acc rule: read_entries.induct) simp_all

lemma fold_add_limited:
  "length (fst acc) \<le> limit \<Longrightarrow> fold (\<lambda>e. add_limited limit (row e)) es acc =
     (take limit (fst acc @ List.map_filter row es),
      snd acc \<or> limit < length (fst acc) + length (List.map_filter row es))"
proof (induction es arbitrary: acc)
  case (Cons e es)
  then show ?case
    by (cases "row e"; cases "length (fst acc) < limit")
      (auto simp: add_limited_def map_filter_simps take_Cons' Suc_diff_Suc)
qed (simp add: map_filter_simps)

text \<open>The structs of a reply that can be read from its beginning to its end.\<close>

definition delivered :: "bool \<Rightarrow> 'e bus_reply \<Rightarrow> 'e list option" where
  "delivered opens reply =
     (if opens \<and> br_called reply \<and> br_entered reply \<and> None \<notin> set (br_entries reply)
         \<and> \<not> br_breaks reply \<and> br_left reply
      then Some (map the (br_entries reply)) else None)"

lemma read_bus_list_delivered:
  "case delivered opens reply of
     None \<Rightarrow> \<exists>msg. read_bus_list opens reply noun (\<lambda>e. add_limited limit (row e)) ([], False) = Inl msg
   | Some es \<Rightarrow> read_bus_list opens reply noun (\<lambda>e. add_limited limit (row e)) ([], False) =
       Inr (take limit (List.map_filter row es), limit < length (List.map_filter row es))"
  by (simp add: read_bus_list_def delivered_def read_entries_fold fold_add_limited)


text \<open>The name without directories is what follows the last slash.\<close>

lemma normalize_after_slash: "CHR ''/'' \<notin> set s \<Longrightarrow> normalize_systemd_unit_file_name (d @ CHR ''/'' # s) = s"
  by (auto simp: normalize_systemd_unit_file_name_def find_last_char_def)

lemma normalize_plain: "CHR ''/'' \<notin> set s \<Longrightarrow> normalize_systemd_unit_file_name s = s"
proof -
  assume "CHR ''/'' \<notin> set s"
  then have "find_char (CHR ''/'') (rev s) = None" by simp
  then show ?thesis by (simp only: normalize_systemd_unit_file_name_def find_last_char_def option.simps)
qed

end
