(* ===== verification/Journal_Tool.thy ===== *)
theory Journal_Tool
  imports Machine Redaction
begin

text \<open>
  \<open>src/tools/journal_tool.cpp\<close>: the entries of one unit, at most 50 of them in at most 16 KiB, from
  a fixture of JSON lines or from the system journal. What libsystemd answers (whether the journal
  opens, takes the match and seeks, and the entries a walk from the tail meets) is the record
  \<open>journal_machine\<close>; the JSON library is a parameter. The specification of both tools is one
  \<open>clip\<close> of the rows of the unit.
\<close>

section \<open>Observations\<close>

text \<open>The raw fields \<open>PRIORITY=...\<close> and \<open>MESSAGE=...\<close> of an entry, where it has them.\<close>

record journal_entry =
  je_priority :: "string option"
  je_message :: "string option"

text \<open>
  A walk with \<open>sd_journal_previous\<close>: the entries, and whether it ends with an error instead of the
  head of the journal.
\<close>

record journal_machine =
  jm_machine :: machine
  jm_opens :: bool
  jm_takes_match :: "string \<Rightarrow> bool"
  jm_seeks :: bool
  jm_walk :: "string \<Rightarrow> journal_entry list \<times> bool"

section \<open>The code\<close>

definition journal_append :: "string \<Rightarrow> string \<Rightarrow> bool \<Rightarrow> string \<times> bool" where
  "journal_append = append_bounded (16 * 1024)"

definition json_string_value :: "json \<Rightarrow> string \<Rightarrow> string" where
  "json_string_value entry key =
     (case json_at key entry of Inr (JString s) \<Rightarrow> s | _ \<Rightarrow> [])"

definition append_truncation_marker :: "string \<Rightarrow> bool \<Rightarrow> string \<times> bool" where
  "append_truncation_marker body truncated =
     (if \<not> truncated then (fst (journal_append body truncation_marker truncated), True)
      else (body, truncated))"

definition unit_param :: "tool_request \<Rightarrow> string" where
  "unit_param q = (case smap_find (req_params q) ''unit'' of None \<Rightarrow> [] | Some unit \<Rightarrow> unit)"

definition required_unit_param :: "tool_request \<Rightarrow> string result" where
  "required_unit_param q =
     (if is_blank (unit_param q)
      then Inl (InvalidArgument ''journal.query requires a non-empty unit parameter'')
      else Inr (unit_param q))"

definition missing_unit_response :: "tool_request \<Rightarrow> tool_response" where
  "missing_unit_response q = error_response q ''journal.query requires a non-empty unit parameter''"

definition journal_unavailable_response :: "tool_request \<Rightarrow> tool_response" where
  "journal_unavailable_response q = error_response q ''journal support was not built''"

text \<open>One line of the fixture in the body.\<close>

definition fixture_row :: "json \<Rightarrow> string" where
  "fixture_row entry =
     json_string_value entry ''PRIORITY'' @ '' ''
     @ redact_likely_secret (json_string_value entry ''MESSAGE'') @ [newline]"

text \<open>
  The loop over the fixture: the body with its flag, and the counters of entries and of lines that
  are no JSON objects.
\<close>

fun fixture_loop ::
  "json_lib \<Rightarrow> string \<Rightarrow> string list \<Rightarrow> (string \<times> bool) \<times> nat \<times> nat \<Rightarrow> (string \<times> bool) \<times> nat \<times> nat" where
  "fixture_loop jl unit [] acc = acc"
| "fixture_loop jl unit (line # ls) ((body, truncated), entries, skipped) =
     (case json_parse jl line of
        Inl _ \<Rightarrow> fixture_loop jl unit ls ((body, truncated), entries, Suc skipped)
      | Inr entry \<Rightarrow>
          if \<not> json_is_object entry
          then fixture_loop jl unit ls ((body, truncated), entries, Suc skipped)
          else if unit \<noteq> [] \<and> json_string_value entry ''_SYSTEMD_UNIT'' \<noteq> unit
          then fixture_loop jl unit ls ((body, truncated), entries, skipped)
          else if 50 \<le> entries
          then (append_truncation_marker body truncated, entries, skipped)
          else
            let (body', truncated') = journal_append body (fixture_row entry) truncated
            in if truncated' then ((body', truncated'), entries, skipped)
               else fixture_loop jl unit ls ((body', truncated'), Suc entries, skipped))"

definition fixture_body :: "json_lib \<Rightarrow> string \<Rightarrow> string \<Rightarrow> string" where
  "fixture_body jl unit content =
     (case fixture_loop jl unit (get_lines content) (([], False), 0, 0) of
        ((body, truncated), _, skipped) \<Rightarrow>
          if 0 < skipped \<and> \<not> truncated
          then fst (journal_append body (''skipped_invalid_entries='' @ decimal skipped @ [newline]) truncated)
          else body)"

definition fixture_call :: "json_lib \<Rightarrow> string \<Rightarrow> journal_machine \<Rightarrow> tool_request \<Rightarrow> tool_response result" where
  "fixture_call jl fixture_path m q =
     (case required_unit_param q of
        Inl _ \<Rightarrow> Inr (missing_unit_response q)
      | Inr unit \<Rightarrow>
          (case mc_file (jm_machine m) fixture_path of
             None \<Rightarrow> Inr (error_response q (''failed to open journal fixture: '' @ fixture_path))
           | Some content \<Rightarrow>
               Inr (evidence_response q ''journal fixture queried'' ''journal.query''
                 (''bounded journal entries for '' @ unit) (fixture_body jl unit content)
                 (mc_utc (jm_machine m)))))"

definition journal_fixture_tool :: "json_lib \<Rightarrow> string \<Rightarrow> journal_machine tool" where
  "journal_fixture_tool jl fixture_path =
     \<lparr>tool_name = ''journal.query'', tool_risk = ReadOnly, tool_call = fixture_call jl fixture_path\<rparr>"

text \<open>\<open>field.starts_with(prefix) ? field.substr(prefix.size()) : ""\<close>, for a field that may be missing.\<close>

definition field_value :: "string \<Rightarrow> string option \<Rightarrow> string" where
  "field_value key field =
     (case field of None \<Rightarrow> [] | Some s \<Rightarrow> if prefix key s then drop (length key) s else [])"

definition live_row :: "journal_entry \<Rightarrow> string" where
  "live_row entry =
     field_value ''PRIORITY='' (je_priority entry) @ '' ''
     @ redact_likely_secret (field_value ''MESSAGE='' (je_message entry)) @ [newline]"

text \<open>The walk; the last component is whether it was left before its end.\<close>

fun live_loop :: "journal_entry list \<Rightarrow> (string \<times> bool) \<times> nat \<Rightarrow> (string \<times> bool) \<times> bool" where
  "live_loop [] ((body, truncated), entries) = ((body, truncated), False)"
| "live_loop (entry # es) ((body, truncated), entries) =
     (if 50 \<le> entries then (append_truncation_marker body truncated, True)
      else
        let (body', truncated') = journal_append body (live_row entry) truncated
        in if truncated' then ((body', truncated'), True)
           else live_loop es ((body', truncated'), Suc entries))"

definition live_journal_call :: "bool \<Rightarrow> journal_machine \<Rightarrow> tool_request \<Rightarrow> tool_response result" where
  "live_journal_call has_systemd m q =
     (case required_unit_param q of
        Inl _ \<Rightarrow> Inr (missing_unit_response q)
      | Inr unit \<Rightarrow>
          if \<not> has_systemd then Inr (journal_unavailable_response q)
          else if \<not> jm_opens m then Inr (error_response q ''failed to open journal'')
          else if unit \<noteq> [] \<and> \<not> jm_takes_match m (c_str (''_SYSTEMD_UNIT='' @ unit))
          then Inr (error_response q ''failed to add journal unit match'')
          else if \<not> jm_seeks m then Inr (error_response q ''failed to seek journal'')
          else
            let (es, fails) = jm_walk m (c_str (''_SYSTEMD_UNIT='' @ unit));
                ((body, truncated), left) = live_loop es (([], False), 0)
            in if \<not> left \<and> fails then Inr (error_response q ''failed to read journal'')
               else Inr (evidence_response q ''journal queried'' ''journal.query''
                 (''bounded recent journal entries for '' @ unit) body (mc_utc (jm_machine m))))"

definition live_journal_tool :: "bool \<Rightarrow> journal_machine tool" where
  "live_journal_tool has_systemd =
     \<lparr>tool_name = ''journal.query'', tool_risk = ReadOnly, tool_call = live_journal_call has_systemd\<rparr>"

section \<open>The bodies\<close>

interpretation journal: bounded_appender 16384 journal_append
  unfolding journal_append_def using append_bounded_contract [of 16384] by simp

text \<open>The specification: rows up to the limit of entries, then the marker or a closing line.\<close>

definition journal_spec :: "string list \<Rightarrow> string \<Rightarrow> string" where
  "journal_spec rows closing =
     clip (16384)
       (concat (take 50 rows) @ (if 50 < length rows then truncation_marker else closing))"

text \<open>The step both loops make for a row of the unit.\<close>

lemma journal_append_state:
  "16384 < length (s @ t) \<Longrightarrow>
     journal_append (fst (journal.state s)) t (snd (journal.state s)) = (clip (16384) (s @ t), True)"
  "length (s @ t) \<le> 16384 \<Longrightarrow>
     journal_append (fst (journal.state s)) t (snd (journal.state s)) = journal.state (s @ t)
     \<and> \<not> snd (journal.state (s @ t))"
  unfolding journal.append_state by (simp_all only: journal.state_def) simp_all

lemma append_truncation_marker_state:
  "length s \<le> 16384 \<Longrightarrow>
     append_truncation_marker (fst (journal.state s)) (snd (journal.state s))
     = (clip (16384) (s @ truncation_marker), True)"
  using journal.append_state [of s truncation_marker]
  by (simp add: append_truncation_marker_def journal.state_def)

lemma live_loop_Cons:
  "live_loop (entry # es) (st, n) =
     (if 50 \<le> n then (append_truncation_marker (fst st) (snd st), True)
      else
        let (body', truncated') = journal_append (fst st) (live_row entry) (snd st)
        in if truncated' then ((body', truncated'), True)
           else live_loop es ((body', truncated'), Suc n))"
  by (cases st) simp

lemma live_loop_spec:
  assumes "n \<le> 50" "length s \<le> 16384"
  shows "\<exists>tr left. live_loop es (journal.state s, n) =
     ((clip (16384) (s @ concat (take (50 - n) (map live_row es))
         @ (if 50 < n + length es then truncation_marker else [])), tr), left)
     \<and> (\<not> left \<longrightarrow> n + length es \<le> 50 \<and> length (s @ concat (map live_row es)) \<le> 16384)
     \<and> (left \<longrightarrow> 50 < n + length es \<or> 16384 < length (s @ concat (map live_row es)))"
  using assms
proof (induction es arbitrary: s n)
  case Nil
  then show ?case by (auto simp: journal.state_def [of s])
next
  case (Cons entry es)
  let ?t = "live_row entry"
  show ?case
  proof (cases "50 \<le> n")
    case True
    have "live_loop (entry # es) (journal.state s, n)
        = (append_truncation_marker (fst (journal.state s)) (snd (journal.state s)), True)"
      using True by (simp add: live_loop_Cons)
    with True Cons.prems show ?thesis by (auto simp: append_truncation_marker_state)
  next
    case more: False
    then obtain k where k: "50 - n = Suc k" "50 - Suc n = k" by (metis Suc_diff_le Suc_leI diff_Suc_Suc not_le)
    show ?thesis
    proof (cases "length (s @ ?t) \<le> 16384")
      case True
      have "live_loop (entry # es) (journal.state s, n) = live_loop es (journal.state (s @ ?t), Suc n)"
        using more journal_append_state(2) [OF True]
        by (auto simp: live_loop_Cons Let_def split: prod.splits)
      with Cons.IH [of "Suc n" "s @ ?t"] more True k show ?thesis by simp
    next
      case False
      then have over: "16384 < length (s @ ?t)" by simp
      have "live_loop (entry # es) (journal.state s, n) = ((clip (16384) (s @ ?t), True), True)"
        using more journal_append_state(1) [OF over] by (simp add: live_loop_Cons)
      moreover have "clip (16384) (s @ ?t) = clip (16384) ((s @ ?t) @ concat (take k (map live_row es))
          @ (if 50 < n + length (entry # es) then truncation_marker else []))"
        using clip_absorbs [OF over] by simp
      ultimately show ?thesis using over k by auto
    qed
  qed
qed

lemma live_body:
  obtains tr left where "live_loop es (([], False), 0) = ((journal_spec (map live_row es) [], tr), left)"
    "left \<longleftrightarrow> 50 < length es \<or> 16384 < length (concat (map live_row es))"
proof -
  obtain tr left where l: "live_loop es (([], False), 0) = ((clip 16384 (concat (take 50 (map live_row es))
         @ (if 50 < length es then truncation_marker else [])), tr), left)"
    "\<not> left \<longrightarrow> length es \<le> 50 \<and> length (concat (map live_row es)) \<le> 16384"
    "left \<longrightarrow> 50 < length es \<or> 16384 < length (concat (map live_row es))"
    using live_loop_spec [of 0 "[]" es] by (auto simp: journal.state_Nil)
  show thesis using l that by (auto simp: journal_spec_def)
qed

text \<open>The lines of a fixture, sorted out: the rows of the unit, and the lines that are no objects.\<close>

definition fixture_entry :: "json_lib \<Rightarrow> string \<Rightarrow> json option" where
  "fixture_entry jl line =
     (case json_parse jl line of Inl _ \<Rightarrow> None | Inr entry \<Rightarrow> if json_is_object entry then Some entry else None)"

definition unit_rows :: "json_lib \<Rightarrow> string \<Rightarrow> string list \<Rightarrow> string list" where
  "unit_rows jl unit ls =
     map fixture_row (filter (\<lambda>entry. json_string_value entry ''_SYSTEMD_UNIT'' = unit)
       (List.map_filter (fixture_entry jl) ls))"

definition invalid_lines :: "json_lib \<Rightarrow> string list \<Rightarrow> nat" where
  "invalid_lines jl ls = length (filter (\<lambda>line. fixture_entry jl line = None) ls)"

lemma unit_rows_simps [simp]:
  "unit_rows jl unit [] = []"
  "fixture_entry jl line = None \<Longrightarrow> unit_rows jl unit (line # ls) = unit_rows jl unit ls"
  "fixture_entry jl line = Some entry \<Longrightarrow> unit_rows jl unit (line # ls) =
     (if json_string_value entry ''_SYSTEMD_UNIT'' = unit then [fixture_row entry] else []) @ unit_rows jl unit ls"
  "invalid_lines jl [] = 0"
  "invalid_lines jl (line # ls) = (if fixture_entry jl line = None then 1 else 0) + invalid_lines jl ls"
  by (simp_all add: unit_rows_def invalid_lines_def map_filter_simps)

lemma fixture_loop_step:
  assumes "unit \<noteq> []"
  shows "fixture_loop jl unit (line # ls) ((body, truncated), n, skipped) =
     (case fixture_entry jl line of
        None \<Rightarrow> fixture_loop jl unit ls ((body, truncated), n, Suc skipped)
      | Some entry \<Rightarrow>
          if json_string_value entry ''_SYSTEMD_UNIT'' \<noteq> unit
          then fixture_loop jl unit ls ((body, truncated), n, skipped)
          else if 50 \<le> n then (append_truncation_marker body truncated, n, skipped)
          else
            let (body', truncated') = journal_append body (fixture_row entry) truncated
            in if truncated' then ((body', truncated'), n, skipped)
               else fixture_loop jl unit ls ((body', truncated'), Suc n, skipped))"
  using assms by (auto simp: fixture_entry_def split: sum.splits)

definition skipped_line :: "nat \<Rightarrow> string" where
  "skipped_line n = (if 0 < n then ''skipped_invalid_entries='' @ decimal n @ [newline] else [])"

text \<open>What is appended after the loop.\<close>

definition close_fixture :: "(string \<times> bool) \<times> nat \<times> nat \<Rightarrow> string" where
  "close_fixture res =
     (case res of ((body, truncated), _, skipped) \<Rightarrow>
        if 0 < skipped \<and> \<not> truncated then fst (journal_append body (skipped_line skipped) truncated) else body)"

lemma fixture_body_close:
  "fixture_body jl unit content = close_fixture (fixture_loop jl unit (get_lines content) (([], False), 0, 0))"
  by (auto simp: fixture_body_def close_fixture_def skipped_line_def split: prod.splits)

lemma close_fixture_truncated: "close_fixture ((body, True), n, skipped) = body"
  by (simp add: close_fixture_def)

lemma close_fixture_open:
  assumes "length s \<le> 16384"
  shows "close_fixture (journal.state s, n, skipped) = clip 16384 (s @ skipped_line skipped)"
  using assms journal.append_state [of s "skipped_line skipped"]
  by (auto simp: close_fixture_def journal.state_def skipped_line_def)

lemma fixture_loop_spec:
  assumes "unit \<noteq> []" "n \<le> 50" "length s \<le> 16384"
  shows "close_fixture (fixture_loop jl unit ls (journal.state s, n, skipped)) =
     clip 16384 (s @ concat (take (50 - n) (unit_rows jl unit ls))
       @ (if 50 < n + length (unit_rows jl unit ls) then truncation_marker
          else skipped_line (skipped + invalid_lines jl ls)))"
  using assms
proof (induction ls arbitrary: s n skipped)
  case Nil
  then show ?case by (simp add: close_fixture_open)
next
  case (Cons line ls)
  note here = fixture_loop_step [OF Cons.prems(1), of jl line ls
      "fst (journal.state s)" "snd (journal.state s)" n skipped, unfolded prod.collapse]
  show ?case
  proof (cases "fixture_entry jl line")
    case None
    then show ?thesis using Cons.IH [of n s "Suc skipped"] Cons.prems by (simp add: here)
  next
    case (Some entry)
    let ?t = "fixture_row entry" and ?unit = "json_string_value entry ''_SYSTEMD_UNIT''"
    consider (other) "?unit \<noteq> unit" | (full) "?unit = unit" "50 \<le> n"
      | (fits) "?unit = unit" "n < 50" "length (s @ ?t) \<le> 16384"
      | (over) "?unit = unit" "n < 50" "16384 < length (s @ ?t)" by linarith
    then show ?thesis
    proof cases
      case other
      then show ?thesis using Some Cons.IH [of n s skipped] Cons.prems by (simp add: here)
    next
      case full
      then have "fixture_loop jl unit (line # ls) (journal.state s, n, skipped)
          = ((clip 16384 (s @ truncation_marker), True), n, skipped)"
        using Some here append_truncation_marker_state [OF Cons.prems(3)] by simp
      with full Some Cons.prems(2) show ?thesis by (simp add: close_fixture_truncated)
    next
      case fits
      then have "fixture_loop jl unit (line # ls) (journal.state s, n, skipped)
          = fixture_loop jl unit ls (journal.state (s @ ?t), Suc n, skipped)"
        using Some here journal_append_state(2) [OF fits(3)] by (auto simp: Let_def split: prod.splits)
      moreover obtain k where "50 - n = Suc k" "50 - Suc n = k"
        using fits(2) by (metis Suc_diff_Suc)
      ultimately show ?thesis
        using Cons.IH [of "Suc n" "s @ ?t" skipped] fits Some Cons.prems(1) by simp
    next
      case over
      then have "fixture_loop jl unit (line # ls) (journal.state s, n, skipped)
          = ((clip 16384 (s @ ?t), True), n, skipped)"
        using Some here journal_append_state(1) [OF over(3)] by simp
      moreover have "clip 16384 ((s @ ?t) @ rest) = clip 16384 (s @ ?t)" for rest
        by (rule clip_absorbs [OF over(3)])
      moreover obtain k where "50 - n = Suc k" using over(2) by (metis Suc_diff_Suc)
      ultimately show ?thesis using over Some by (simp add: close_fixture_truncated)
    qed
  qed
qed

lemma fixture_body_spec:
  "unit \<noteq> [] \<Longrightarrow> fixture_body jl unit content =
     journal_spec (unit_rows jl unit (get_lines content)) (skipped_line (invalid_lines jl (get_lines content)))"
  using fixture_loop_spec [of unit 0 "[]" jl "get_lines content" 0]
  by (simp add: fixture_body_close journal_spec_def journal.state_Nil)

lemma journal_spec_bounded: "length (journal_spec rows closing) \<le> 16 * 1024"
  using journal.length_clip_cap by (simp add: journal_spec_def)

lemma not_blank_not_Nil: "\<not> is_blank s \<Longrightarrow> s \<noteq> []"
  by auto

lemma live_journal_call_body:
  "live_journal_call has_systemd m q =
     (if is_blank (unit_param q) then Inr (missing_unit_response q)
      else if \<not> has_systemd then Inr (journal_unavailable_response q)
      else if \<not> jm_opens m then Inr (error_response q ''failed to open journal'')
      else if \<not> jm_takes_match m (c_str (''_SYSTEMD_UNIT='' @ unit_param q))
      then Inr (error_response q ''failed to add journal unit match'')
      else if \<not> jm_seeks m then Inr (error_response q ''failed to seek journal'')
      else
        let (es, fails) = jm_walk m (c_str (''_SYSTEMD_UNIT='' @ unit_param q)); rows = map live_row es
        in if fails \<and> length rows \<le> 50 \<and> length (concat rows) \<le> 16384
           then Inr (error_response q ''failed to read journal'')
           else Inr (evidence_response q ''journal queried'' ''journal.query''
             (''bounded recent journal entries for '' @ unit_param q) (journal_spec rows [])
             (mc_utc (jm_machine m))))"
proof -
  obtain es fails where w: "jm_walk m (c_str (''_SYSTEMD_UNIT='' @ unit_param q)) = (es, fails)" by fastforce
  obtain tr left where "live_loop es (([], False), 0) = ((journal_spec (map live_row es) [], tr), left)"
    "left \<longleftrightarrow> 50 < length es \<or> 16384 < length (concat (map live_row es))"
    by (rule live_body)
  with w show ?thesis
    by (auto simp: live_journal_call_def required_unit_param_def Let_def dest: not_blank_not_Nil)
qed

lemma fixture_call_body:
  "fixture_call jl path m q = Inr
     (if is_blank (unit_param q) then missing_unit_response q
      else case mc_file (jm_machine m) path of
             None \<Rightarrow> error_response q (''failed to open journal fixture: '' @ path)
           | Some content \<Rightarrow>
               evidence_response q ''journal fixture queried'' ''journal.query''
                 (''bounded journal entries for '' @ unit_param q)
                 (journal_spec (unit_rows jl (unit_param q) (get_lines content))
                   (skipped_line (invalid_lines jl (get_lines content))))
                 (mc_utc (jm_machine m)))"
  by (auto simp: fixture_call_def required_unit_param_def fixture_body_spec not_blank_not_Nil
      split: option.splits)

interpretation fixture: reporting_tool "journal_fixture_tool jl path" "16 * 1024"
  using journal_spec_bounded
  by unfold_locales
    (auto simp: journal_fixture_tool_def fixture_call_body missing_unit_response_def split: option.splits)

interpretation live: reporting_tool "live_journal_tool has_systemd" "16 * 1024"
  using journal_spec_bounded
  by unfold_locales
    (auto simp: live_journal_tool_def live_journal_call_body missing_unit_response_def
      journal_unavailable_response_def Let_def split: if_splits prod.splits)

section \<open>What a query reports\<close>

text \<open>
  C38: Both journal tools report the entries of the unit they are asked for and nothing else: a blank
  unit is refused, and otherwise the body is one truncation to 16 KiB of the first 50 entries of the
  unit, with the truncation marker if there are more. In a fixture the entries of other units are left
  out and lines that are no JSON objects are counted at the end; in the journal a walk that fails
  before the limits are reached is an error, never a short report.
\<close>

theorem journal_query_reports_the_unit:
  "fixture_call jl path m q = Inr
     (if is_blank (unit_param q) then missing_unit_response q
      else case mc_file (jm_machine m) path of
             None \<Rightarrow> error_response q (''failed to open journal fixture: '' @ path)
           | Some content \<Rightarrow>
               evidence_response q ''journal fixture queried'' ''journal.query''
                 (''bounded journal entries for '' @ unit_param q)
                 (journal_spec (unit_rows jl (unit_param q) (get_lines content))
                   (skipped_line (invalid_lines jl (get_lines content))))
                 (mc_utc (jm_machine m)))
   \<and> live_journal_call True m q = Inr
     (if is_blank (unit_param q) then missing_unit_response q
      else if \<not> jm_opens m then error_response q ''failed to open journal''
      else if \<not> jm_takes_match m (c_str (''_SYSTEMD_UNIT='' @ unit_param q))
      then error_response q ''failed to add journal unit match''
      else if \<not> jm_seeks m then error_response q ''failed to seek journal''
      else
        let (es, fails) = jm_walk m (c_str (''_SYSTEMD_UNIT='' @ unit_param q)); rows = map live_row es
        in if fails \<and> length rows \<le> 50 \<and> length (concat rows) \<le> 16384
           then error_response q ''failed to read journal''
           else evidence_response q ''journal queried'' ''journal.query''
             (''bounded recent journal entries for '' @ unit_param q) (journal_spec rows [])
             (mc_utc (jm_machine m)))"
  by (simp only: fixture_call_body live_journal_call_body) (simp add: Let_def split: prod.splits)

end
