(* ===== verification/Service_Diagnose_Tool.thy ===== *)
theory Service_Diagnose_Tool
  imports Systemd_Tool Journal_Tool
begin

text \<open>
  \<open>src/tools/service_diagnose_tool.cpp\<close>: the tool that calls two other tools, the status tool and the
  journal tool, and sums up their answers in at most 12 KiB. The two tools are arguments, as they are
  references in the source; the locale \<open>diagnosis\<close> states what is relied on. The status is read
  back from the text of the status evidence, and the round trip with
  \<open>format_systemd_unit_status_body\<close> is proved.
\<close>

section \<open>The code\<close>

definition diagnose_append :: "string \<Rightarrow> string \<Rightarrow> bool \<Rightarrow> string \<times> bool" where
  "diagnose_append = append_bounded (12 * 1024)"

definition diagnose_unit_param :: "tool_request \<Rightarrow> string" where
  "diagnose_unit_param q =
     (let unit = (case smap_find (req_params q) ''unit'' of None \<Rightarrow> [] | Some unit \<Rightarrow> unit)
      in if is_blank unit then [] else unit)"

definition add_key_value :: "string \<Rightarrow> string smap \<Rightarrow> string smap" where
  "add_key_value line vals =
     (case find_char (CHR ''='') line of
        None \<Rightarrow> vals
      | Some i \<Rightarrow> if i = 0 then vals else smap_emplace (take i line) (drop (i + 1) line) vals)"

definition parse_key_value_lines :: "string \<Rightarrow> string smap" where
  "parse_key_value_lines body = fold add_key_value (get_lines body) []"

definition has_non_empty_evidence_body :: "tool_response \<Rightarrow> bool" where
  "has_non_empty_evidence_body r \<longleftrightarrow> list_ex (\<lambda>e. \<not> is_blank (ev_body e)) (resp_evidence r)"

definition contains_failure_terms :: "string \<Rightarrow> bool" where
  "contains_failure_terms text =
     (let lower = map to_lower text
      in contains_str lower ''failed'' \<or> contains_str lower ''failure'' \<or> contains_str lower ''error''
         \<or> contains_str lower ''denied'' \<or> contains_str lower ''refused''
         \<or> contains_str lower ''address already in use'')"

definition first_evidence_body :: "tool_response \<Rightarrow> string" where
  "first_evidence_body r = (case resp_evidence r of [] \<Rightarrow> [] | e # _ \<Rightarrow> ev_body e)"

definition diagnose_line :: "string \<Rightarrow> string \<Rightarrow> string" where
  "diagnose_line key v = key @ ''='' @ redact_likely_secret v @ [newline]"

definition child_request :: "tool_request \<Rightarrow> string \<Rightarrow> string \<Rightarrow> string \<Rightarrow> tool_request" where
  "child_request q suff name unit =
     \<lparr>req_id = req_id q @ '':'' @ suff, req_tool_name = name, req_risk = ReadOnly,
      req_params = [(''unit'', unit)]\<rparr>"

definition missing_diagnose_unit :: "tool_request \<Rightarrow> tool_response" where
  "missing_diagnose_unit q = error_response q ''service.diagnose requires a non-empty unit parameter''"

definition diagnosed_keys :: "string list" where
  "diagnosed_keys =
     [''load_state'', ''active_state'', ''sub_state'', ''unit_file_state'', ''fragment_path'',
      ''service_result'', ''exec_main_code'', ''exec_main_status'']"

text \<open>The lines for the status keys that are present and not empty.\<close>

definition key_lines :: "string smap \<Rightarrow> string list" where
  "key_lines vals = List.map_filter
     (\<lambda>key. case smap_find vals key of
               None \<Rightarrow> None
             | Some v \<Rightarrow> if v = [] then None else Some (diagnose_line key v)) diagnosed_keys"

definition diagnosis_text :: "string smap \<Rightarrow> bool \<Rightarrow> bool \<Rightarrow> string" where
  "diagnosis_text vals status_ok journal_ok =
     (let active_state = smap_find vals ''active_state''; service_result = smap_find vals ''service_result''
      in if active_state = Some ''failed'' then ''service is failed''
         else if service_result \<noteq> None \<and> service_result \<noteq> Some [] \<and> service_result \<noteq> Some ''success''
         then ''service reports a non-success result''
         else if active_state = Some ''active'' then ''service is active''
         else if \<not> status_ok \<and> journal_ok then ''status unavailable; journal evidence collected''
         else if status_ok \<and> \<not> journal_ok then ''status collected; journal unavailable''
         else ''partial evidence collected'')"

definition truth :: "bool \<Rightarrow> string" where
  "truth b = (if b then ''true'' else ''false'')"

definition diagnose_lines :: "string \<Rightarrow> tool_response \<Rightarrow> tool_response \<Rightarrow> string list" where
  "diagnose_lines unit status journal =
     (let vals = parse_key_value_lines (first_evidence_body status)
      in [diagnose_line ''unit'' unit,
          diagnose_line ''status_tool_status'' (status_to_string (resp_status status)),
          diagnose_line ''status_tool_message'' (resp_message status),
          diagnose_line ''journal_tool_status'' (status_to_string (resp_status journal)),
          diagnose_line ''journal_tool_message'' (resp_message journal)]
         @ key_lines vals
         @ [diagnose_line ''journal_entries_present'' (truth (has_non_empty_evidence_body journal)),
            diagnose_line ''journal_failure_terms_present''
              (truth (contains_failure_terms (first_evidence_body journal))),
            diagnose_line ''diagnosis''
              (diagnosis_text vals (resp_status status = Ok) (resp_status journal = Ok))])"

definition diagnose_body :: "string \<Rightarrow> tool_response \<Rightarrow> tool_response \<Rightarrow> string" where
  "diagnose_body unit status journal =
     fst (append_lines diagnose_append (diagnose_lines unit status journal) ([], False))"

definition diagnose_response ::
  "tool_request \<Rightarrow> string \<Rightarrow> utc_tm \<Rightarrow> tool_response \<Rightarrow> tool_response \<Rightarrow> tool_response" where
  "diagnose_response q unit t status journal =
     (let any_ok = (resp_status status = Ok \<or> resp_status journal = Ok)
      in \<lparr>resp_request_id = req_id q,
          resp_status = (if any_ok then Ok else Error),
          resp_message = (if any_ok then ''service diagnosis collected'' else ''service diagnosis failed''),
          resp_evidence =
            \<lparr>ev_id = req_id q @ '':service.diagnose'', ev_source = ''service.diagnose'',
             ev_summary = ''aggregated service diagnosis for '' @ unit,
             ev_body = diagnose_body unit status journal, ev_timestamp = utc_timestamp t\<rparr>
            # resp_evidence status @ resp_evidence journal\<rparr>)"

definition diagnose_call ::
  "'m tool \<Rightarrow> 'm tool \<Rightarrow> ('m \<Rightarrow> utc_tm) \<Rightarrow> 'm \<Rightarrow> tool_request \<Rightarrow> tool_response result" where
  "diagnose_call status_tool journal_tool clock m q =
     (let unit = diagnose_unit_param q
      in if unit = [] then Inr (missing_diagnose_unit q)
         else
           bind_result (tool_call status_tool m (child_request q ''status'' ''systemd.unit.status'' unit)) (\<lambda>status.
           bind_result (tool_call journal_tool m (child_request q ''journal'' ''journal.query'' unit)) (\<lambda>journal.
             Inr (diagnose_response q unit (clock m) status journal))))"

definition service_diagnose_tool :: "'m tool \<Rightarrow> 'm tool \<Rightarrow> ('m \<Rightarrow> utc_tm) \<Rightarrow> 'm tool" where
  "service_diagnose_tool status_tool journal_tool clock =
     \<lparr>tool_name = ''service.diagnose'', tool_risk = ReadOnly,
      tool_call = diagnose_call status_tool journal_tool clock\<rparr>"

section \<open>Contracts\<close>

interpretation diagnose: bounded_appender 12288 diagnose_append
  unfolding diagnose_append_def using append_bounded_contract [of 12288] by simp

lemma diagnose_body_clip:
  "diagnose_body unit status journal = clip 12288 (concat (diagnose_lines unit status journal))"
  unfolding diagnose_body_def diagnose.body_of_lines by simp

lemma diagnose_call_Inr:
  assumes "diagnose_call status_tool journal_tool clock m q = Inr r"
  obtains "diagnose_unit_param q = []" "r = missing_diagnose_unit q"
  | status journal where "diagnose_unit_param q \<noteq> []"
      "tool_call status_tool m (child_request q ''status'' ''systemd.unit.status'' (diagnose_unit_param q)) = Inr status"
      "tool_call journal_tool m (child_request q ''journal'' ''journal.query'' (diagnose_unit_param q)) = Inr journal"
      "r = diagnose_response q (diagnose_unit_param q) (clock m) status journal"
  using assms by (auto simp: diagnose_call_def Let_def bind_result_eq_Inr split: if_splits)

text \<open>Two bounded tools make a bounded diagnosis, whatever the tools are.\<close>

locale diagnosis = status: bounded_tool status_tool cap + journal: bounded_tool journal_tool cap
  for status_tool journal_tool :: "'m tool" and cap :: nat +
  fixes clock :: "'m \<Rightarrow> utc_tm"
  assumes room: "12288 \<le> cap"
begin

lemma diagnose_contract:
  assumes "diagnose_call status_tool journal_tool clock m q = Inr r"
  shows "resp_request_id r = req_id q \<and> resp_status r \<noteq> Denied
     \<and> (resp_status r = Ok \<longrightarrow> resp_evidence r \<noteq> [])
     \<and> (\<forall>e \<in> set (resp_evidence r). length (ev_body e) \<le> cap)"
  using assms
proof (cases rule: diagnose_call_Inr)
  case 1
  then show ?thesis by (simp add: missing_diagnose_unit_def)
next
  case (2 status journal)
  have "length (diagnose_body (diagnose_unit_param q) status journal) \<le> cap"
    using room diagnose.length_clip_cap unfolding diagnose_body_clip by (rule order.trans [rotated])
  with 2(4) show ?thesis
    using status.bodies_bounded [OF 2(2)] journal.bodies_bounded [OF 2(3)]
    by (auto simp: diagnose_response_def Let_def)
qed

end

sublocale diagnosis \<subseteq> bounded_tool "service_diagnose_tool status_tool journal_tool clock" cap
  by unfold_locales (auto simp: service_diagnose_tool_def dest: diagnose_contract)

section \<open>The status is read back\<close>

lemma add_key_value_line:
  assumes "CHR ''='' \<notin> set key" "key \<noteq> []"
  shows "add_key_value (key @ CHR ''='' # v) vals = smap_emplace key v vals"
  using assms by (simp add: add_key_value_def)

lemma parse_lines_fields:
  assumes "\<forall>(key, v) \<in> set kvs. CHR ''='' \<notin> set key \<and> key \<noteq> [] \<and> newline \<notin> set key \<and> newline \<notin> set v"
  shows "parse_key_value_lines (concat (map (\<lambda>(key, v). key @ ''='' @ v @ [newline]) kvs)) = smap_of kvs"
proof -
  let ?line = "\<lambda>(key, v). key @ CHR ''='' # v"
  have "concat (map (\<lambda>(key, v). key @ ''='' @ v @ [newline]) kvs)
      = concat (map (\<lambda>l. l @ [newline]) (map ?line kvs))"
    by (rule arg_cong [of _ _ concat]) (simp add: case_prod_unfold comp_def)
  moreover have "\<forall>l \<in> set (map ?line kvs). newline \<notin> set l"
    using assms by fastforce
  ultimately have "get_lines (concat (map (\<lambda>(key, v). key @ ''='' @ v @ [newline]) kvs)) = map ?line kvs"
    by (simp only: get_lines_concat)
  moreover have "fold add_key_value (map ?line kvs) m = fold (\<lambda>(k, v) m. smap_emplace k v m) kvs m" for m
    using assms
  proof (induction kvs arbitrary: m)
    case (Cons kv kvs)
    obtain k v where kv: "kv = (k, v)" by force
    with Cons.prems have "add_key_value (k @ CHR ''='' # v) m = smap_emplace k v m"
      by (intro add_key_value_line) auto
    with Cons kv show ?case by simp
  qed simp
  ultimately show ?thesis by (simp add: parse_key_value_lines_def smap_of_def)
qed

definition plain_status :: "systemd_unit_status_evidence \<Rightarrow> bool" where
  "plain_status ev \<longleftrightarrow>
     (\<forall>(key, v) \<in> set (status_fields ev). redact_likely_secret v = v \<and> newline \<notin> set v)
     \<and> length (concat (map (\<lambda>(key, v). key @ ''='' @ v @ [newline]) (status_fields ev))) \<le> 65536"

lemma status_keys:
  "(key, v) \<in> set (status_fields ev) \<Longrightarrow> CHR ''='' \<notin> set key \<and> key \<noteq> [] \<and> newline \<notin> set key"
  by (auto simp: status_fields_def split: if_splits)

lemma status_body_read_back:
  assumes "plain_status ev"
  shows "parse_key_value_lines (format_systemd_unit_status_body ev) = smap_of (status_fields ev)"
proof -
  have ls: "map (\<lambda>(key, v). status_line key v) (status_fields ev)
      = map (\<lambda>(key, v). key @ ''='' @ v @ [newline]) (status_fields ev)"
    using assms by (intro map_cong) (auto simp: plain_status_def status_line_def)
  then have "format_systemd_unit_status_body ev
      = concat (map (\<lambda>(key, v). key @ ''='' @ v @ [newline]) (status_fields ev))"
    unfolding status_body_clip ls using assms unfolding plain_status_def by (intro clip_fits) blast
  moreover have "\<forall>(key, v) \<in> set (status_fields ev).
      CHR ''='' \<notin> set key \<and> key \<noteq> [] \<and> newline \<notin> set key \<and> newline \<notin> set v"
    using assms status_keys unfolding plain_status_def by fastforce
  ultimately show ?thesis by (simp only: parse_lines_fields)
qed

text \<open>The line of one key, and the lines of keys whose values are known.\<close>

definition key_line :: "string smap \<Rightarrow> string \<Rightarrow> string option" where
  "key_line vals key =
     (case smap_find vals key of
        None \<Rightarrow> None
      | Some v \<Rightarrow> if v = [] then None else Some (diagnose_line key v))"

lemma key_lines_eq: "key_lines vals = List.map_filter (key_line vals) diagnosed_keys"
  by (simp add: key_lines_def key_line_def [abs_def])

lemma key_lines_known:
  "(\<And>k v. (k, v) \<in> set kvs \<Longrightarrow> smap_find vals k = Some v) \<Longrightarrow>
     List.map_filter (key_line vals) (map fst kvs) =
       map (\<lambda>(key, v). diagnose_line key v) (filter (\<lambda>(key, v). v \<noteq> []) kvs)"
proof (induction kvs)
  case (Cons kv kvs)
  obtain k v where kv: "kv = (k, v)" by force
  have "smap_find vals k = Some v" using Cons.prems [of k v] kv by simp
  then have "key_line vals k = (if v = [] then None else Some (diagnose_line k v))"
    by (simp add: key_line_def)
  moreover have "List.map_filter (key_line vals) (map fst kvs) =
      map (\<lambda>(key, v). diagnose_line key v) (filter (\<lambda>(key, v). v \<noteq> []) kvs)"
    using Cons.prems by (intro Cons.IH) simp
  ultimately show ?case using kv by (simp add: map_filter_simps)
qed (simp add: map_filter_simps)

lemma status_find: "smap_find (smap_of (status_fields ev)) key = map_of (status_fields ev) key"
  by (rule smap_find_of)

lemma status_fields_distinct: "distinct (map fst (status_fields ev))"
  by (cases "su_is_service ev") (simp_all add: status_fields_def)

lemma map_filter_append: "List.map_filter f (xs @ ys) = List.map_filter f xs @ List.map_filter f ys"
  by (simp add: List.map_filter_def)

lemma key_lines_status:
  "key_lines (smap_of (status_fields ev)) =
     map (\<lambda>(key, v). diagnose_line key v) (filter (\<lambda>(key, v). v \<noteq> []) (drop 3 (status_fields ev)))"
proof -
  let ?vals = "smap_of (status_fields ev)" and ?known = "drop 3 (status_fields ev)"
  have known: "smap_find ?vals k = Some v" if "(k, v) \<in> set ?known" for k v
    using that status_fields_distinct [of ev] in_set_dropD [of "(k, v)" 3 "status_fields ev"]
    unfolding status_find by (simp add: map_of_is_SomeI)
  define absent where
    "absent = (if su_is_service ev then [] else [''service_result'', ''exec_main_code'', ''exec_main_status''])"
  have keys: "diagnosed_keys = map fst ?known @ absent"
    by (simp add: diagnosed_keys_def absent_def status_fields_def)
  have none: "List.map_filter (key_line ?vals) absent = []"
    unfolding key_line_def [abs_def] status_find
    by (simp add: absent_def status_fields_def map_filter_simps)
  have "List.map_filter (key_line ?vals) (map fst ?known) =
      map (\<lambda>(key, v). diagnose_line key v) (filter (\<lambda>(key, v). v \<noteq> []) ?known)"
    using known by (rule key_lines_known)
  then show ?thesis
    unfolding key_lines_eq keys map_filter_append none by simp
qed

text \<open>
  An answer of the status tool: the text of a status it could read, or an error. What the diagnosis says of
  it is the verdict and the lines of its properties.
\<close>

datatype status_answer =
    StatusRead tool_request string string string utc_tm systemd_unit_status_evidence
  | StatusFailed tool_request string

fun status_response :: "status_answer \<Rightarrow> tool_response" where
  "status_response (StatusRead q msg src summ t ev) =
     evidence_response q msg src summ (format_systemd_unit_status_body ev) t"
| "status_response (StatusFailed q msg) = error_response q msg"

fun plain_answer :: "status_answer \<Rightarrow> bool" where
  "plain_answer (StatusRead _ _ _ _ _ ev) = plain_status ev"
| "plain_answer (StatusFailed _ _) = True"

fun known_properties :: "status_answer \<Rightarrow> (string \<times> string) list" where
  "known_properties (StatusRead _ _ _ _ _ ev) = filter (\<lambda>(key, v). v \<noteq> []) (drop 3 (status_fields ev))"
| "known_properties (StatusFailed _ _) = []"

fun verdict :: "status_answer \<Rightarrow> bool \<Rightarrow> string" where
  "verdict (StatusRead _ _ _ _ _ ev) journal_ok =
     (if su_active_state ev = ''failed'' then ''service is failed''
      else if su_is_service ev \<and> su_service_result ev \<noteq> [] \<and> su_service_result ev \<noteq> ''success''
      then ''service reports a non-success result''
      else if su_active_state ev = ''active'' then ''service is active''
      else if \<not> journal_ok then ''status collected; journal unavailable''
      else ''partial evidence collected'')"
| "verdict (StatusFailed _ _) journal_ok =
     (if journal_ok then ''status unavailable; journal evidence collected''
      else ''partial evidence collected'')"

lemma answer_read_back:
  assumes "plain_answer answer"
  shows "key_lines (parse_key_value_lines (first_evidence_body (status_response answer))) =
      map (\<lambda>(key, v). diagnose_line key v) (known_properties answer)"
    and "diagnosis_text (parse_key_value_lines (first_evidence_body (status_response answer)))
        (resp_status (status_response answer) = Ok) journal_ok = verdict answer journal_ok"
proof (atomize (full), cases answer)
  case (StatusRead q msg src summ t ev)
  then have "parse_key_value_lines (first_evidence_body (status_response answer)) = smap_of (status_fields ev)"
    using assms status_body_read_back [of ev] by (simp add: first_evidence_body_def evidence_response_def)
  moreover have "smap_find (smap_of (status_fields ev)) ''active_state'' = Some (su_active_state ev)"
    "smap_find (smap_of (status_fields ev)) ''service_result'' =
       (if su_is_service ev then Some (su_service_result ev) else None)"
    unfolding status_find by (simp_all add: status_fields_def)
  ultimately show "key_lines (parse_key_value_lines (first_evidence_body (status_response answer))) =
      map (\<lambda>(key, v). diagnose_line key v) (known_properties answer) \<and>
    diagnosis_text (parse_key_value_lines (first_evidence_body (status_response answer)))
        (resp_status (status_response answer) = Ok) journal_ok = verdict answer journal_ok"
    using StatusRead by (simp add: key_lines_status diagnosis_text_def)
next
  case (StatusFailed q msg)
  then show "key_lines (parse_key_value_lines (first_evidence_body (status_response answer))) =
      map (\<lambda>(key, v). diagnose_line key v) (known_properties answer) \<and>
    diagnosis_text (parse_key_value_lines (first_evidence_body (status_response answer)))
        (resp_status (status_response answer) = Ok) journal_ok = verdict answer journal_ok"
    by (simp add: first_evidence_body_def error_response_def parse_key_value_lines_def key_lines_eq
        key_line_def [abs_def] smap_find_def diagnosis_text_def diagnosed_keys_def map_filter_simps)
qed


section \<open>Instances\<close>

definition sample_status :: systemd_unit_status_evidence where
  "sample_status = \<lparr>su_unit = ''a.service'', su_id = [], su_description = [], su_load_state = [],
     su_active_state = ''failed'', su_sub_state = [], su_unit_file_state = [], su_fragment_path = [],
     su_is_service = True, su_service_result = [], su_exec_main_code = [], su_exec_main_status = []\<rparr>"

definition sample_time :: utc_tm where
  "sample_time = \<lparr>tm_year = 124, tm_mon = 0, tm_mday = 1, tm_hour = 0, tm_min = 0, tm_sec = 0\<rparr>"

definition sample_status_tool :: "unit tool" where
  "sample_status_tool = \<lparr>tool_name = ''systemd.unit.status'', tool_risk = ReadOnly,
     tool_call = (\<lambda>_ q. Inr (evidence_response q ''read'' ''systemd.unit.status'' ''status''
       (format_systemd_unit_status_body sample_status) sample_time))\<rparr>"

definition sample_journal_tool :: "unit tool" where
  "sample_journal_tool = \<lparr>tool_name = ''journal.query'', tool_risk = ReadOnly,
     tool_call = (\<lambda>_ q. Inr (error_response q ''no journal''))\<rparr>"

definition sample_diagnose_request :: tool_request where
  "sample_diagnose_request = \<lparr>req_id = ''r1'', req_tool_name = ''service.diagnose'', req_risk = ReadOnly,
     req_params = [(''unit'', ''a.service'')]\<rparr>"

lemma sample_status_plain: "plain_status sample_status"
proof -
  have "redact_likely_secret [] = []" "redact_likely_secret ''failed'' = ''failed''"
    "redact_likely_secret ''a.service'' = ''a.service''"
    by code_simp+
  then show ?thesis by (simp add: plain_status_def sample_status_def status_fields_def)
qed


end
