(* ===== verification/Kaslid.thy ===== *)
theory Kaslid
  imports Audit_Trail Kasli_Cli Model_Provider Default_Paths Daemon_Autostart
    Disk_Tool Power_Tool Network_Tool Hardware_Tool Package_Tool Service_Diagnose_Tool
begin

text \<open>
  \<open>src/kaslid/main.cpp\<close> but for the request handler, which is \<open>Request_Handler\<close>: the options, the
  set-up of the registry with its thirteen tools, the policy made from it, the audit log, the model
  and the server, and the loop that serves one connection after the other. A \<open>host\<close> is what the tools
  observe of the system during one connection; each tool reads its part of it.
\<close>

section \<open>Options\<close>

record daemon_options =
  do_socket_path :: string
  do_audit_path :: string
  do_once :: bool

text \<open>The loop over the arguments, with the flags \<open>socket_seen\<close> and \<open>audit_seen\<close>.\<close>

fun parse_arguments :: "string list \<Rightarrow> bool \<Rightarrow> bool \<Rightarrow> daemon_options \<Rightarrow> string + daemon_options" where
  "parse_arguments [] socket_seen audit_seen opts = Inr opts"
| "parse_arguments (arg # args) socket_seen audit_seen opts =
     (if arg = ''--once''
      then if do_once opts then Inl (''--once may only be provided once'' @ [newline])
           else parse_arguments args socket_seen audit_seen (opts\<lparr>do_once := True\<rparr>)
      else if arg = ''--socket'' \<or> arg = ''--audit-log''
      then if (if arg = ''--socket'' then socket_seen else audit_seen)
           then Inl (arg @ '' may only be provided once'' @ [newline])
           else case args of
                  [] \<Rightarrow> Inl (arg @ '' requires a path'' @ [newline])
                | v # rest \<Rightarrow>
                    if prefix ''--'' v then Inl (arg @ '' requires a path'' @ [newline])
                    else if arg = ''--socket''
                    then parse_arguments rest True audit_seen (opts\<lparr>do_socket_path := v\<rparr>)
                    else parse_arguments rest socket_seen True (opts\<lparr>do_audit_path := v\<rparr>)
      else Inl (''unknown argument: '' @ arg @ [newline]))"

record daemon_env =
  de_systemd :: bool
  de_fixture :: string
  de_getenv :: "string \<Rightarrow> string option"
  de_is_directory :: "string \<Rightarrow> bool"
  de_euid :: nat
  de_curl :: curl_lib
  de_session :: session_env
  de_mkdir :: "exn option"
  de_server :: server_os
  de_strerror :: "errno \<Rightarrow> string"

definition parse_options :: "daemon_env \<Rightarrow> string list \<Rightarrow> string + daemon_options" where
  "parse_options env args =
     parse_arguments args False False
       \<lparr>do_socket_path = default_socket_path (de_getenv env) (de_is_directory env) (de_euid env),
        do_audit_path = default_audit_log_path (de_getenv env), do_once = False\<rparr>"

section \<open>Set-up\<close>

record host =
  ho_machine :: machine
  ho_package :: package_machine
  ho_bus :: bus_machine
  ho_journal :: journal_machine

definition journal_fixture_path :: "daemon_env \<Rightarrow> string" where
  "journal_fixture_path env =
     (case de_getenv env ''KASLI_JOURNAL_FIXTURE'' of Some fixture \<Rightarrow> fixture | None \<Rightarrow> de_fixture env)"

definition journal_tool :: "daemon_env \<Rightarrow> host tool" where
  "journal_tool env =
     (if de_systemd env then lift_tool ho_journal (live_journal_tool True)
      else lift_tool ho_journal (journal_fixture_tool (env_json (de_session env)) (journal_fixture_path env)))"

definition status_tool :: "daemon_env \<Rightarrow> host tool" where
  "status_tool env = lift_tool ho_bus (systemd_unit_status_tool (de_systemd env))"

text \<open>The tools in the order they are added.\<close>

definition basic_tools :: "daemon_env \<Rightarrow> host tool list" where
  "basic_tools env =
     [lift_tool ho_machine (system_info_tool ''/etc/os-release''),
      lift_tool ho_machine disk_usage_tool,
      lift_tool ho_machine hardware_summary_tool,
      lift_tool ho_machine network_summary_tool,
      lift_tool ho_machine power_status_tool,
      lift_tool ho_package (package_recent_changes_tool default_package_recent_change_log_paths),
      lift_tool ho_package package_list_tool,
      lift_tool ho_bus (systemd_units_tool (de_systemd env)),
      status_tool env,
      lift_tool ho_bus (failed_services_tool (de_systemd env)),
      lift_tool ho_bus (enabled_services_tool (de_systemd env)),
      journal_tool env]"

definition host_clock :: "host \<Rightarrow> utc_tm" where
  "host_clock h = mc_utc (ho_machine h)"

definition make_registry :: "daemon_env \<Rightarrow> host registry result" where
  "make_registry env =
     bind_result (registry_add_all (map Some (basic_tools env)) []) (\<lambda>reg.
       case (registry_find reg ''systemd.unit.status'', registry_find reg ''journal.query'') of
         (Some status, Some journal) \<Rightarrow>
           registry_add (Some (service_diagnose_tool status journal host_clock)) reg
       | _ \<Rightarrow> Inl (RuntimeError ''service diagnosis dependencies are not registered''))"

definition audit_log_new :: "exn option \<Rightarrow> string \<Rightarrow> unit result" where
  "audit_log_new mkdir path = (if CHR ''/'' \<in> set path then throw_if mkdir else Inr ())"

definition daemon_setup :: "daemon_env \<Rightarrow> daemon_options \<Rightarrow> (host session_service \<times> model) result" where
  "daemon_setup env opts =
     bind_result (make_registry env) (\<lambda>reg.
     bind_result (audit_log_new (de_mkdir env) (do_audit_path opts)) (\<lambda>_.
     bind_result (model_config_from_env (de_getenv env)) (\<lambda>config.
       Inr (\<lparr>svc_registry = reg, svc_policy = policy_broker (registry_policies reg),
             svc_audit_path = do_audit_path opts\<rparr>,
            make_model_provider (env_json (de_session env)) (de_curl env) config))))"

section \<open>The serving loop\<close>

text \<open>
  Each round is one \<open>accept_one\<close>, with the connection it meets and what is observed during it. The
  result: whether the loop goes on or how it ended, what was sent in each round, the errors printed,
  and the state.
\<close>

datatype daemon_exit = Serving | Exited_with int | Crashed exn

fun serve ::
  "(exn \<Rightarrow> string) \<Rightarrow> (errno \<Rightarrow> string) \<Rightarrow> nat \<Rightarrow> ('h \<Rightarrow> string \<Rightarrow> 's \<Rightarrow> string result \<times> 's) \<Rightarrow> bool
   \<Rightarrow> (connection \<times> 'h) list \<Rightarrow> 's \<Rightarrow> daemon_exit \<times> string list \<times> string list \<times> 's" where
  "serve wh se euid handler once [] s = (Serving, [], [], s)"
| "serve wh se euid handler once ((cn, h) # rounds) s =
     (case accept_one se euid cn (handler h) s of
        (None, sent, s') \<Rightarrow> (Serving, [sent], [], s')
      | (Some (Inr _), sent, s') \<Rightarrow>
          if once then (Exited_with 0, [sent], [], s')
          else (case serve wh se euid handler once rounds s' of
                  (fate, sents, errs, s'') \<Rightarrow> (fate, sent # sents, errs, s''))
      | (Some (Inl e), sent, s') \<Rightarrow>
          if \<not> is_std_exception e then (Crashed e, [sent], [], s')
          else if once then (Exited_with 1, [sent], [wh e @ [newline]], s')
          else (case serve wh se euid handler once rounds s' of
                  (fate, sents, errs, s'') \<Rightarrow> (fate, sent # sents, (wh e @ [newline]) # errs, s'')))"

definition daemon_handler ::
  "daemon_env \<Rightarrow> host session_service \<Rightarrow> model \<Rightarrow> host \<Rightarrow> string \<Rightarrow> session_state
   \<Rightarrow> string result \<times> session_state" where
  "daemon_handler env svc complete h request st =
     handle_request (de_session env) svc h complete request st"

definition daemon_main ::
  "daemon_env \<Rightarrow> string list \<Rightarrow> (connection \<times> host) list \<Rightarrow> sock_world \<Rightarrow> session_state
   \<Rightarrow> (daemon_exit \<times> string list \<times> string list \<times> session_state) \<times> sock_world" where
  "daemon_main env args rounds w st =
     (let wh = what (json_what (env_json (de_session env)));
          gave_up = (\<lambda>e. if is_std_exception e then (Exited_with 1, [], [wh e @ [newline]], st)
                          else (Crashed e, [], [], st))
      in case parse_options env args of
           Inl err \<Rightarrow> ((Exited_with 2, [], [err], st), w)
         | Inr opts \<Rightarrow>
             (case daemon_setup env opts of
                Inl e \<Rightarrow> (gave_up e, w)
              | Inr (svc, complete) \<Rightarrow>
                  (case server_new (de_strerror env) (de_server env) (do_socket_path opts) w of
                     (Inl e, w') \<Rightarrow> (gave_up e, w')
                   | (Inr _, w') \<Rightarrow>
                       let res = serve wh (de_strerror env) (de_euid env) (daemon_handler env svc complete)
                             (do_once opts) rounds st
                       in (res, case fst res of Exited_with _ \<Rightarrow> server_delete (de_server env) w' | _ \<Rightarrow> w'))))"

section \<open>The registry\<close>

lemma basic_tool_names:
  "registry_names (basic_tools env) =
     [''system.info'', ''disk.usage'', ''hardware.summary'', ''network.summary'', ''power.status'',
      ''packages.recent_changes'', ''packages.list'', ''systemd.units.list'', ''systemd.unit.status'',
      ''services.failed'', ''services.enabled'', ''journal.query'']"
  by (simp add: registry_names_def basic_tools_def status_tool_def journal_tool_def system_info_tool_def
      disk_usage_tool_def hardware_summary_tool_def network_summary_tool_def power_status_tool_def
      package_recent_changes_tool_def package_list_tool_def systemd_units_tool_def
      systemd_unit_status_tool_def failed_services_tool_def enabled_services_tool_def
      live_journal_tool_def journal_fixture_tool_def)

text \<open>The tools whose bodies are bounded, and the one tool that is not.\<close>

lemma status_tool_bounded: "bounded_tool (status_tool env) 65536"
  unfolding status_tool_def using lift_bounded_tool [OF unit_status.bounded_tool_axioms] by simp

lemma journal_tool_bounded: "bounded_tool (journal_tool env) 65536"
proof -
  have "bounded_tool (live_journal_tool True) 65536"
    using live.weaken_cap [of 65536 True] by simp
  moreover have "bounded_tool (journal_fixture_tool jl path) 65536" for jl path
    using fixture.weaken_cap [of 65536 jl path] by simp
  ultimately show ?thesis by (simp add: journal_tool_def lift_bounded_tool)
qed

lemma bounded_basic_tools: "t \<in> set (tl (basic_tools env)) \<Longrightarrow> bounded_tool t 65536"
  using lift_bounded_tool [OF disk_usage.bounded_tool_axioms] lift_bounded_tool [OF hardware_summary.bounded_tool_axioms]
    lift_bounded_tool [OF network_summary.bounded_tool_axioms] lift_bounded_tool [OF power_status.bounded_tool_axioms]
    lift_bounded_tool [OF recent_changes.bounded_tool_axioms] lift_bounded_tool [OF package_list.bounded_tool_axioms]
    lift_bounded_tool [OF systemd_units.bounded_tool_axioms] lift_bounded_tool [OF failed_services.bounded_tool_axioms]
    lift_bounded_tool [OF enabled_services.bounded_tool_axioms] status_tool_bounded [of env] journal_tool_bounded [of env]
  by (auto simp: basic_tools_def)

lemma system_info_contract: "tool_contract (lift_tool ho_machine (system_info_tool path))"
  by (rule lift_tool_contract) (rule system_info.tool_contract_axioms)

lemma find_basic_tools:
  "registry_find (basic_tools env) ''systemd.unit.status'' = Some (status_tool env)"
  "registry_find (basic_tools env) ''journal.query'' = Some (journal_tool env)"
  by (simp_all add: registry_find_def basic_tools_def status_tool_def journal_tool_def system_info_tool_def
      disk_usage_tool_def hardware_summary_tool_def network_summary_tool_def power_status_tool_def
      package_recent_changes_tool_def package_list_tool_def systemd_units_tool_def
      systemd_unit_status_tool_def failed_services_tool_def enabled_services_tool_def
      live_journal_tool_def journal_fixture_tool_def)

interpretation daemon_diagnosis: diagnosis "status_tool env" "journal_tool env" 65536 host_clock
  using status_tool_bounded journal_tool_bounded
  by (intro diagnosis.intro diagnosis_axioms.intro) simp_all

definition daemon_registry :: "daemon_env \<Rightarrow> host registry" where
  "daemon_registry env =
     basic_tools env @ [service_diagnose_tool (status_tool env) (journal_tool env) host_clock]"

lemma make_registry_ok: "make_registry env = Inr (daemon_registry env)"
proof -
  have "registry_add_all (map Some (basic_tools env)) [] = Inr (basic_tools env)"
    using registry_add_all_fresh [of "[]" "basic_tools env"] by (simp add: basic_tool_names)
  moreover have "registry_find (basic_tools env) ''service.diagnose'' = None"
    by (simp add: registry_find_None basic_tool_names)
  ultimately show ?thesis
    by (simp add: make_registry_def find_basic_tools registry_add_def service_diagnose_tool_def
        daemon_registry_def)
qed

lemma daemon_registry_bounded:
  "list_all (\<lambda>t. bounded_tool t 65536) (tl (daemon_registry env))"
proof -
  let ?d = "service_diagnose_tool (status_tool env) (journal_tool env) host_clock"
  have "bounded_tool ?d 65536" by (rule daemon_diagnosis.bounded_tool_axioms)
  moreover have "tl (daemon_registry env) = tl (basic_tools env) @ [?d]"
    by (simp add: daemon_registry_def basic_tools_def)
  ultimately show ?thesis using bounded_basic_tools by (auto simp: list_all_iff)
qed

lemma daemon_registry_contract: "tools_keep_contract (daemon_registry env)"
proof -
  have "daemon_registry env =
      lift_tool ho_machine (system_info_tool ''/etc/os-release'') # tl (daemon_registry env)"
    by (simp add: daemon_registry_def basic_tools_def)
  moreover have "tool_contract t" if "bounded_tool t 65536" for t :: "host tool"
    using that by (simp add: bounded_tool_def)
  ultimately show ?thesis
    using daemon_registry_bounded [of env] system_info_contract unfolding tools_keep_contract_def list_all_iff
    by (metis set_ConsD)
qed

lemma daemon_registry_names:
  "registry_names (daemon_registry env) =
     [''system.info'', ''disk.usage'', ''hardware.summary'', ''network.summary'', ''power.status'',
      ''packages.recent_changes'', ''packages.list'', ''systemd.units.list'', ''systemd.unit.status'',
      ''services.failed'', ''services.enabled'', ''journal.query'', ''service.diagnose'']"
proof -
  have "registry_names (daemon_registry env) = registry_names (basic_tools env) @ [''service.diagnose'']"
    by (simp add: daemon_registry_def registry_names_def service_diagnose_tool_def)
  then show ?thesis by (simp add: basic_tool_names)
qed

lemma daemon_setup_service:
  assumes "daemon_setup env opts = Inr (svc, complete)"
  shows "svc_registry svc = daemon_registry env"
    "svc_policy svc = policy_broker (registry_policies (svc_registry svc))"
  using assms by (auto simp: daemon_setup_def make_registry_ok bind_result_eq_Inr)

text \<open>
  C4: The daemon's registry is well-formed on every host, with and without systemd: the set-up adds all
  thirteen tools, under different names, and never fails; every tool is read-only, answers under the
  request's id, never claims a denial and has evidence when it succeeds; and every tool but the system
  information bounds each evidence body to 64 KiB.
\<close>

theorem registry_is_well_formed:
  "\<exists>reg. make_registry env = Inr reg
     \<and> registry_names reg =
         [''system.info'', ''disk.usage'', ''hardware.summary'', ''network.summary'', ''power.status'',
          ''packages.recent_changes'', ''packages.list'', ''systemd.units.list'', ''systemd.unit.status'',
          ''services.failed'', ''services.enabled'', ''journal.query'', ''service.diagnose'']
     \<and> distinct (registry_names reg)
     \<and> tools_keep_contract reg
     \<and> list_all (\<lambda>t. bounded_tool t (64 * 1024)) (tl reg)"
  using make_registry_ok [of env] daemon_registry_bounded [of env] daemon_registry_contract [of env]
  by (simp add: daemon_registry_names)

text \<open>In the daemon only an unknown tool is denied.\<close>

lemma daemon_denies_unregistered:
  assumes "daemon_setup env opts = Inr (svc, complete)"
    and "call_tool senv svc h q actor st = (Inr r, st')"
  shows "resp_status r = Denied \<longleftrightarrow> req_tool_name q \<notin> set (registry_names (daemon_registry env))"
proof (cases "registry_find (svc_registry svc) (req_tool_name q)")
  case None
  with outcome_of_unregistered(2) [OF daemon_setup_service(2) [OF assms(1)] None call_tool_response [OF assms(2)]]
  show ?thesis using daemon_setup_service(1) [OF assms(1)] by (simp add: registry_find_None)
next
  case (Some t)
  then have "tool_contract t"
    using daemon_registry_contract [of env] daemon_setup_service(1) [OF assms(1)]
    by (auto simp: tools_keep_contract_def dest: registry_find_Some)
  from outcome_of_contract(2) [OF daemon_setup_service(2) [OF assms(1)] Some this call_tool_response [OF assms(2)]]
  show ?thesis using Some daemon_setup_service(1) [OF assms(1)] registry_find_None
    by (metis option.distinct(1))
qed

section \<open>Serving leads to reachable states only\<close>

lemma accept_one_state:
  "accept_one se euid cn handler s = (res, sent, s') \<Longrightarrow> s' = s \<or> (\<exists>request reply. handler request s = (reply, s'))"
  by (auto simp: accept_one_def split: option.splits sum.splits prod.splits)

lemma accept_one_reaches:
  "accept_one se euid cn (daemon_handler env svc complete h) st = (res, sent, st') \<Longrightarrow>
     reachable_session (de_session env) svc st st' \<and> ss_made st' \<le> ss_made st + 5"
  by (auto simp: daemon_handler_def dest!: accept_one_state dest: handle_request_made
      intro: reachable_session.handled)

lemma serve_reaches:
  "serve wh se euid (daemon_handler env svc complete) once rounds st = (fate, sents, errs, st') \<Longrightarrow>
     reachable_session (de_session env) svc st st' \<and> ss_made st' \<le> ss_made st + 5 * length rounds"
proof (induction rounds arbitrary: st sents errs fate st')
  case (Cons round rounds)
  obtain cn h where round: "round = (cn, h)" by force
  obtain res sent st1 where a: "accept_one se euid cn (daemon_handler env svc complete h) st = (res, sent, st1)"
    by (metis prod_cases3)
  note one = accept_one_reaches [OF a]
  obtain fate2 sents2 errs2 st2 where rest:
    "serve wh se euid (daemon_handler env svc complete) once rounds st1 = (fate2, sents2, errs2, st2)"
    by (metis prod_cases4)
  from Cons.prems a round rest have "st' = st1 \<or> fate = fate2 \<and> st' = st2"
    by (auto split: option.splits sum.splits if_splits)
  then show ?case
    using one Cons.IH [OF rest] by (auto intro: reachable_session_trans)
qed auto

text \<open>The loop of the program serves one set-up, if it is entered at all.\<close>

lemma daemon_main_cases:
  assumes "daemon_main env args rounds w st = ((fate, sents, errs, st'), w')"
  obtains "st' = st"
  | opts svc complete where "daemon_setup env opts = Inr (svc, complete)"
      "serve (what (json_what (env_json (de_session env)))) (de_strerror env) (de_euid env)
        (daemon_handler env svc complete) (do_once opts) rounds st = (fate, sents, errs, st')"
  using assms by (auto simp: daemon_main_def Let_def split: sum.splits prod.splits if_splits)

lemma daemon_main_reaches:
  assumes "daemon_main env args rounds w st = ((fate, sents, errs, st'), w')"
  shows "\<exists>svc :: host session_service. reachable_session (de_session env) svc st st' \<and> ss_made st' \<le> ss_made st + 5 * length rounds"
  using assms
proof (cases rule: daemon_main_cases)
  case (2 opts svc complete)
  from serve_reaches [OF 2(2)] show ?thesis by blast
qed auto

section \<open>Serving refines handling requests in order\<close>

text \<open>
  The abstract server: a list of request lines, each with what is observed while it is handled, is
  handled in order on the state; a failed request leaves the exception in place of its reply.
\<close>

fun handle_all :: "('h \<Rightarrow> string \<Rightarrow> 's \<Rightarrow> string result \<times> 's) \<Rightarrow> ('h \<times> string) list \<Rightarrow> 's \<Rightarrow> string result list \<times> 's" where
  "handle_all handler [] s = ([], s)"
| "handle_all handler ((h, request) # rs) s =
     (let (reply, s') = handler h request s; (replies, s'') = handle_all handler rs s'
      in (reply # replies, s''))"

text \<open>
  A connection that carries a request: a peer of the same user delivers the line, in whatever chunks,
  and every send ends, in success or in error.
\<close>

definition carries :: "(errno \<Rightarrow> string) \<Rightarrow> nat \<Rightarrow> connection \<Rightarrow> string \<Rightarrow> bool" where
  "carries se euid cn request \<longleftrightarrow>
     accept_loop se (cn_accept cn) = Some (Inr ())
     \<and> bind_result (prepare_connected_socket se cn) (\<lambda>_. validate_same_uid_peer se euid cn) = Inr ()
     \<and> delivers (cn_reads cn) (request @ [newline]) \<and> line_payload request
     \<and> (\<forall>x. fst (write_line se (cn_sends cn) x) \<noteq> None)"

text \<open>What may reach the peer of a reply: a prefix of its line, and all of it if sending succeeds.\<close>

definition reply_sent :: "string \<Rightarrow> string result \<Rightarrow> bool" where
  "reply_sent sent reply = (case reply of Inl _ \<Rightarrow> sent = [] | Inr r \<Rightarrow> prefix sent (r @ [newline]))"

lemma write_all_std: "write_all se outs d = (Some (Inl e), b) \<Longrightarrow> is_std_exception e"
  by (induction se outs d arbitrary: b rule: write_all.induct)
    (auto simp: syscall_error_def split: if_splits prod.splits)

lemma write_line_std: "write_line se outs x = (Some (Inl e), b) \<Longrightarrow> is_std_exception e"
  by (auto simp: write_line_def split: if_splits dest: write_all_std)

lemma accept_one_carries:
  assumes "carries se euid cn request" "handler request s = (reply, s')"
  obtains res sent where "accept_one se euid cn handler s = (Some res, sent, s')"
    "reply_sent sent reply"
    "\<forall>e. res = Inl e \<longrightarrow> is_std_exception e \<or> reply = Inl e"
proof (cases reply)
  case (Inl e)
  have "read_line se ''request'' (cn_reads cn) = Some (Inr request)"
    using assms(1) socket.receives_frame unfolding carries_def by blast
  with assms Inl have "accept_one se euid cn handler s = (Some (Inl e), [], s')"
    by (simp add: accept_one_def carries_def)
  with that Inl show thesis by (simp add: reply_sent_def)
next
  case (Inr r)
  have "read_line se ''request'' (cn_reads cn) = Some (Inr request)"
    using assms(1) socket.receives_frame unfolding carries_def by blast
  moreover obtain w sent where w: "write_line se (cn_sends cn) r = (Some w, sent)"
    using assms(1) unfolding carries_def by (metis not_None_eq prod.collapse)
  ultimately have "accept_one se euid cn handler s = (Some w, sent, s')"
    using assms Inr by (simp add: accept_one_def carries_def)
  moreover have "prefix sent (r @ [newline])"
    using socket.sends_prefix [of se "cn_sends cn" r] w by simp
  moreover have "is_std_exception e" if "w = Inl e" for e
    using w that write_line_std by blast
  ultimately show thesis using that Inr by (simp add: reply_sent_def)
qed

lemma serve_refines:
  assumes "\<And>h request s e s'. handler h request s = (Inl e, s') \<Longrightarrow> is_std_exception e"
    and "\<forall>(cn, h, request) \<in> set jobs. carries se euid cn request"
    and "handle_all handler (map snd jobs) s = (replies, s')"
  shows "\<exists>sents errs. serve wh se euid handler False (map (\<lambda>(cn, h, request). (cn, h)) jobs) s
       = (Serving, sents, errs, s') \<and> list_all2 reply_sent sents replies"
  using assms(2,3)
proof (induction jobs arbitrary: s replies)
  case (Cons job jobs)
  obtain cn h request where job: "job = (cn, h, request)" by (metis prod_cases3)
  obtain reply s1 where r: "handler h request s = (reply, s1)" by force
  obtain replies' where rest: "handle_all handler (map snd jobs) s1 = (replies', s')"
    and replies: "replies = reply # replies'"
    using Cons.prems(2) job r by (auto split: prod.splits)
  obtain sents errs where ih: "serve wh se euid handler False (map (\<lambda>(cn, h, request). (cn, h)) jobs) s1
      = (Serving, sents, errs, s')" "list_all2 reply_sent sents replies'"
    using Cons.IH [OF _ rest] Cons.prems(1) by auto
  have "carries se euid cn request" using Cons.prems(1) job by simp
  from accept_one_carries [where handler = "handler h", OF this r]
  obtain res sent where a: "accept_one se euid cn (handler h) s = (Some res, sent, s1)"
    "reply_sent sent reply" "\<forall>e. res = Inl e \<longrightarrow> is_std_exception e \<or> reply = Inl e"
    by blast
  moreover have "is_std_exception e" if "res = Inl e" for e
    using a(3) that assms(1) r by blast
  ultimately show ?case
    using ih job replies by (cases res) auto
qed simp

lemma handle_request_std:
  assumes "\<And>j e. json_dump (env_json env) j = Inl e \<Longrightarrow> is_std_exception e"
    and "\<And>s e. json_parse (env_json env) s = Inl e \<Longrightarrow> is_std_exception e"
    and "handle_request env svc m complete input st = (Inl e, st')"
  shows "is_std_exception e"
proof -
  have a: "audit_exn (env_json env) e \<Longrightarrow> is_std_exception e" for e
    using assms(1) by (auto simp: audit_exn_def)
  show ?thesis
    using assms(3)
    by (auto simp: handle_request_def Let_def split: prod.splits sum.splits if_splits
        dest: audit_protocol_error_exn a assms(1) assms(2) handle_try_exn)
qed

text \<open>
  C3: The daemon over its socket refines a server that handles request lines one after the other:
  whatever the kernel does to the bytes, serving connections of the same user, each of which carries one
  request line, goes on, ends in the state of handling the lines in order, with what the tools observe
  during each, and each peer has received a prefix of its own reply and nothing of another's, and
  nothing at all where handling failed. The JSON library is assumed to throw its own exceptions only.
\<close>

theorem serving_refines_handling:
  assumes "\<And>j e. json_dump (env_json (de_session env)) j = Inl e \<Longrightarrow> is_std_exception e"
    and "\<And>s e. json_parse (env_json (de_session env)) s = Inl e \<Longrightarrow> is_std_exception e"
    and "\<forall>(cn, h, request) \<in> set jobs. carries se euid cn request"
    and "handle_all (daemon_handler env svc complete) (map snd jobs) st
       = (replies, st')"
  shows "\<exists>sents errs. serve wh se euid (daemon_handler env svc complete) False
         (map (\<lambda>(cn, h, request). (cn, h)) jobs) st = (Serving, sents, errs, st')
       \<and> list_all2 reply_sent sents replies"
proof (rule serve_refines [OF _ assms(3,4)])
  show "is_std_exception e" if "daemon_handler env svc complete h request s = (Inl e, s')" for h request s e s'
    by (rule handle_request_std [OF assms(1,2) that [unfolded daemon_handler_def]])
qed

section \<open>An instance\<close>

definition sample_bus :: bus_machine where
  "sample_bus = \<lparr>bm_opens = False, bm_units = \<lparr>br_called = False, br_entered = False, br_entries = [],
       br_breaks = False, br_left = False\<rparr>,
     bm_unit_files = \<lparr>br_called = False, br_entered = False, br_entries = [], br_breaks = False,
       br_left = False\<rparr>,
     bm_get_unit = (\<lambda>_. None), bm_string_property = (\<lambda>_ _ _. None), bm_int_property = (\<lambda>_ _ _. None),
     bm_utc = sample_time\<rparr>"

definition sample_journal :: journal_machine where
  "sample_journal = \<lparr>jm_machine = sample_machine, jm_opens = False, jm_takes_match = (\<lambda>_. False),
     jm_seeks = False, jm_walk = (\<lambda>_. ([], False))\<rparr>"

definition sample_host :: host where
  "sample_host = \<lparr>ho_machine = sample_machine, ho_package = sample_package_machine, ho_bus = sample_bus,
     ho_journal = sample_journal\<rparr>"

definition sample_os :: server_os where
  "sample_os = stale_os\<lparr>os_chmod := None\<rparr>"

definition sample_daemon_env :: daemon_env where
  "sample_daemon_env = \<lparr>de_systemd = False, de_fixture = ''fixture.jsonl'', de_getenv = (\<lambda>_. None),
     de_is_directory = (\<lambda>_. False), de_euid = 1000, de_curl = sample_curl, de_session = cli_env,
     de_mkdir = None, de_server = sample_os, de_strerror = (\<lambda>_. [])\<rparr>"

definition sample_daemon_service :: "host session_service" where
  "sample_daemon_service = \<lparr>svc_registry = daemon_registry sample_daemon_env,
     svc_policy = policy_broker (registry_policies (daemon_registry sample_daemon_env)),
     svc_audit_path = ''audit.jsonl''\<rparr>"

definition sample_round :: connection where
  "sample_round = sample_server_side\<lparr>cn_sends := [Sent (2 * 1024 * 1024)]\<rparr>"

lemma sample_round_carries: "carries (\<lambda>_. []) 1000 sample_round ''ping''"
proof -
  have all: "fst (write_all se [Sent n] d) \<noteq> None" if "length d \<le> n" "0 < n" for se n d
    using that by (cases d) simp_all
  have "fst (write_line se [Sent (2 * 1024 * 1024)] x) \<noteq> None" for se x
    using all [of "x @ [newline]" "2 * 1024 * 1024" se] by (simp add: write_line_def max_line_def)
  then show ?thesis
    by (simp add: carries_def sample_round_def sample_server_side_def prepare_defs
        validate_same_uid_peer_def line_payload_def max_line_def errno_defs)
qed

lemma serving_refines_handling_witness:
  "\<exists>sents errs st'. serve (\<lambda>e. []) (\<lambda>_. []) 1000
       (daemon_handler sample_daemon_env sample_daemon_service (\<lambda>_. Inr ''fine'')) False
       [(sample_round, sample_host)] sample_state = (Serving, sents, errs, st') \<and> length sents = 1"
proof -
  let ?handler = "daemon_handler sample_daemon_env sample_daemon_service (\<lambda>_. Inr ''fine'')"
  obtain replies st' where h: "handle_all ?handler [(sample_host, ''ping'')] sample_state = (replies, st')"
    by force
  then have one: "length replies = 1" by (auto split: prod.splits)
  have "\<exists>sents errs. serve (\<lambda>e. []) (\<lambda>_. []) 1000 ?handler False
       (map (\<lambda>(cn, h, request). (cn, h)) [(sample_round, sample_host, ''ping'')]) sample_state
       = (Serving, sents, errs, st') \<and> list_all2 reply_sent sents replies"
  proof (rule serving_refines_handling)
    show "is_std_exception e" if "json_dump (env_json (de_session sample_daemon_env)) j = Inl e" for j e
      using that by (simp add: sample_daemon_env_def cli_env_def model_json_lib_laws)
    show "is_std_exception e" if "json_parse (env_json (de_session sample_daemon_env)) s = Inl e" for s e
      using that by (simp add: sample_daemon_env_def cli_env_def model_json_lib_laws(3))
  qed (use h sample_round_carries in simp_all)
  with one show ?thesis by (auto dest: list_all2_lengthD)
qed

end
