(* ===== verification/Socket_Bounds.thy ===== *)
theory Socket_Bounds
  imports Unix_Socket
begin

text \<open>
  How long a connection of \<open>src/ipc/unix_socket.cpp\<close> can last: the loops of \<open>accept_one\<close> and
  \<open>request_over_unix_socket\<close> end after a bounded number of system calls that were not interrupted.
\<close>

section \<open>Counting calls\<close>

definition completed_reads :: "connection \<Rightarrow> nat" where
  "completed_reads cn = length (filter (\<lambda>r. r \<noteq> ReadError EINTR) (cn_reads cn))"

definition completed_sends :: "connection \<Rightarrow> nat" where
  "completed_sends cn = length (filter (\<lambda>r. r \<noteq> SendError EINTR) (cn_sends cn))"

lemma accept_loop_returns:
  "r \<in> set outs \<Longrightarrow> r \<noteq> Some EINTR \<Longrightarrow> r \<noteq> Some EAGAIN \<Longrightarrow> accept_loop se outs \<noteq> None"
  by (induction se outs rule: accept_loop.induct) auto

lemma write_all_returns:
  "length d \<le> length (filter (\<lambda>r. r \<noteq> SendError EINTR) outs) \<Longrightarrow> fst (write_all se outs d) \<noteq> None"
proof (induction se outs d rule: write_all.induct)
  case (4 se n outs c cs)
  show ?case
  proof (cases "n = 0")
    case False
    then have "length (drop n (c # cs)) \<le> length (filter (\<lambda>r. r \<noteq> SendError EINTR) outs)"
      using 4(2) by simp
    with 4(1) False show ?thesis by (auto split: prod.splits)
  qed simp
qed auto

lemma write_line_returns:
  "max_line < length (filter (\<lambda>r. r \<noteq> SendError EINTR) outs) \<Longrightarrow> fst (write_line se outs x) \<noteq> None"
  using write_all_returns [of "x @ [newline]" outs se] by (simp add: write_line_def)

lemma scan_buffer_more:
  "length coll \<le> max_line \<Longrightarrow> scan_buffer role coll buf = Inr (Inl d) \<Longrightarrow>
     d = coll @ buf \<and> length d \<le> max_line"
  by (induction role coll buf rule: scan_buffer.induct) (auto split: if_splits)

lemma read_loop_returns:
  "length coll \<le> max_line \<Longrightarrow> max_line - length coll < length (filter (\<lambda>r. r \<noteq> ReadError EINTR) outs) \<Longrightarrow>
     read_loop se role outs coll \<noteq> None"
proof (induction se role outs coll rule: read_loop.induct)
  case (3 se role buffer outs coll)
  show ?case
  proof (cases "\<exists>d. buffer \<noteq> [] \<and> scan_buffer role coll buffer = Inr (Inl d)")
    case True
    then obtain d where d: "buffer \<noteq> []" "scan_buffer role coll buffer = Inr (Inl d)" by blast
    from scan_buffer_more [OF 3(2) d(2)] have l: "d = coll @ buffer" "length d \<le> max_line" by blast+
    have "length coll < length d" using l d(1) by (cases buffer) simp_all
    then have "max_line - length d < length (filter (\<lambda>r. r \<noteq> ReadError EINTR) outs)"
      using 3(3) l(2) by simp
    with 3(1) [OF d(1,2) refl] d l(2) show ?thesis by simp
  next
    case False
    then show ?thesis by (auto split: sum.splits)
  qed
qed auto

lemma close_fd_returns: "r \<in> set outs \<Longrightarrow> r \<noteq> Some EINTR \<Longrightarrow> close_fd fd outs \<noteq> None"
  by (induction outs) (auto simp: close_fd.simps [of fd "_ # _"] split: option.splits)

lemma reads_suffice: "1024 * 1024 < completed_reads cn \<Longrightarrow> read_line se role (cn_reads cn) \<noteq> None"
  using read_loop_returns [of "[]" "cn_reads cn" se role]
  by (simp add: read_line_def completed_reads_def max_line_def)

lemma sends_suffice: "1024 * 1024 < completed_sends cn \<Longrightarrow> fst (write_line se (cn_sends cn) x) \<noteq> None"
  using write_line_returns [of "cn_sends cn" se x] by (simp add: completed_sends_def max_line_def)

lemma accept_one_returns:
  assumes "ready \<in> set (cn_accept cn)" "ready \<noteq> Some EINTR" "ready \<noteq> Some EAGAIN"
    and "1024 * 1024 < completed_reads cn" "1024 * 1024 < completed_sends cn"
  shows "fst (accept_one se euid cn handler s) \<noteq> None"
proof -
  obtain request where "read_line se ''request'' (cn_reads cn) = Some request"
    using reads_suffice [OF assms(4)] by blast
  then show ?thesis
    using accept_loop_returns [OF assms(1-3), of se] sends_suffice [OF assms(5)]
    by (simp add: accept_one_def case_prod_unfold Let_def split: option.split sum.split)
qed

section \<open>A connection ends\<close>

text \<open>
  C15: No peer can hold the daemon or the client forever: once a connection is accepted, \<open>accept_one\<close> has
  returned, with a reply or an exception, by the time 1 MiB and one reads and as many sends have completed
  that were not interrupted, whatever the peer sends and however it cuts it; and so has
  \<open>request_over_unix_socket\<close>. The descriptor is given back with the first \<open>close\<close> that is not interrupted.
\<close>

theorem connections_end:
  assumes "ready \<in> set (cn_accept cn)" "ready \<noteq> Some EINTR" "ready \<noteq> Some EAGAIN"
    and "1024 * 1024 < completed_reads cn" "1024 * 1024 < completed_sends cn"
    and "closed \<in> set closes" "closed \<noteq> Some EINTR"
  shows "fst (accept_one se euid cn handler s) \<noteq> None
     \<and> fst (request_over_unix_socket se sock conn cn path request) \<noteq> None
     \<and> close_fd fd closes \<noteq> None"
proof -
  have "fst (request_over_unix_socket se sock conn cn path request) \<noteq> None"
    using reads_suffice [OF assms(4)] sends_suffice [OF assms(5), of se request]
    by (auto simp: request_over_unix_socket_def case_prod_unfold split: option.split sum.split)
  then show ?thesis
    by (intro conjI accept_one_returns [OF assms(1-5)] close_fd_returns [OF assms(6,7)])
qed

text \<open>
  The bound is attained, and the timeouts of the socket limit one call, not the request: a peer that sends one
  byte at a time is served until 1 MiB of them has been read, and refused with the next.
\<close>

lemma slow_peer_is_waited_for:
  "k \<le> max_line \<Longrightarrow> read_line se role (replicate k (ReadBytes [CHR ''a''])) = None"
proof -
  have "length coll + k \<le> max_line \<Longrightarrow> read_loop se role (replicate k (ReadBytes [CHR ''a''])) coll = None" for coll
    by (induction k arbitrary: coll) auto
  then show "k \<le> max_line \<Longrightarrow> ?thesis" by (simp add: read_line_def)
qed

text \<open>
  An interrupted \<open>close\<close> is repeated, although on Linux the descriptor is released by then and its number may be
  another file's.
\<close>

lemma interrupted_close_is_repeated: "close_fd 4 [Some EINTR, None] = Some 2"
  by (simp add: close_fd.simps)

definition sample_slow_peer :: connection where
  "sample_slow_peer = \<lparr>cn_accept = [Some EINTR, None], cn_rcvtimeo = None, cn_sndtimeo = None, cn_peer = Inr (True, 1000),
     cn_reads = replicate (1024 * 1024 + 1) (ReadBytes [CHR ''a'']), cn_sends = replicate (1024 * 1024 + 1) (Sent 1)\<rparr>"

lemma connections_end_witness:
  "fst (accept_one (\<lambda>_. []) 1000 sample_slow_peer sample_handler 0) \<noteq> None"
proof (rule connections_end [where ready = None and closed = None and closes = "[None]", THEN conjunct1])
  show "1024 * 1024 < completed_reads sample_slow_peer" "1024 * 1024 < completed_sends sample_slow_peer"
    by (simp_all only: completed_reads_def completed_sends_def sample_slow_peer_def connection.simps filter_replicate
        length_replicate) simp_all
qed (simp_all add: sample_slow_peer_def)

end
