(* ===== verification/Text_Encoding.thy ===== *)
theory Text_Encoding
  imports Session_Properties Json_Model Line_Protocol
begin

text \<open>
  Texts and their encoding. The JSON library prints a value only if its strings are valid UTF-8, while the
  program treats texts as bytes: \<open>redact_likely_secret\<close> replaces parts of them, and \<open>bound_string\<close> of
  \<open>src/session/session_service.cpp\<close> cuts them anywhere. Redaction keeps UTF-8; the cut keeps ASCII only, so a
  session answers if every text is ASCII or short enough, and one character in the wrong place loses an answer.
\<close>

section \<open>ASCII and UTF-8\<close>

text \<open>The top bit of no byte is set.\<close>

definition ascii :: "string \<Rightarrow> bool" where
  "ascii s \<longleftrightarrow> (\<forall>c \<in> set s. \<not> digit7 c)"

lemma ascii_simps [simp]:
  "ascii []"
  "ascii (c # s) \<longleftrightarrow> \<not> digit7 c \<and> ascii s"
  "ascii (s @ t) \<longleftrightarrow> ascii s \<and> ascii t"
  by (auto simp: ascii_def)

lemma ascii_take_drop [intro]: "ascii s \<Longrightarrow> ascii (take n s)" "ascii s \<Longrightarrow> ascii (drop n s)"
  by (auto simp: ascii_def dest: in_set_takeD in_set_dropD)

text \<open>The well-formed byte sequences of RFC 3629.\<close>

definition continuation :: "char \<Rightarrow> bool" where
  "continuation c \<longleftrightarrow> 0x80 \<le> (of_char c :: nat) \<and> (of_char c :: nat) \<le> 0xBF"

text \<open>
  How many continuation bytes follow a first byte, and the bounds of the first of them; \<open>None\<close> for a byte
  that starts no character.
\<close>

definition utf8_head :: "nat \<Rightarrow> (nat \<times> nat \<times> nat) option" where
  "utf8_head b =
     (if b < 0x80 then Some (0, 0, 0)
      else if b < 0xC2 then None
      else if b < 0xE0 then Some (1, 0x80, 0xBF)
      else if b = 0xE0 then Some (2, 0xA0, 0xBF)
      else if b = 0xED then Some (2, 0x80, 0x9F)
      else if b < 0xF0 then Some (2, 0x80, 0xBF)
      else if b = 0xF0 then Some (3, 0x90, 0xBF)
      else if b < 0xF4 then Some (3, 0x80, 0xBF)
      else if b = 0xF4 then Some (3, 0x80, 0x8F)
      else None)"

function valid_utf8 :: "string \<Rightarrow> bool" where
  "valid_utf8 [] \<longleftrightarrow> True"
| "valid_utf8 (c # cs) \<longleftrightarrow>
     (case utf8_head (of_char c) of
        None \<Rightarrow> False
      | Some (n, lo, hi) \<Rightarrow>
          n \<le> length cs \<and> list_all continuation (take n cs)
          \<and> (0 < n \<longrightarrow> lo \<le> of_char (hd cs) \<and> of_char (hd cs) \<le> hi)
          \<and> valid_utf8 (drop n cs))"
  by pat_completeness auto
termination
  by (relation "measure length") auto

lemma of_char_ascii: "\<not> digit7 c \<longleftrightarrow> (of_char c :: nat) < 0x80"
  by (cases c) (simp add: of_char_def)

lemma valid_utf8_ascii: "\<not> digit7 c \<Longrightarrow> valid_utf8 (c # cs) = valid_utf8 cs"
  by (simp add: utf8_head_def of_char_ascii)

declare valid_utf8.simps(2) [simp del]

lemma ascii_valid_utf8 [simp]: "ascii s \<Longrightarrow> valid_utf8 s"
  by (induction s) (simp_all add: valid_utf8_ascii)

lemma valid_utf8_append: "valid_utf8 a \<Longrightarrow> valid_utf8 (a @ b) = valid_utf8 b"
proof (induction a rule: valid_utf8.induct)
  case (2 c cs)
  then obtain n lo hi where h: "utf8_head (of_char c) = Some (n, lo, hi)" "n \<le> length cs" "valid_utf8 (drop n cs)"
    by (auto simp: valid_utf8.simps(2) split: option.splits)
  have "hd (cs @ b) = hd cs" if "0 < n" using that h(2) by (cases cs) auto
  with 2 h show ?case by (simp add: valid_utf8.simps(2))
qed simp

lemma valid_utf8_before_ascii: "valid_utf8 (a @ x # b) \<Longrightarrow> \<not> digit7 x \<Longrightarrow> valid_utf8 a"
proof (induction a rule: valid_utf8.induct)
  case (2 c cs)
  then obtain n lo hi where h: "utf8_head (of_char c) = Some (n, lo, hi)"
    "list_all continuation (take n (cs @ x # b))" "valid_utf8 (drop n (cs @ x # b))"
    "0 < n \<longrightarrow> lo \<le> (of_char (hd (cs @ x # b)) :: nat) \<and> of_char (hd (cs @ x # b)) \<le> hi"
    by (auto simp: valid_utf8.simps(2) split: option.splits)
  have n: "n \<le> length cs"
  proof (rule ccontr)
    assume "\<not> n \<le> length cs"
    then have "x \<in> set (take n (cs @ x # b))" by (cases "n - length cs") simp_all
    with h(2) have "continuation x" unfolding list_all_iff by blast
    with 2(3) show False by (simp add: continuation_def of_char_ascii)
  qed
  moreover have "hd (cs @ x # b) = hd cs" if "0 < n" using that n by (cases cs) auto
  moreover have "valid_utf8 (drop n cs)" using 2(1) [OF h(1)] h(3) n 2(3) by simp
  ultimately show ?case using h by (simp add: valid_utf8.simps(2))
qed simp

lemma valid_utf8_at_ascii:
  assumes "valid_utf8 (a @ x # b)" "\<not> digit7 x"
  shows "valid_utf8 (a @ [x])" "valid_utf8 b" "valid_utf8 (x # b)"
  using valid_utf8_before_ascii [OF assms] assms by (simp_all add: valid_utf8_append valid_utf8_ascii)

section \<open>Redaction\<close>

text \<open>Expressions that match ASCII only.\<close>

primrec ascii_rx :: "regex \<Rightarrow> bool" where
  "ascii_rx (Lit a) \<longleftrightarrow> \<not> digit7 a"
| "ascii_rx (Class p) \<longleftrightarrow> (\<forall>c. p c \<longrightarrow> \<not> digit7 c)"
| "ascii_rx (Seq r1 r2) \<longleftrightarrow> ascii_rx r1 \<and> ascii_rx r2"
| "ascii_rx (Alt r1 r2) \<longleftrightarrow> ascii_rx r1 \<and> ascii_rx r2"
| "ascii_rx (Opt r) \<longleftrightarrow> ascii_rx r"
| "ascii_rx (Star p) \<longleftrightarrow> (\<forall>c. p c \<longrightarrow> \<not> digit7 c)"
| "ascii_rx (Plus p) \<longleftrightarrow> (\<forall>c. p c \<longrightarrow> \<not> digit7 c)"

lemma ascii_take_while: "\<forall>c. p c \<longrightarrow> \<not> digit7 c \<Longrightarrow> n \<le> length (takeWhile p s) \<Longrightarrow> ascii (take n s)"
proof -
  assume p: "\<forall>c. p c \<longrightarrow> \<not> digit7 c" and n: "n \<le> length (takeWhile p s)"
  have "\<not> digit7 c" if "c \<in> set (take n s)" for c
  proof -
    have "c \<in> set (take (length (takeWhile p s)) s)" using that set_take_subset_set_take [OF n, of s] by blast
    then have "c \<in> set (takeWhile p s)" by (simp only: takeWhile_eq_take [symmetric])
    then have "p c" by (rule set_takeWhileD [THEN conjunct2])
    then show ?thesis by (rule p [rule_format])
  qed
  then show ?thesis by (simp add: ascii_def)
qed

lemma to_lower_ascii: "to_lower c = to_lower a \<Longrightarrow> \<not> digit7 a \<Longrightarrow> \<not> digit7 c"
  using arg_cong [of "to_lower c" "to_lower a" "of_char :: char \<Rightarrow> nat"]
  unfolding of_char_to_lower of_char_ascii by (simp split: if_splits)

lemma ascii_rx_matches: "ascii_rx r \<Longrightarrow> n \<in> set (match_lengths r s) \<Longrightarrow> ascii (take n s)"
proof (induction r s arbitrary: n rule: match_lengths.induct)
  case (1 a s)
  then show ?case by (cases s) (auto dest: to_lower_ascii split: if_splits)
next
  case (2 p s)
  then show ?case by (cases s) (auto split: if_splits)
next
  case (3 r1 r2 s)
  then obtain k m where k: "k \<in> set (match_lengths r1 s)" "m \<in> set (match_lengths r2 (drop k s))" "n = k + m"
    by auto
  with 3 have "ascii (take k s)" "ascii (take m (drop k s))" by auto
  with k(3) show ?case by (simp add: take_add)
next
  case (6 p s)
  then have "n \<le> length (takeWhile p s)" by (auto simp del: upt_Suc)
  with 6 show ?case by (intro ascii_take_while [of p]) simp_all
next
  case (7 p s)
  then have "n \<le> length (takeWhile p s)" by (auto simp del: upt_Suc)
  with 7 show ?case by (intro ascii_take_while [of p]) simp_all
qed auto

text \<open>
  A pattern that cuts a text only beside ASCII: the group it keeps is ASCII, and the secret ends at the end of
  the text, before an ASCII character, or with one.
\<close>

definition cuts_at_ascii :: "pattern \<Rightarrow> bool" where
  "cuts_at_ascii pat \<longleftrightarrow>
     (\<forall>s n m. pattern_match pat s = Some (n, m) \<longrightarrow>
        (\<exists>g v w. s = g @ v @ w \<and> length g = n \<and> length v = m \<and> g \<noteq> [] \<and> ascii g
           \<and> (w = [] \<or> \<not> digit7 (hd w) \<or> v \<noteq> [] \<and> \<not> digit7 (last v))))"

lemma regex_replace_utf8:
  "cuts_at_ascii pat \<Longrightarrow> ascii repl \<Longrightarrow> valid_utf8 (p @ s) \<Longrightarrow> valid_utf8 (p @ regex_replace pat repl s)"
proof (induction pat repl s arbitrary: p rule: regex_replace.induct)
  case (2 pat repl c cs)
  show ?case
  proof (cases "pattern_match pat (c # cs)")
    case None
    have "valid_utf8 ((p @ [c]) @ regex_replace pat repl cs)"
      using 2(1) [OF None 2(4,5), of "p @ [c]"] 2(6) by simp
    with None show ?thesis by simp
  next
    case (Some nm)
    obtain n m where nm: "nm = (n, m)" by force
    obtain g v w where cut: "c # cs = g @ v @ w" "length g = n" "length v = m" "g \<noteq> []" "ascii g"
      "w = [] \<or> \<not> digit7 (hd w) \<or> v \<noteq> [] \<and> \<not> digit7 (last v)"
      using 2(4) Some nm unfolding cuts_at_ascii_def by blast
    obtain g' x where g: "g = g' @ [x]" "\<not> digit7 x" using cut(4,5) by (cases g rule: rev_cases) auto
    have "valid_utf8 ((p @ g') @ x # v @ w)" using 2(6) cut(1) g(1) by simp
    from valid_utf8_at_ascii [OF this g(2)] g(1) have pg: "valid_utf8 (p @ g)" and vw: "valid_utf8 (v @ w)"
      by simp_all
    have "valid_utf8 w"
    proof (cases "w = [] \<or> \<not> digit7 (hd w)")
      case True
      then show ?thesis using vw valid_utf8_at_ascii(3) [of v "hd w" "tl w"] by (cases w) auto
    next
      case False
      with cut(6) obtain v' y where "v = v' @ [y]" "\<not> digit7 y" by (cases v rule: rev_cases) auto
      with vw valid_utf8_at_ascii(2) [of v' y w] show ?thesis by simp
    qed
    moreover have d: "drop (n + m) (c # cs) = w" "take n (c # cs) = g" "n + m \<noteq> 0" using cut by auto
    ultimately have "valid_utf8 (regex_replace pat repl w)"
      using 2(3) [OF Some nm [symmetric] d(3) 2(4,5), of "[]"] by simp
    moreover have "regex_replace pat repl (c # cs) = g @ repl @ regex_replace pat repl w"
      using d by (subst regex_replace.simps(2)) (simp only: Some nm option.case prod.case if_False)
    ultimately show ?thesis
      using pg 2(5) valid_utf8_append [of "p @ g"] valid_utf8_append [of repl] by simp
  qed
qed simp

text \<open>The four patterns cut beside ASCII.\<close>

lemma cuts_at_ascii_intro:
  assumes "ascii_rx (fst pat)" "\<And>s. 0 \<notin> set (match_lengths (fst pat) s)"
    and "\<And>s n m. pattern_match pat s = Some (n, m) \<Longrightarrow> drop (n + m) s = [] \<or> \<not> digit7 (hd (drop (n + m) s))
      \<or> take m (drop n s) \<noteq> [] \<and> \<not> digit7 (last (take m (drop n s)))"
  shows "cuts_at_ascii pat"
  unfolding cuts_at_ascii_def
proof (intro allI impI)
  fix s n m
  assume p: "pattern_match pat s = Some (n, m)"
  note some = pattern_match_SomeD [OF p]
  have "s = take n s @ take m (drop n s) @ drop (n + m) s"
    by (metis append_take_drop_id drop_drop add.commute)
  moreover have "length (take n s) = n" "length (take m (drop n s)) = m" "ascii (take n s)"
    using some ascii_rx_matches [OF assms(1) some(1)] by simp_all
  moreover have "take n s \<noteq> []" using assms(2) [of s] some by (cases n) auto
  ultimately show "\<exists>g v w. s = g @ v @ w \<and> length g = n \<and> length v = m \<and> g \<noteq> [] \<and> ascii g
      \<and> (w = [] \<or> \<not> digit7 (hd w) \<or> v \<noteq> [] \<and> \<not> digit7 (last v))"
    using assms(3) [OF p] by blast
qed

lemma plus_stops:
  assumes "pattern_match (grp, Plus p) s = Some (n, m)" "\<And>c. digit7 c \<Longrightarrow> p c"
  shows "drop (n + m) s = [] \<or> \<not> digit7 (hd (drop (n + m) s))"
proof -
  have "m = length (takeWhile p (drop n s))"
    using assms(1) unfolding pattern_match_def fst_conv snd_conv match_lengths.simps first_nonempty by auto
  then have "drop (n + m) s = dropWhile p (drop n s)"
    by (simp add: dropWhile_eq_drop add.commute)
  then show ?thesis using assms(2) hd_dropWhile [of p "drop n s"] by metis
qed

primrec never_empty :: "regex \<Rightarrow> bool" where
  "never_empty (Lit a) = True"
| "never_empty (Class p) = True"
| "never_empty (Seq r1 r2) \<longleftrightarrow> never_empty r1 \<or> never_empty r2"
| "never_empty (Alt r1 r2) \<longleftrightarrow> never_empty r1 \<and> never_empty r2"
| "never_empty (Opt r) = False"
| "never_empty (Star p) = False"
| "never_empty (Plus p) = True"

lemma in_match_Seq:
  "n \<in> set (match_lengths (Seq r1 r2) s) \<longleftrightarrow>
     (\<exists>k l. k \<in> set (match_lengths r1 s) \<and> l \<in> set (match_lengths r2 (drop k s)) \<and> n = k + l)"
  by auto

lemma never_empty_matches: "never_empty r \<Longrightarrow> 0 \<notin> set (match_lengths r s)"
proof (induction r s rule: match_lengths.induct)
  case (1 a s)
  then show ?case by (cases s) auto
next
  case (2 p s)
  then show ?case by (cases s) auto
next
  case (3 r1 r2 s)
  show ?case
  proof
    assume "0 \<in> set (match_lengths (Seq r1 r2) s)"
    then have z: "0 \<in> set (match_lengths r1 s)" "0 \<in> set (match_lengths r2 (drop 0 s))"
      unfolding in_match_Seq by auto
    with 3(1) 3(2) [OF z(1)] 3(3) show False by auto
  qed
qed auto

lemma literal_ends:
  assumes "m \<in> set (match_lengths (Seq r1 (Seq r2 (Lit a))) t)" "\<not> digit7 a"
  shows "take m t \<noteq> [] \<and> \<not> digit7 (last (take m t))"
proof -
  from assms(1) obtain i k l where m: "m = i + (k + l)" and l: "l \<in> set (match_lengths (Lit a) (drop k (drop i t)))"
    unfolding in_match_Seq by blast
  then obtain c u where c: "drop (i + k) t = c # u" "to_lower c = to_lower a" and l1: "l = 1"
    by (cases "drop (i + k) t") (auto simp: add.commute split: if_splits)
  then have "take m t = take (i + k) t @ [c]"
    using take_add [of "i + k" 1 t] by (simp add: m l1 add.assoc)
  with to_lower_ascii [OF c(2) assms(2)] show ?thesis by simp
qed

lemma stops_are_ascii: "digit7 c \<Longrightarrow> \<not> assignment_stop c" "digit7 c \<Longrightarrow> \<not> colon_stop c" "is_space c \<Longrightarrow> \<not> digit7 c"
  by (auto simp: assignment_stop_def colon_stop_def is_space_def)

lemma key_then_ascii: "\<not> digit7 sep \<Longrightarrow> ascii_rx (key_then sep)" "never_empty (key_then sep)"
  by (simp_all add: key_then_def secret_key_def stops_are_ascii)

lemma patterns_cut_at_ascii: "cuts_at_ascii quoted_assignment_pattern" "cuts_at_ascii bearer_pattern"
  "cuts_at_ascii colon_pattern" "cuts_at_ascii assignment_pattern"
proof -
  show "cuts_at_ascii quoted_assignment_pattern"
    unfolding quoted_assignment_pattern_def
    by (intro cuts_at_ascii_intro disjI2 literal_ends)
      (auto simp: key_then_ascii never_empty_matches dest!: pattern_match_SomeD(2) simp del: match_lengths.simps)
  show "cuts_at_ascii bearer_pattern"
    unfolding bearer_pattern_def
    by (intro cuts_at_ascii_intro never_empty_matches disjI1 [of "_ \<or> _", simplified])
      (auto simp: stops_are_ascii dest!: plus_stops)
  show "cuts_at_ascii colon_pattern" "cuts_at_ascii assignment_pattern"
    unfolding colon_pattern_def assignment_pattern_def
    by (intro cuts_at_ascii_intro; auto simp: key_then_ascii never_empty_matches stops_are_ascii dest!: plus_stops)+
qed

lemma redact_utf8: "valid_utf8 s \<Longrightarrow> valid_utf8 (redact_likely_secret s)"
  using regex_replace_utf8 [of _ _ "[]"]
  by (simp add: redact_likely_secret_def Let_def patterns_cut_at_ascii)

section \<open>Strings of a JSON value\<close>

primrec all_strings :: "(string \<Rightarrow> bool) \<Rightarrow> json \<Rightarrow> bool" where
  "all_strings P JNull = True"
| "all_strings P (JBool b) = True"
| "all_strings P (JNumber s) = P s"
| "all_strings P (JString s) = P s"
| "all_strings P (JArray xs) = list_all id (map (all_strings P) xs)"
| "all_strings P (JObject m) = list_all (\<lambda>(k, b). P k \<and> b) (map (map_prod id (all_strings P)) m)"

lemma all_strings_containers [simp]:
  "all_strings P (JArray xs) \<longleftrightarrow> (\<forall>x \<in> set xs. all_strings P x)"
  "all_strings P (JObject m) \<longleftrightarrow> (\<forall>kv \<in> set m. P (fst kv) \<and> all_strings P (snd kv))"
  by (auto simp: list_all_iff)

declare all_strings.simps(5,6) [simp del]

lemma all_strings_object [simp]:
  "(\<forall>kv \<in> set kvs. P (fst kv) \<and> all_strings P (snd kv)) \<Longrightarrow> all_strings P (json_object kvs)"
  unfolding json_object_def using set_smap_of by fastforce

text \<open>A library that prints a value exactly if its strings are UTF-8, and what it prints is UTF-8.\<close>

definition checks_utf8 :: "json_lib \<Rightarrow> bool" where
  "checks_utf8 jl \<longleftrightarrow>
     (\<forall>j. (\<exists>s. json_dump jl j = Inr s) \<longleftrightarrow> all_strings valid_utf8 j)
     \<and> (\<forall>j s. json_dump jl j = Inr s \<longrightarrow> valid_utf8 s)"

lemma dumps_utf8:
  assumes "checks_utf8 jl" "all_strings valid_utf8 j"
  obtains s where "json_dump jl j = Inr s" "valid_utf8 s"
  using assms unfolding checks_utf8_def by blast

section \<open>The texts of the program\<close>

lemma ascii_regex_replace: "ascii s \<Longrightarrow> ascii repl \<Longrightarrow> ascii (regex_replace pat repl s)"
proof (induction pat repl s rule: regex_replace.induct)
  case (2 pat repl c cs)
  then have "ascii (take n (c # cs))" "ascii (drop (n + m) (c # cs))" for n m by blast+
  with 2 show ?case by (auto simp del: take_Suc_Cons drop_Suc_Cons split: option.splits)
qed simp

lemma ascii_redact [simp]: "ascii s \<Longrightarrow> ascii (redact_likely_secret s)"
  by (simp add: redact_likely_secret_def Let_def ascii_regex_replace)

lemma ascii_bound_string [simp]: "ascii s \<Longrightarrow> ascii (bound_string s n)"
  by (auto simp: bound_string_def Let_def substr_def audit_marker_def)

lemma ascii_bound_audit_string [simp]: "ascii s \<Longrightarrow> ascii (bound_audit_string s)"
  by (simp add: bound_audit_string_def)

lemma ascii_digits: "(\<And>c. c \<in> set s \<Longrightarrow> is_digit c) \<Longrightarrow> ascii s"
  by (force simp: ascii_def is_digit_of_char of_char_ascii)

lemma ascii_numbers [simp]: "ascii (decimal n)" "ascii (to_string_u64 w)" "ascii (to_string_int i)"
  "ascii (two_digits n)"
proof -
  show d: "ascii (decimal n)" for n by (rule ascii_digits) (rule decimal_digits)
  show "ascii (to_string_u64 w)" "ascii (to_string_int i)" by (simp_all add: to_string_u64_def to_string_int_def d)
  show "ascii (two_digits n)"
    by (rule ascii_digits) (auto simp: two_digits_def intro: is_digit_digit_char)
qed

lemma ascii_stamp [simp]: "ascii (utc_timestamp t)" "ascii (fst (make_event_id now counter))"
  by (simp_all add: utc_timestamp_def make_event_id_def)

lemma ascii_risk [simp]: "ascii (risk_to_string k)"
  by (cases k) simp_all

lemma ascii_status [simp]: "ascii (status_to_string u)"
  by (cases u) simp_all

lemma ascii_bool_text [simp]: "ascii (bool_text b)"
  by (simp add: bool_text_def)

lemma ascii_reason [simp]: "ascii (pd_reason (decide pol q))"
  by (simp add: decide_def split: option.split)

section \<open>Texts that survive the audit\<close>

text \<open>A text that is not cut inside a character when it is bounded to \<open>n\<close> bytes.\<close>

definition survives :: "nat \<Rightarrow> string \<Rightarrow> bool" where
  "survives n s \<longleftrightarrow> valid_utf8 s \<and> (ascii s \<or> length (redact_likely_secret s) \<le> n)"

lemma survives_bound: "survives n s \<Longrightarrow> valid_utf8 (bound_string s n)"
proof (cases "ascii s")
  case False
  then show "survives n s \<Longrightarrow> ?thesis" by (simp add: survives_def bound_string_def redact_utf8)
qed simp

lemma survives_bound_audit [simp]: "survives 2048 s \<Longrightarrow> valid_utf8 (bound_audit_string s)"
  by (simp add: bound_audit_string_def survives_bound)

lemma ascii_survives [simp]: "ascii s \<Longrightarrow> survives n s"
  by (simp add: survives_def)

definition dump_survives :: "json_lib \<Rightarrow> json \<Rightarrow> bool" where
  "dump_survives jl j \<longleftrightarrow> (\<forall>s. json_dump jl j = Inr s \<longrightarrow> survives 4096 s)"

definition valid_map :: "string smap \<Rightarrow> bool" where
  "valid_map m \<longleftrightarrow> (\<forall>kv \<in> set m. valid_utf8 (fst kv) \<and> valid_utf8 (snd kv))"

definition request_survives :: "json_lib \<Rightarrow> tool_request \<Rightarrow> bool" where
  "request_survives jl q \<longleftrightarrow> survives 2048 (req_id q) \<and> survives 2048 (req_tool_name q)
     \<and> (\<forall>kv \<in> set (req_params q). valid_utf8 (fst kv) \<and> survives 512 (snd kv))
     \<and> dump_survives jl (bounded_params_json (req_params q))"

text \<open>The texts of evidence that are audited; its body may be anything.\<close>

definition refs_survive :: "json_lib \<Rightarrow> evidence list \<Rightarrow> bool" where
  "refs_survive jl es \<longleftrightarrow>
     (\<forall>e \<in> set es. survives 2048 (ev_id e) \<and> survives 2048 (ev_source e) \<and> survives 2048 (ev_summary e)
        \<and> survives 2048 (ev_timestamp e))
     \<and> dump_survives jl (evidence_refs_json es)"

definition model_survives :: "json_lib \<Rightarrow> model \<Rightarrow> bool" where
  "model_survives jl complete \<longleftrightarrow>
     (\<forall>mr. case complete mr of Inr answer \<Rightarrow> survives 2048 answer
        | Inl e \<Rightarrow> survives 2048 (what (json_what jl) e))"

section \<open>The audit of such texts\<close>

lemma valid_map_of [simp]: "(\<forall>kv \<in> set kvs. valid_utf8 (fst kv) \<and> valid_utf8 (snd kv)) \<Longrightarrow> valid_map (smap_of kvs)"
  unfolding valid_map_def using set_smap_of by fastforce

lemma all_strings_string_map [simp]: "valid_map m \<Longrightarrow> all_strings valid_utf8 (json_string_map m)"
  by (auto simp: json_string_map_def valid_map_def)

lemma ball_subset: "A \<subseteq> B \<Longrightarrow> \<forall>x \<in> B. P x \<Longrightarrow> \<forall>x \<in> A. P x"
  by blast

lemma params_valid:
  assumes "\<forall>kv \<in> set params. valid_utf8 (fst kv) \<and> survives 512 (snd kv)"
  shows "all_strings valid_utf8 (bounded_params_json params)"
proof -
  let ?good = "\<lambda>kv. valid_utf8 (fst kv) \<and> all_strings valid_utf8 (snd kv)"
  have "\<forall>kv \<in> set (fold (\<lambda>(k, v) m. smap_assign k (JString (bound_string v 512)) m) params m). ?good kv"
    if "\<forall>kv \<in> set m. ?good kv" for m
    using assms that
  proof (induction params arbitrary: m)
    case (Cons kv params)
    obtain k v where kv: "kv = (k, v)" by force
    let ?m = "smap_assign k (JString (bound_string v 512)) m"
    have "?good (k, JString (bound_string v 512))" using Cons.prems(1) kv by (simp add: survives_bound)
    with Cons.prems(2) have "\<forall>kv \<in> insert (k, JString (bound_string v 512)) (set m). ?good kv"
      by simp
    then have "\<forall>kv \<in> set ?m. ?good kv" by (rule ball_subset [OF set_smap_assign])
    moreover have "\<forall>kv \<in> set params. valid_utf8 (fst kv) \<and> survives 512 (snd kv)" using Cons.prems(1) by simp
    ultimately show ?case unfolding kv fold_simps prod.case by (rule Cons.IH [rotated])
  qed simp
  from this [of "[]"] show ?thesis by (simp add: bounded_params_json_def)
qed

lemma refs_valid: "refs_survive jl es \<Longrightarrow> all_strings valid_utf8 (evidence_refs_json es)"
proof -
  have "\<forall>e \<in> set es. survives 2048 (ev_id e) \<and> survives 2048 (ev_source e) \<and> survives 2048 (ev_summary e)
      \<and> survives 2048 (ev_timestamp e) \<Longrightarrow> \<forall>j \<in> set (evidence_refs n es). all_strings valid_utf8 j" for n
    by (induction n es rule: evidence_refs.induct) (simp_all add: evidence_ref_json_def)
  then show "refs_survive jl es \<Longrightarrow> ?thesis" by (simp add: evidence_refs_json_def refs_survive_def)
qed

lemma bound_json_valid:
  assumes "checks_utf8 jl" "all_strings valid_utf8 j" "dump_survives jl j"
  obtains s where "bound_json jl j = Inr s" "valid_utf8 s"
proof -
  obtain s where "json_dump jl j = Inr s" using dumps_utf8 [OF assms(1,2)] .
  with assms(3) show thesis
    by (intro that [of "bound_string s 4096"]) (simp_all add: bound_json_def dump_survives_def survives_bound)
qed

lemma refs_dump_valid:
  assumes "checks_utf8 jl" "refs_survive jl es"
  obtains refs where "bound_json jl (evidence_refs_json es) = Inr refs" "valid_utf8 refs"
  using bound_json_valid [OF assms(1) refs_valid [OF assms(2)]] assms(2) unfolding refs_survive_def by blast

lemma tool_details_valid:
  assumes "checks_utf8 jl" "request_survives jl q" "survives 2048 (resp_message r)" "refs_survive jl (resp_evidence r)"
  shows "\<exists>ds. tool_audit_details jl q (decide pol q) r = Inr ds \<and> valid_map ds"
proof -
  have q: "survives 2048 (req_id q)" "survives 2048 (req_tool_name q)"
    and p: "\<forall>kv \<in> set (req_params q). valid_utf8 (fst kv) \<and> survives 512 (snd kv)"
    and d: "dump_survives jl (bounded_params_json (req_params q))"
    using assms(2) unfolding request_survives_def by blast+
  obtain params where "bound_json jl (bounded_params_json (req_params q)) = Inr params" "valid_utf8 params"
    using bound_json_valid [OF assms(1) params_valid [OF p] d] .
  moreover obtain refs where "bound_json jl (evidence_refs_json (resp_evidence r)) = Inr refs" "valid_utf8 refs"
    using refs_dump_valid [OF assms(1,4)] .
  ultimately show ?thesis using q assms(3) by (simp add: tool_audit_details_def)
qed

lemma model_details_valid:
  assumes "checks_utf8 jl" "request_survives jl q" "survives 2048 prompt" "refs_survive jl es"
  shows "\<exists>ds. model_context_details jl prompt q es = Inr ds \<and> valid_map ds"
    and "survives 2048 (resp_message r) \<Longrightarrow> resp_evidence r = es \<Longrightarrow>
      \<exists>ds. model_skipped_details jl prompt q r = Inr ds \<and> valid_map ds"
    and "valid_utf8 err \<Longrightarrow> \<exists>ds. model_error_details jl prompt q err es = Inr ds \<and> valid_map ds"
    and "survives 2048 answer \<Longrightarrow> valid_map (model_response_details q answer)"
proof -
  obtain refs where "bound_json jl (evidence_refs_json es) = Inr refs" "valid_utf8 refs"
    using refs_dump_valid [OF assms(1,4)] .
  moreover have "survives 2048 (req_id q)" using assms(2) by (simp add: request_survives_def)
  ultimately show "\<exists>ds. model_context_details jl prompt q es = Inr ds \<and> valid_map ds"
    and "survives 2048 (resp_message r) \<Longrightarrow> resp_evidence r = es \<Longrightarrow>
      \<exists>ds. model_skipped_details jl prompt q r = Inr ds \<and> valid_map ds"
    and "valid_utf8 err \<Longrightarrow> \<exists>ds. model_error_details jl prompt q err es = Inr ds \<and> valid_map ds"
    and "survives 2048 answer \<Longrightarrow> valid_map (model_response_details q answer)"
    using assms(3) by (simp_all add: model_context_details_def model_skipped_details_def
        model_error_details_def model_response_details_def)
qed

lemma emit_valid:
  assumes "checks_utf8 (env_json env)" "\<And>n. env_disk env n = DiskOk"
    and "valid_utf8 actor" "valid_utf8 ty" "valid_utf8 summ" "details = Inr ds" "valid_map ds"
  shows "\<exists>st'. emit env path actor ty summ details st = (Inr (), st')"
proof -
  have "all_strings valid_utf8 (audit_to_json (new_event env st actor ty summ ds))"
    using assms(3-7) by (simp add: audit_to_json_def new_event_def)
  then obtain s where "json_dump (env_json env) (audit_to_json (new_event env st actor ty summ ds)) = Inr s"
    using dumps_utf8 [OF assms(1)] by blast
  with assms(2,6) show ?thesis by (simp add: emit_def audit_append_ok audit_record_def)
qed

lemma call_tool_survives:
  assumes "checks_utf8 (env_json env)" "\<And>n. env_disk env n = DiskOk" "valid_utf8 actor" "request_survives (env_json env) q"
    and "r = tool_outcome (env_json env) svc m q" "survives 2048 (resp_message r)" "refs_survive (env_json env) (resp_evidence r)"
  shows "\<exists>st'. call_tool env svc m q actor st = (Inr r, st')"
proof -
  obtain ds where "tool_audit_details (env_json env) q (decide (svc_policy svc) q) r = Inr ds" "valid_map ds"
    using tool_details_valid [OF assms(1,4,6,7)] by blast
  moreover have "valid_utf8 (bound_audit_string (req_tool_name q))" using assms(4) by (simp add: request_survives_def)
  ultimately have "\<exists>st'. emit env (svc_audit_path svc) actor ''tool.call''
      (bound_audit_string (req_tool_name q))
      (tool_audit_details (env_json env) q (decide (svc_policy svc) q) r) st = (Inr (), st')"
    by (intro emit_valid [OF assms(1-3)]) simp_all
  with assms(5) show ?thesis unfolding call_tool_emit by blast
qed

definition answer_of :: "json_lib \<Rightarrow> model \<Rightarrow> string \<Rightarrow> tool_response \<Rightarrow> ask_result" where
  "answer_of jl complete prompt r =
     (if resp_status r \<noteq> Ok
      then \<lparr>ask_ok = False, ask_answer = [],
            ask_error = ''tool call did not succeed: '' @ resp_message r\<rparr>
      else case complete \<lparr>mr_prompt = prompt, mr_evidence = resp_evidence r\<rparr> of
             Inr answer \<Rightarrow> \<lparr>ask_ok = True, ask_answer = answer, ask_error = []\<rparr>
           | Inl e \<Rightarrow> \<lparr>ask_ok = False, ask_answer = [],
               ask_error = (if is_std_exception e then what (json_what jl) e
                            else ''model failed with unknown exception'')\<rparr>)"

lemma model_failed_survives:
  assumes "checks_utf8 (env_json env)" "\<And>n. env_disk env n = DiskOk" "valid_utf8 actor" "request_survives (env_json env) q"
    and "survives 2048 prompt" "refs_survive (env_json env) es" "survives 2048 (what (json_what (env_json env)) e)"
  shows "\<exists>st'. model_failed env path prompt q actor es e st = (Inr \<lparr>ask_ok = False, ask_answer = [],
    ask_error = (if is_std_exception e then what (json_what (env_json env)) e
                 else ''model failed with unknown exception'')\<rparr>, st')"
proof -
  define msg where "msg = (if is_std_exception e then what (json_what (env_json env)) e
    else ''model failed with unknown exception'')"
  define err where "err = (if is_std_exception e then bound_audit_string msg else msg)"
  have "valid_utf8 err" using assms(7) by (simp add: err_def msg_def)
  then obtain ds where "model_error_details (env_json env) prompt q err es = Inr ds" "valid_map ds"
    using model_details_valid(3) [OF assms(1,4,5,6)] by blast
  then obtain st' where "emit env path actor ''model.error'' (bound_audit_string prompt)
      (model_error_details (env_json env) prompt q err es) st = (Inr (), st')"
    using emit_valid [OF assms(1-3), of "''model.error''" "bound_audit_string prompt"] assms(5) by force
  then show ?thesis
    unfolding model_failed_def Let_def msg_def [symmetric] err_def [symmetric] by simp
qed

lemma ask_model_survives:
  assumes "checks_utf8 (env_json env)" "\<And>n. env_disk env n = DiskOk"
    and "valid_utf8 actor" "request_survives (env_json env) q" "survives 2048 prompt" "model_survives (env_json env) complete"
    and "resp_status r = Ok" "refs_survive (env_json env) (resp_evidence r)"
  shows "fst (ask_model env path complete prompt q actor (resp_evidence r) st)
    = Inr (answer_of (env_json env) complete prompt r)"
proof (cases "complete \<lparr>mr_prompt = prompt, mr_evidence = resp_evidence r\<rparr>")
  case (Inl e)
  then have "survives 2048 (what (json_what (env_json env)) e)"
    using assms(6) by (auto simp: model_survives_def split: sum.splits)
  from model_failed_survives [OF assms(1-5,8) this, of path st] Inl assms(7) show ?thesis
    by (auto simp: ask_model_def answer_of_def)
next
  case (Inr answer)
  then have "survives 2048 answer" using assms(6) by (auto simp: model_survives_def split: sum.splits)
  then have "valid_map (model_response_details q answer)"
    by (rule model_details_valid(4) [OF assms(1,4,5,8)])
  then have "\<exists>st'. emit env path actor ''model.response'' ''model response received''
      (Inr (model_response_details q answer)) st = (Inr (), st')"
    by (intro emit_valid [OF assms(1-3)]) simp_all
  with Inr assms(7) show ?thesis by (auto simp: ask_model_def answer_of_def)
qed

lemma ask_with_tool_survives:
  assumes "checks_utf8 (env_json env)" "\<And>n. env_disk env n = DiskOk"
    and "valid_utf8 actor" "request_survives (env_json env) q" "survives 2048 prompt" "model_survives (env_json env) complete"
    and "r = tool_outcome (env_json env) svc m q" "survives 2048 (resp_message r)" "refs_survive (env_json env) (resp_evidence r)"
  shows "fst (ask_with_tool env svc m complete prompt q actor st) = Inr (answer_of (env_json env) complete prompt r)"
proof -
  obtain st1 where call: "call_tool env svc m q actor st = (Inr r, st1)"
    using call_tool_survives [OF assms(1-4,7-9)] by blast
  have emits: "\<exists>st''. emit env p actor ty summ details st' = (Inr (), st'')"
    if "valid_utf8 ty" "valid_utf8 summ" "\<exists>ds. details = Inr ds \<and> valid_map ds" for p ty summ details st'
    using emit_valid [OF assms(1-3)] that by blast
  have skipped: "\<exists>st''. emit env p actor ''model.skipped'' (bound_audit_string prompt)
      (model_skipped_details (env_json env) prompt q r) st' = (Inr (), st'')" for p st'
    using model_details_valid(2) [OF assms(1,4,5,9,8)] assms(5) by (intro emits) simp_all
  have asked: "\<exists>st''. emit env p actor ''model.request'' (bound_audit_string prompt)
      (model_context_details (env_json env) prompt q (resp_evidence r)) st' = (Inr (), st'')" for p st'
    using model_details_valid(1) [OF assms(1,4,5,9)] assms(5) by (intro emits) simp_all
  have "fst (ask_model env p complete prompt q actor (resp_evidence r) st')
      = Inr (answer_of (env_json env) complete prompt r)" if "resp_status r = Ok" for p st'
    using that by (intro ask_model_survives [OF assms(1-6)] assms(9))
  moreover have "fst (ask_with_tool env svc m complete prompt q actor st)
      = Inr (answer_of (env_json env) complete prompt r)" if "resp_status r \<noteq> Ok"
    using skipped [of "svc_audit_path svc" st1] call that by (auto simp: ask_with_tool_def Let_def answer_of_def)
  ultimately show ?thesis
    using call asked [of "svc_audit_path svc" st1]
    by (cases "resp_status r = Ok") (auto simp: ask_with_tool_def Let_def)
qed

text \<open>
  C16: No answer is lost to its own audit as long as the texts survive it. With a JSON library that prints exactly
  the values whose strings are UTF-8 and an audit log that can be written, \<open>call_tool\<close> returns the tool's response
  and \<open>ask_with_tool\<close> the refusal, the model's answer or the message of its failure, if every text of the
  request, the prompt, the response, its evidence and the model's answer is valid UTF-8 and is either ASCII or,
  once redacted, within the limit it is bounded to. The bodies of the evidence may be any bytes.
\<close>

theorem utf8_sessions_answer:
  assumes "checks_utf8 (env_json env)" "\<And>n. env_disk env n = DiskOk"
    and "valid_utf8 actor" "request_survives (env_json env) q" "survives 2048 prompt" "model_survives (env_json env) complete"
    and "r = tool_outcome (env_json env) svc m q" "survives 2048 (resp_message r)" "refs_survive (env_json env) (resp_evidence r)"
  shows "fst (call_tool env svc m q actor st) = Inr r
     \<and> fst (ask_with_tool env svc m complete prompt q actor st) = Inr (answer_of (env_json env) complete prompt r)"
  using call_tool_survives [OF assms(1-4,7-9), of st] ask_with_tool_survives [OF assms, of st] by fastforce

text \<open>The response to such a question can be printed.\<close>

lemma all_strings_assign:
  "all_strings P (JObject m) \<Longrightarrow> P k \<Longrightarrow> all_strings P v \<Longrightarrow> all_strings P (json_assign k v (JObject m))"
  using set_smap_assign [of k v m] by (auto dest: subsetD)

lemma ask_response_valid:
  assumes "valid_utf8 i" "valid_utf8 answer" "valid_utf8 err"
  shows "all_strings valid_utf8 (make_ask_response i okay answer err)"
proof -
  let ?response = "json_object [(''id'', JString i), (''ok'', JBool okay)]"
  have "all_strings valid_utf8 ?response" using assms by simp
  then have "all_strings valid_utf8 (json_assign k (JString v) ?response)" if "valid_utf8 k" "valid_utf8 v" for k v
    unfolding json_object_def using that by (intro all_strings_assign) simp_all
  with assms show ?thesis by (cases okay) (simp_all add: make_ask_response_def Let_def)
qed

lemma answer_of_valid:
  assumes "survives 2048 (resp_message r)" "model_survives jl complete"
  shows "valid_utf8 (ask_answer (answer_of jl complete prompt r))" "valid_utf8 (ask_error (answer_of jl complete prompt r))"
proof -
  let ?mr = "\<lparr>mr_prompt = prompt, mr_evidence = resp_evidence r\<rparr>"
  have "valid_utf8 (''tool call did not succeed: '' @ resp_message r)"
    using assms(1) by (subst valid_utf8_append) (simp_all add: survives_def)
  moreover have "case complete ?mr of Inr answer \<Rightarrow> valid_utf8 answer | Inl e \<Rightarrow> valid_utf8 (what (json_what jl) e)"
    using spec [OF assms(2) [unfolded model_survives_def], of ?mr] by (auto simp: survives_def split: sum.splits)
  ultimately show "valid_utf8 (ask_answer (answer_of jl complete prompt r))"
    "valid_utf8 (ask_error (answer_of jl complete prompt r))"
    by (auto simp: answer_of_def split: sum.splits)
qed

section \<open>A character that is cut\<close>

lemma all_strings_member:
  assumes "all_strings P (json_object kvs)" "map_of kvs k = Some v"
  shows "all_strings P v"
proof -
  have "map_of (smap_of kvs) k = Some v" using smap_find_of [of kvs k] assms(2) by (simp add: smap_find_def)
  then have "(k, v) \<in> set (smap_of kvs)" by (rule map_of_SomeD)
  with assms(1) show ?thesis by (auto simp: json_object_def)
qed

lemma emit_invalid:
  assumes "checks_utf8 (env_json env)" "\<not> valid_utf8 summ"
  shows "\<exists>e. fst (emit env path actor ty summ details st) = Inl e"
proof (cases details)
  case (Inl e)
  then show ?thesis by (simp add: emit_def)
next
  case (Inr ds)
  have "all_strings P (JString summ)" if "all_strings P (audit_to_json (new_event env st actor ty summ ds))" for P
    using that unfolding audit_to_json_def
    by (rule all_strings_member [where k = "''summary''"]) (simp add: new_event_def)
  with assms(2) have "\<not> all_strings valid_utf8 (audit_to_json (new_event env st actor ty summ ds))"
    by fastforce
  with assms(1) obtain e where "json_dump (env_json env) (audit_to_json (new_event env st actor ty summ ds)) = Inl e"
    unfolding checks_utf8_def by (metis old.sum.exhaust)
  with Inr show ?thesis by (simp add: emit_def audit_append_def audit_record_def bind_result_def)
qed

text \<open>A prompt of 2055 bytes, valid UTF-8, whose one character beyond ASCII has its first byte at the limit.\<close>

definition long_prompt :: "string" where
  "long_prompt = replicate 2033 (CHR ''x'') @ [char_of (0xC3 :: nat), char_of (0xA9 :: nat)] @ replicate 20 (CHR ''x'')"

lemma long_prompt_valid: "valid_utf8 long_prompt"
proof -
  have "ascii (replicate n (CHR ''x''))" for n by (simp add: ascii_def)
  then show ?thesis
    by (simp add: long_prompt_def valid_utf8_append ascii_valid_utf8 valid_utf8.simps(2) utf8_head_def continuation_def
       )
qed

lemma long_prompt_cut: "\<not> valid_utf8 (bound_audit_string long_prompt)"
proof -
  let ?p = "replicate 2033 (CHR ''x'')"
  have a: "ascii ?p" by (simp add: ascii_def)
  have "redact_likely_secret long_prompt = long_prompt"
    by (rule redact_no_separator) (auto simp: long_prompt_def char_eq_of_char)
  then have "bound_audit_string long_prompt = ?p @ char_of (0xC3 :: nat) # audit_marker"
    by (simp add: bound_audit_string_def bound_string_def Let_def long_prompt_def substr_def
       )
  with a show ?thesis
    by (simp add: valid_utf8_append valid_utf8.simps(2) utf8_head_def continuation_def audit_marker_def
       )
qed

text \<open>Whatever the tool and the model say, this valid prompt is never answered.\<close>

lemma long_prompt_loses_the_answer:
  assumes "checks_utf8 (env_json env)"
  shows "\<exists>e. fst (ask_with_tool env svc m complete long_prompt q actor st) = Inl e"
proof -
  have no: "\<nexists>st''. emit env p actor ty (bound_audit_string long_prompt) ds st' = (Inr (), st'')" for p ty ds st'
    using emit_invalid [OF assms long_prompt_cut, of p actor ty ds st'] by (metis Inl_Inr_False fst_conv)
  obtain x st1 where call: "call_tool env svc m q actor st = (x, st1)" by force
  show ?thesis
  proof (cases x)
    case (Inl e)
    with call show ?thesis by (simp add: ask_with_tool_def)
  next
    case (Inr r)
    with call no show ?thesis by (auto simp: ask_with_tool_def Let_def split: prod.splits sum.splits)
  qed
qed

section \<open>Instances\<close>

text \<open>A library that prints every byte as two letters, so that all it prints is ASCII.\<close>

fun letters :: "string \<Rightarrow> string" where
  "letters [] = []"
| "letters (c # s) =
     char_of (97 + of_char c div 16 :: nat) # char_of (97 + of_char c mod 16 :: nat) # letters s"

fun unletters :: "string \<Rightarrow> string" where
  "unletters (a # b # s) = char_of ((of_char a - 97) * 16 + (of_char b - 97) :: nat) # unletters s"
| "unletters _ = []"

lemma letter_code:
  "(97 + of_char c div 16) mod 256 = (97 + of_char c div 16 :: nat)" "of_char c div 16 < (16 :: nat)"
  "of_char c mod 16 < (16 :: nat)"
proof -
  have "(of_char c :: nat) < 256" using mod_less_divisor [of 256 "of_char c :: nat"] by simp
  then show "of_char c div 16 < (16 :: nat)" by (simp add: div_less_iff_less_mult)
  then show "(97 + of_char c div 16) mod 256 = (97 + of_char c div 16 :: nat)" by simp
qed simp

lemma unletters_letters: "unletters (letters s) = s"
  by (induction s) (simp_all add: letter_code)

lemma letters_plain: "ascii (letters s)" "newline \<notin> set (letters s)" "length (letters s) = 2 * length s"
proof (induction s)
  case (Cons c s)
  have "97 + of_char c div 16 < (128 :: nat)" "97 + of_char c mod 16 < (128 :: nat)"
    using letter_code(2,3) [of c] by simp_all
  with Cons show "ascii (letters (c # s))" "newline \<notin> set (letters (c # s))"
    "length (letters (c # s)) = 2 * length (c # s)"
    by (simp_all add: of_char_ascii letter_code(1) char_eq_of_char)
qed simp_all

definition utf8_json_lib :: json_lib where
  "utf8_json_lib = model_json_lib
     \<lparr>json_dump := (\<lambda>j. if all_strings valid_utf8 j then Inr (letters (print_json j []))
        else Inl (JsonExn JsonInvalidUtf8)),
      json_parse := (\<lambda>s. json_parse model_json_lib (unletters s))\<rparr>"

lemma utf8_json_lib_checks: "checks_utf8 utf8_json_lib" "dump_survives utf8_json_lib j"
  by (auto simp: checks_utf8_def utf8_json_lib_def dump_survives_def letters_plain)

lemma utf8_json_lib_reads_back: "json_dump utf8_json_lib j = Inr s \<Longrightarrow> json_parse utf8_json_lib s = Inr j"
  using model_json_lib_laws(2) [of j] model_json_lib_laws(1) [of j]
  by (auto simp: utf8_json_lib_def unletters_letters split: if_splits)

definition coffee :: "string" where
  "coffee = ''caf'' @ [char_of (0xC3 :: nat), char_of (0xA9 :: nat)]"

lemma coffee_survives: "survives 2048 coffee"
proof -
  have "redact_likely_secret coffee = coffee"
    by (rule redact_no_separator) (auto simp: coffee_def char_eq_of_char)
  then show ?thesis
    by (simp add: survives_def coffee_def valid_utf8.simps(2) utf8_head_def continuation_def)
qed

lemma utf8_sessions_answer_witness:
  "fst (ask_with_tool (sample_env\<lparr>env_json := utf8_json_lib\<rparr>) sample_service () (\<lambda>_. Inr coffee) coffee
     sample_request ''cli'' sample_state) = Inr \<lparr>ask_ok = True, ask_answer = coffee, ask_error = []\<rparr>"
proof -
  let ?env = "sample_env\<lparr>env_json := utf8_json_lib\<rparr>" and ?model = "\<lambda>_. Inr coffee"
  have "fst (ask_with_tool ?env sample_service () ?model coffee sample_request ''cli'' sample_state)
      = Inr (answer_of (env_json ?env) ?model coffee sample_response)"
  proof (rule utf8_sessions_answer [THEN conjunct2])
    show "sample_response = tool_outcome (env_json ?env) sample_service () sample_request"
      by (simp only: sample_outcome)
  qed (simp_all add: sample_env_def utf8_json_lib_checks request_survives_def sample_request_def
      model_survives_def sample_response_def refs_survive_def coffee_survives)
  then show ?thesis by (simp add: answer_of_def sample_response_def)
qed

end
