(* ===== verification/Daemon_Robustness.thy ===== *)
theory Daemon_Robustness
  imports Kaslid Socket_Bounds Text_Encoding
begin

text \<open>
  The daemon of \<open>src/kaslid/main.cpp\<close> against its clients: no connection stops it, and no connection can tell
  from its reply which other connections were served. The first follows from what leaves \<open>accept_one\<close> and
  \<open>handle_request\<close>; the second compares two runs, step by step from \<open>emit\<close> to \<open>serve\<close>.
\<close>

section \<open>Replies do not depend on the state\<close>

text \<open>
  A library that prints a value exactly if its strings are UTF-8, fails with its own exception otherwise, and a
  disk that takes every record.
\<close>

definition steady_env :: "session_env \<Rightarrow> bool" where
  "steady_env env \<longleftrightarrow> checks_utf8 (env_json env)
     \<and> (\<forall>j e. json_dump (env_json env) j = Inl e \<longrightarrow> e = JsonExn JsonInvalidUtf8)
     \<and> (\<forall>n. env_disk env n = DiskOk)"

lemma steady_std:
  assumes "steady_env env" "json_dump (env_json env) j = Inl e"
  shows "is_std_exception e"
proof -
  have "e = JsonExn JsonInvalidUtf8" using assms unfolding steady_env_def by blast
  then show ?thesis by simp
qed

lemma audit_event_strings:
  assumes "ascii (ae_id e)" "ascii (ae_timestamp e)"
  shows "all_strings valid_utf8 (audit_to_json e) \<longleftrightarrow>
     valid_utf8 (ae_actor e) \<and> valid_utf8 (ae_type e) \<and> valid_utf8 (ae_summary e)
     \<and> all_strings valid_utf8 (json_string_map (ae_details e))"
proof
  assume all: "all_strings valid_utf8 (audit_to_json e)"
  note member = all_strings_member [OF all [unfolded audit_to_json_def]]
  show "valid_utf8 (ae_actor e) \<and> valid_utf8 (ae_type e) \<and> valid_utf8 (ae_summary e)
     \<and> all_strings valid_utf8 (json_string_map (ae_details e))"
    using member [of "''actor''"] member [of "''type''"] member [of "''summary''"] member [of "''details''"] by simp
next
  assume "valid_utf8 (ae_actor e) \<and> valid_utf8 (ae_type e) \<and> valid_utf8 (ae_summary e)
     \<and> all_strings valid_utf8 (json_string_map (ae_details e))"
  with assms show "all_strings valid_utf8 (audit_to_json e)" by (simp add: audit_to_json_def)
qed

lemma audit_record_result:
  assumes "steady_env env"
  shows "(\<exists>r. audit_record (env_json env) (new_event env st actor ty summ ds) = Inr r) \<longleftrightarrow>
     valid_utf8 actor \<and> valid_utf8 ty \<and> valid_utf8 summ \<and> all_strings valid_utf8 (json_string_map ds)"
proof -
  have "(\<exists>r. json_dump (env_json env) (audit_to_json (new_event env st actor ty summ ds)) = Inr r) \<longleftrightarrow>
     all_strings valid_utf8 (audit_to_json (new_event env st actor ty summ ds))"
    using assms unfolding steady_env_def checks_utf8_def by blast
  then show ?thesis
    by (simp add: audit_record_def audit_event_strings bind_result_eq_Inr new_event_def)
qed

lemma emit_result:
  assumes "steady_env env"
  shows "fst (emit env path actor ty summ details st) = (case details of Inl e \<Rightarrow> Inl e
     | Inr ds \<Rightarrow> if valid_utf8 actor \<and> valid_utf8 ty \<and> valid_utf8 summ \<and> all_strings valid_utf8 (json_string_map ds)
         then Inr () else Inl (JsonExn JsonInvalidUtf8))"
proof (cases details)
  case (Inr ds)
  note r = audit_record_result [OF assms, of st actor ty summ ds]
  show ?thesis
  proof (cases "audit_record (env_json env) (new_event env st actor ty summ ds)")
    case (Inl e)
    then have "e = JsonExn JsonInvalidUtf8"
      using assms by (auto simp: audit_record_def bind_result_eq_Inl steady_env_def)
    with Inl r \<open>details = Inr ds\<close> show ?thesis by (simp add: emit_def audit_append_def)
  next
    case (Inr l)
    with r assms \<open>details = Inr ds\<close> show ?thesis by (simp add: emit_def audit_append_def steady_env_def)
  qed
qed (simp add: emit_def)

lemma emit_stateless:
  "steady_env env \<Longrightarrow> fst (emit env path actor ty summ details st) = fst (emit env path actor ty summ details st')"
  by (simp only: emit_result)

lemma call_tool_stateless:
  "steady_env env \<Longrightarrow> fst (call_tool env svc m q actor st) = fst (call_tool env svc m q actor st')"
  by (simp add: call_tool_def Let_def case_prod_unfold emit_result)

lemma model_failed_stateless:
  "steady_env env \<Longrightarrow> fst (model_failed env path p q actor es e st) = fst (model_failed env path p q actor es e st')"
  by (simp add: model_failed_def Let_def case_prod_unfold emit_result)

text \<open>Sequencing: a step whose result does not depend on the state, then one that does not either.\<close>

lemma fst_bind_state:
  assumes "fst x = fst y"
    and "\<And>e s s'. fst (f e s) = fst (f e s')" "\<And>a s s'. fst (g a s) = fst (g a s')"
  shows "fst (case x of (Inl e, s) \<Rightarrow> f e s | (Inr a, s) \<Rightarrow> g a s)
    = fst (case y of (Inl e, s) \<Rightarrow> f e s | (Inr a, s) \<Rightarrow> g a s)"
proof -
  obtain r s s' where "x = (r, s)" "y = (r, s')" using assms(1) by (metis prod.collapse)
  then show ?thesis using assms(2,3) by (auto split: sum.split)
qed

lemma ask_model_stateless:
  "steady_env env \<Longrightarrow> fst (ask_model env path complete p q actor es st) = fst (ask_model env path complete p q actor es st')"
  unfolding ask_model_def
  by (auto split: sum.split intro: model_failed_stateless intro!: fst_bind_state emit_stateless)

lemma ask_with_tool_stateless:
  assumes "steady_env env"
  shows "fst (ask_with_tool env svc m complete p q actor st) = fst (ask_with_tool env svc m complete p q actor st')"
  unfolding ask_with_tool_def Let_def
  by (intro fst_bind_state call_tool_stateless assms)
    (auto intro!: fst_bind_state emit_stateless ask_model_stateless assms)

lemma handle_method_stateless:
  assumes "steady_env env"
  shows "fst (handle_method env svc m complete i request st) = fst (handle_method env svc m complete i request st')"
  unfolding handle_method_def Let_def audit_protocol_error_def
  by (auto split: sum.split
      intro!: fst_bind_state emit_stateless call_tool_stateless ask_with_tool_stateless assms)

lemma handle_try_stateless:
  assumes "steady_env env"
  shows "fst (snd (handle_try env svc m complete input st)) = fst (snd (handle_try env svc m complete input st'))"
  using handle_method_stateless [OF assms] by (auto simp: handle_try_def split: sum.split)

lemma handle_request_stateless:
  assumes "steady_env env"
  shows "fst (handle_request env svc m complete input st) = fst (handle_request env svc m complete input st')"
proof -
  let ?i = "request_id (env_json env) input"
  obtain r st1 st2 where "handle_try env svc m complete input st = (?i, r, st1)"
    "handle_try env svc m complete input st' = (?i, r, st2)"
    using handle_try_id [of env svc m complete input] handle_try_stateless [OF assms] by (metis prod.collapse)
  then show ?thesis
    unfolding handle_request_def audit_protocol_error_def Let_def
    by (auto split: sum.split intro!: fst_bind_state emit_stateless assms)
qed

section \<open>Every connection is served\<close>

text \<open>
  A connection that ends, as in \<open>connections_end\<close>: \<open>accept\<close> reports something, and more reads and sends than a line
  is long are completed, in success or in error.
\<close>

definition ends :: "connection \<Rightarrow> bool" where
  "ends cn \<longleftrightarrow> (\<exists>ready \<in> set (cn_accept cn). ready \<noteq> Some EINTR \<and> ready \<noteq> Some EAGAIN)
     \<and> 1024 * 1024 < completed_reads cn \<and> 1024 * 1024 < completed_sends cn"

text \<open>What a peer receives if it is served by a daemon in a given state.\<close>

definition receives ::
  "(errno \<Rightarrow> string) \<Rightarrow> nat \<Rightarrow> ('h \<Rightarrow> string \<Rightarrow> 's \<Rightarrow> string result \<times> 's) \<Rightarrow> 's \<Rightarrow> connection \<times> 'h \<Rightarrow> string" where
  "receives se euid handler s round =
     (case round of (cn, h) \<Rightarrow> fst (snd (accept_one se euid cn (handler h) s)))"

lemma ends_returns: "ends cn \<Longrightarrow> fst (accept_one se euid cn handler s) \<noteq> None"
  unfolding ends_def by (elim conjE bexE) (rule accept_one_returns)

lemma accept_one_stateless:
  fixes handler :: "string \<Rightarrow> 'a \<Rightarrow> string result \<times> 'a"
  assumes "\<And>request. fst (handler request s) = fst (handler request s')"
  shows "fst (accept_one se euid cn handler s) = fst (accept_one se euid cn handler s')"
    "fst (snd (accept_one se euid cn handler s)) = fst (snd (accept_one se euid cn handler s'))"
proof -
  define respond :: "string result \<times> 'a \<Rightarrow> unit result option \<times> string \<times> 'a" where
    "respond x = (case x of (Inl e, t) \<Rightarrow> (Some (Inl e), [], t)
       | (Inr response, t) \<Rightarrow> let (res, sent) = write_line se (cn_sends cn) response in (res, sent, t))" for x
  have "fst (respond (handler request s)) = fst (respond (handler request s'))
      \<and> fst (snd (respond (handler request s))) = fst (snd (respond (handler request s')))" for request
    using assms [of request]
    by (cases "handler request s"; cases "handler request s'")
      (auto simp: respond_def Let_def split: sum.split prod.split)
  then have "fst (accept_one se euid cn handler s) = fst (accept_one se euid cn handler s')
      \<and> fst (snd (accept_one se euid cn handler s)) = fst (snd (accept_one se euid cn handler s'))"
    unfolding accept_one_def respond_def by (auto split: option.split sum.split)
  then show "fst (accept_one se euid cn handler s) = fst (accept_one se euid cn handler s')"
    "fst (snd (accept_one se euid cn handler s)) = fst (snd (accept_one se euid cn handler s'))"
    by blast+
qed

text \<open>What leaves \<open>accept_one\<close> is a \<open>std::exception\<close>, if that holds of the handler.\<close>

lemma accept_loop_std: "accept_loop se outs = Some (Inl e) \<Longrightarrow> is_std_exception e"
  by (induction se outs rule: accept_loop.induct) (auto simp: syscall_error_def split: if_splits)

lemma scan_buffer_std: "scan_buffer role coll buf = Inl e \<Longrightarrow> is_std_exception e"
  by (induction role coll buf rule: scan_buffer.induct) (auto split: if_splits)

lemma read_loop_std: "read_loop se role outs coll = Some (Inl e) \<Longrightarrow> is_std_exception e"
  by (induction se role outs coll rule: read_loop.induct)
    (auto simp: syscall_error_def split: if_splits sum.splits dest: scan_buffer_std)

lemma accept_one_std:
  assumes "\<And>request e s'. handler request s = (Inl e, s') \<Longrightarrow> is_std_exception e"
    and "accept_one se euid cn handler s = (Some (Inl e), sent, s')"
  shows "is_std_exception e"
  using assms(2)
  by (auto simp: accept_one_def read_line_def bind_result_eq_Inl validate_same_uid_peer_def
      prepare_defs syscall_error_def
      split: option.splits sum.splits if_splits prod.splits
      dest: accept_loop_std read_loop_std assms(1) write_line_std)


section \<open>A whole run\<close>

text \<open>
  Without \<open>--once\<close> the loop serves every connection, if the exceptions of the handler are standard ones;
  \<open>serves\<close> says which states the connections are served in.
\<close>

lemma serve_all:
  assumes std: "\<And>h request s e s'. handler h request s = (Inl e, s') \<Longrightarrow> is_std_exception e"
    and "\<forall>(cn, h) \<in> set rounds. ends cn"
  shows "\<exists>ss errs s'. length ss = length rounds
     \<and> serve wh se euid handler False rounds s
       = (Serving, map2 (\<lambda>s round. receives se euid handler s round) ss rounds, errs, s')"
  using assms(2)
proof (induction rounds arbitrary: s)
  case (Cons round rounds)
  obtain cn h where round: "round = (cn, h)" by force
  obtain res sent s1 where a: "accept_one se euid cn (handler h) s = (Some res, sent, s1)"
    using ends_returns [of cn se euid "handler h" s] Cons.prems round
    by (metis (no_types, lifting) case_prod_conv list.set_intros(1) not_None_eq prod.collapse)
  have "\<exists>ss errs s'. length ss = length rounds \<and> serve wh se euid handler False rounds s1
       = (Serving, map2 (\<lambda>s round. receives se euid handler s round) ss rounds, errs, s')"
    by (rule Cons.IH) (use Cons.prems in simp)
  then obtain ss errs s' where rest: "length ss = length rounds"
    "serve wh se euid handler False rounds s1
       = (Serving, map2 (\<lambda>s round. receives se euid handler s round) ss rounds, errs, s')" by blast
  have "is_std_exception e" if "res = Inl e" for e
    using accept_one_std [OF std a [unfolded that]] .
  then show ?case
    using rest a round
    by (intro exI [of _ "s # ss"] exI [of _ "case res of Inl e \<Rightarrow> (wh e @ [newline]) # errs | Inr _ \<Rightarrow> errs"] exI [of _ s'])
      (auto simp: receives_def split: sum.split)
qed simp

text \<open>At most one line, and nothing behind it.\<close>

definition one_line :: "string \<Rightarrow> bool" where
  "one_line sent \<longleftrightarrow> newline \<notin> set (butlast sent)"

lemma write_line_one_line: "one_line (snd (write_line se outs x))"
proof (cases "line_payload x")
  case True
  have "prefix (snd (write_line se outs x)) (x @ [newline])" by (rule socket.sends_prefix)
  then have "set (butlast (snd (write_line se outs x))) \<subseteq> set x"
    by (auto simp: prefix_snoc dest: set_mono_prefix in_set_butlastD)
  with True show ?thesis by (auto simp: one_line_def line_payload_def)
next
  case False
  then obtain e where "write_line se outs x = (Some (Inl e), [])" using socket.refuses by blast
  then show ?thesis by (simp add: one_line_def)
qed

lemma receives_one_line: "one_line (receives se euid handler s round)"
  using write_line_one_line
  by (auto simp: receives_def accept_one_def one_line_def case_prod_unfold Let_def split: option.split sum.split)

lemma receives_nothing: "cn_peer cn \<noteq> Inr (True, euid) \<Longrightarrow> receives se euid handler s (cn, h) = []"
  by (auto simp: receives_def accept_one_def validate_same_uid_peer_def bind_result_def
      split: option.split sum.split prod.split)

text \<open>
  C7: No connection stops the daemon. Without \<open>--once\<close>, whatever the connections do \<dash> calls that fail, peers of
  other users, lines that are too long, cut off or no JSON, peers that stop reading, exceptions of tools, of the
  model and of the audit log \<dash> as long as their system calls return, the loop serves all of them and goes on;
  each peer receives at most one line, and a peer whose credentials are not the daemon's user's receives nothing.
  The JSON library is assumed to throw its own exceptions only.
\<close>

theorem no_connection_stops_the_daemon:
  assumes "\<And>j e. json_dump (env_json (de_session env)) j = Inl e \<Longrightarrow> is_std_exception e"
    and "\<And>s e. json_parse (env_json (de_session env)) s = Inl e \<Longrightarrow> is_std_exception e"
    and "\<forall>(cn, h) \<in> set rounds. ends cn"
  shows "\<exists>sents errs st'.
       serve wh se euid (daemon_handler env svc complete) False rounds st = (Serving, sents, errs, st')
     \<and> list_all2 (\<lambda>(cn, h) sent. one_line sent \<and> (cn_peer cn \<noteq> Inr (True, euid) \<longrightarrow> sent = [])) rounds sents"
proof -
  let ?handler = "daemon_handler env svc complete"
  have std: "is_std_exception e" if "?handler h request s = (Inl e, s')" for h request s e s'
    by (rule handle_request_std [OF assms(1,2) that [unfolded daemon_handler_def]])
  have "\<exists>ss errs st'. length ss = length rounds
     \<and> serve wh se euid ?handler False rounds st = (Serving, map2 (receives se euid ?handler) ss rounds, errs, st')"
    by (rule serve_all [OF _ assms(3)]) (rule std)
  then obtain ss errs st' where s: "length ss = length rounds"
    "serve wh se euid ?handler False rounds st = (Serving, map2 (receives se euid ?handler) ss rounds, errs, st')"
    by blast
  have "list_all2 (\<lambda>(cn, h) sent. one_line sent \<and> (cn_peer cn \<noteq> Inr (True, euid) \<longrightarrow> sent = []))
      rounds (map2 (receives se euid ?handler) ss rounds)"
    using s(1) by (induction ss rounds rule: list_induct2)
      (auto simp: receives_one_line receives_nothing)
  with s(2) show ?thesis by blast
qed

text \<open>
  C8: The daemon's replies do not remember earlier connections. If every record can be printed whose strings are
  UTF-8 and the disk takes every record, then what each peer receives in a run of the daemon without \<open>--once\<close> is
  exactly what it receives from a daemon that is in any other state and has served nobody: no answer depends on
  the requests, evidence or secrets of another connection, or on the audit log.
\<close>

theorem replies_do_not_remember:
  assumes "steady_env (de_session env)"
    and "\<And>s e. json_parse (env_json (de_session env)) s = Inl e \<Longrightarrow> is_std_exception e"
    and "\<forall>(cn, h) \<in> set rounds. ends cn"
  shows "\<exists>errs st'. serve wh se euid (daemon_handler env svc complete) False rounds st
     = (Serving, map (receives se euid (daemon_handler env svc complete) fresh) rounds, errs, st')"
proof -
  let ?handler = "daemon_handler env svc complete"
  have std: "is_std_exception e" if "?handler h request s = (Inl e, s')" for h request s e s'
    by (rule handle_request_std [OF steady_std [OF assms(1)] assms(2) that [unfolded daemon_handler_def]])
  have "\<exists>ss errs st'. length ss = length rounds
     \<and> serve wh se euid ?handler False rounds st = (Serving, map2 (receives se euid ?handler) ss rounds, errs, st')"
    by (rule serve_all [OF _ assms(3)]) (rule std)
  then obtain ss errs st' where s: "length ss = length rounds"
    "serve wh se euid ?handler False rounds st = (Serving, map2 (receives se euid ?handler) ss rounds, errs, st')"
    by blast
  have same: "receives se euid ?handler s round = receives se euid ?handler fresh round" for s round
    unfolding receives_def daemon_handler_def
    by (cases round) (simp, rule accept_one_stateless(2), rule handle_request_stateless [OF assms(1)])
  have "map2 (receives se euid ?handler) ss rounds = map (receives se euid ?handler fresh) rounds"
    by (rule nth_equalityI) (auto simp: s(1) intro: same)
  with s(2) show ?thesis by simp
qed

text \<open>
  A reply of more than 1 MiB, such as a long answer of the model, is lost: \<open>write_line\<close> refuses it after the session
  has audited the request as answered, and the peer sees its connection end without a byte.
\<close>

lemma oversized_reply_is_lost:
  assumes "carries se euid cn request" "handler request s = (Inr reply, s')" "max_line < length reply"
  shows "accept_one se euid cn handler s = (Some (Inl (RuntimeError ''unix socket line is too large'')), [], s')"
proof -
  have "read_line se ''request'' (cn_reads cn) = Some (Inr request)"
    using assms(1) socket.receives_frame unfolding carries_def by blast
  with assms show ?thesis by (simp add: accept_one_def carries_def write_line_def)
qed

section \<open>Instances\<close>

definition foreign_slow_peer :: connection where
  "foreign_slow_peer = sample_slow_peer\<lparr>cn_peer := Inr (True, 7)\<rparr>"

lemma slow_peers_end: "ends sample_slow_peer" "ends foreign_slow_peer"
proof -
  have "1024 * 1024 < completed_reads sample_slow_peer" "1024 * 1024 < completed_sends sample_slow_peer"
    by (simp_all only: completed_reads_def completed_sends_def sample_slow_peer_def connection.simps filter_replicate
        length_replicate) simp_all
  then show "ends sample_slow_peer" "ends foreign_slow_peer"
    by (simp_all add: ends_def foreign_slow_peer_def completed_reads_def completed_sends_def)
      (simp_all add: sample_slow_peer_def)
qed

lemma no_connection_stops_the_daemon_witness:
  "\<exists>sent errs st'. serve (\<lambda>e. []) (\<lambda>_. []) 1000
       (daemon_handler sample_daemon_env sample_daemon_service (\<lambda>_. Inr ''fine'')) False
       [(sample_slow_peer, sample_host), (foreign_slow_peer, sample_host)] sample_state
     = (Serving, [sent, []], errs, st')"
proof -
  let ?rounds = "[(sample_slow_peer, sample_host), (foreign_slow_peer, sample_host)]"
  have "\<exists>sents errs st'. serve (\<lambda>e. []) (\<lambda>_. []) 1000
       (daemon_handler sample_daemon_env sample_daemon_service (\<lambda>_. Inr ''fine'')) False ?rounds sample_state
     = (Serving, sents, errs, st')
     \<and> list_all2 (\<lambda>(cn, h) sent. one_line sent \<and> (cn_peer cn \<noteq> Inr (True, 1000) \<longrightarrow> sent = [])) ?rounds sents"
  proof (rule no_connection_stops_the_daemon)
    show "is_std_exception e" if "json_dump (env_json (de_session sample_daemon_env)) j = Inl e" for j e
      using that by (simp add: sample_daemon_env_def cli_env_def model_json_lib_laws)
    show "is_std_exception e" if "json_parse (env_json (de_session sample_daemon_env)) s = Inl e" for s e
      using that by (simp add: sample_daemon_env_def cli_env_def model_json_lib_laws(3))
    show "\<forall>(cn, h) \<in> set ?rounds. ends cn" by (simp add: slow_peers_end)
  qed
  moreover have "cn_peer foreign_slow_peer \<noteq> Inr (True, 1000)" by (simp add: foreign_slow_peer_def)
  ultimately show ?thesis by (auto simp: list_all2_Cons1)
qed

definition utf8_daemon_env :: daemon_env where
  "utf8_daemon_env = sample_daemon_env\<lparr>de_session := cli_env\<lparr>env_json := utf8_json_lib\<rparr>\<rparr>"

lemma utf8_daemon_steady: "steady_env (de_session utf8_daemon_env)"
proof -
  have "\<forall>j e. json_dump utf8_json_lib j = Inl e \<longrightarrow> e = JsonExn JsonInvalidUtf8"
    by (auto simp: utf8_json_lib_def split: if_splits)
  then show ?thesis
    by (simp add: steady_env_def utf8_daemon_env_def cli_env_def utf8_json_lib_checks sample_env_def)
qed

lemma replies_do_not_remember_witness:
  "\<exists>errs st'. serve (\<lambda>e. []) (\<lambda>_. []) 1000
       (daemon_handler utf8_daemon_env sample_daemon_service (\<lambda>_. Inr ''fine'')) False
       [(foreign_slow_peer, sample_host), (sample_slow_peer, sample_host)] sample_state
     = (Serving, [[], receives (\<lambda>_. []) 1000 (daemon_handler utf8_daemon_env sample_daemon_service (\<lambda>_. Inr ''fine''))
          (sample_state\<lparr>ss_log := ''old'', ss_counter := 7\<rparr>) (sample_slow_peer, sample_host)], errs, st')"
proof -
  let ?rounds = "[(foreign_slow_peer, sample_host), (sample_slow_peer, sample_host)]"
    and ?handler = "daemon_handler utf8_daemon_env sample_daemon_service (\<lambda>_. Inr ''fine'')"
    and ?fresh = "sample_state\<lparr>ss_log := ''old'', ss_counter := 7\<rparr>"
  have "\<exists>errs st'. serve (\<lambda>e. []) (\<lambda>_. []) 1000 ?handler False ?rounds sample_state
      = (Serving, map (receives (\<lambda>_. []) 1000 ?handler ?fresh) ?rounds, errs, st')"
  proof (rule replies_do_not_remember)
    show "steady_env (de_session utf8_daemon_env)" by (rule utf8_daemon_steady)
    show "is_std_exception e" if "json_parse (env_json (de_session utf8_daemon_env)) s = Inl e" for s e
      using that by (simp add: utf8_daemon_env_def cli_env_def utf8_json_lib_def model_json_lib_laws(3))
    show "\<forall>(cn, h) \<in> set ?rounds. ends cn" by (simp add: slow_peers_end)
  qed
  then show ?thesis by (simp add: receives_nothing foreign_slow_peer_def)
qed

end
