(* ===== verification/Reply_Encoding.thy ===== *)
theory Reply_Encoding
  imports Daemon_Robustness
begin

text \<open>
  What becomes of evidence bodies on the way to the client. A body may be anything a tool read, and
  \<open>append_bounded\<close> of \<open>src/tools\<close> cuts it at a byte; it does not reach the audit log, but the JSON library prints
  the response only if it is UTF-8. \<open>handle_request\<close> of \<open>src/kaslid/main.cpp\<close> answers with an error then.
\<close>

section \<open>A body that is cut\<close>

lemma marker_ascii: "ascii truncation_marker"
  by (simp add: truncation_marker_def ascii_def)

lemma clip_utf8:
  "valid_utf8 s \<Longrightarrow> valid_utf8 (clip cap s) \<longleftrightarrow>
     length s \<le> cap \<or> valid_utf8 (take (cap - length truncation_marker) s)"
proof -
  have "valid_utf8 (u @ truncation_marker) \<longleftrightarrow> valid_utf8 u" for u
  proof
    assume "valid_utf8 (u @ truncation_marker)"
    then have "valid_utf8 (u @ CHR ''t'' # tl truncation_marker)" by (simp add: truncation_marker_def)
    then show "valid_utf8 u" by (rule valid_utf8_before_ascii) simp
  qed (simp add: valid_utf8_append marker_ascii)
  then show "valid_utf8 s \<Longrightarrow> ?thesis" by (simp add: clip_def)
qed

section \<open>The reply\<close>

lemma evidence_strings:
  "all_strings valid_utf8 (evidence_to_json e) \<longleftrightarrow> valid_utf8 (ev_id e) \<and> valid_utf8 (ev_source e)
     \<and> valid_utf8 (ev_summary e) \<and> valid_utf8 (ev_body e) \<and> valid_utf8 (ev_timestamp e)"
proof
  assume all: "all_strings valid_utf8 (evidence_to_json e)"
  note member = all_strings_member [OF all [unfolded evidence_to_json_def]]
  show "valid_utf8 (ev_id e) \<and> valid_utf8 (ev_source e) \<and> valid_utf8 (ev_summary e) \<and> valid_utf8 (ev_body e)
      \<and> valid_utf8 (ev_timestamp e)"
    using member [of "''id''"] member [of "''source''"] member [of "''summary''"] member [of "''body''"]
      member [of "''timestamp''"] by simp
qed (simp add: evidence_to_json_def)

lemma response_strings:
  assumes "valid_utf8 i" "valid_utf8 (resp_request_id r)" "valid_utf8 (resp_message r)"
    and "\<forall>e \<in> set (resp_evidence r). valid_utf8 (ev_id e) \<and> valid_utf8 (ev_source e) \<and> valid_utf8 (ev_summary e)
      \<and> valid_utf8 (ev_timestamp e)"
  shows "all_strings valid_utf8 (make_tool_call_response i r) \<longleftrightarrow>
     (\<forall>e \<in> set (resp_evidence r). valid_utf8 (ev_body e))"
proof
  assume all: "all_strings valid_utf8 (make_tool_call_response i r)"
  have "all_strings valid_utf8 (response_to_json r)"
    using all_strings_member [OF all [unfolded make_tool_call_response_def], of "''response''"] by simp
  from all_strings_member [OF this [unfolded response_to_json_def], of "''evidence''"]
  show "\<forall>e \<in> set (resp_evidence r). valid_utf8 (ev_body e)" by (simp add: evidence_strings)
next
  assume "\<forall>e \<in> set (resp_evidence r). valid_utf8 (ev_body e)"
  with assms show "all_strings valid_utf8 (make_tool_call_response i r)"
    by (simp add: make_tool_call_response_def response_to_json_def evidence_strings)
qed

lemma dispatched_unprintable_call:
  assumes "i \<noteq> ''unknown''" "json_parse (env_json env) l = Inr (make_tool_call_request i q)"
    and "call_tool env svc m q ''cli'' st = (Inr r, st')"
    and "json_dump (env_json env) (make_tool_call_response i r) = Inl e" "is_std_exception e"
    and "audit_protocol_error env (svc_audit_path svc) i (what (json_what (env_json env)) e) st' = (Inr u, st'')"
  shows "handle_request env svc m complete l st
    = (json_dump (env_json env) (make_error_response i (what (json_what (env_json env)) e)), st'')"
  using assms
  by (simp add: handle_request_def handle_try_def request_id_or_unknown_def make_tool_call_request_def
      handle_method_def request.from_to)

lemma error_response_strings: "valid_utf8 i \<Longrightarrow> valid_utf8 msg \<Longrightarrow> all_strings valid_utf8 (make_error_response i msg)"
  by (simp add: make_error_response_def)

text \<open>
  C17: A tool call is answered whatever the evidence bodies are. With the request, its id and the audited texts within
  the limits of the audit, the reply is the tool's response exactly if every body is UTF-8, and otherwise an error
  under the request's id with the JSON library's message; it never fails, although a body that a tool has cut
  inside a character cannot be printed.
\<close>

theorem tool_call_reply_is_exact:
  assumes "steady_env env" "jl = env_json env"
    and "json_parse jl l = Inr (make_tool_call_request i q)" "i \<noteq> ''unknown''" "valid_utf8 i" "length i \<le> 2048"
    and "request_survives jl q" "r = tool_outcome jl svc m q"
    and "valid_utf8 (resp_request_id r)" "survives 2048 (resp_message r)" "refs_survive jl (resp_evidence r)"
    and "msg = json_what jl JsonInvalidUtf8" "valid_utf8 msg" "length msg \<le> 2048"
  shows "\<exists>reply. fst (handle_request env svc m complete l st) = Inr reply
     \<and> json_dump jl (if \<forall>e \<in> set (resp_evidence r). valid_utf8 (ev_body e)
         then make_tool_call_response i r else make_error_response i msg) = Inr reply"
proof -
  have err: "e = JsonExn JsonInvalidUtf8" if "json_dump jl j = Inl e" for j e
    using assms(1,2) that unfolding steady_env_def by blast
  have checks: "checks_utf8 jl" and disk: "\<And>n. env_disk env n = DiskOk"
    using assms(1,2) unfolding steady_env_def by blast+
  obtain st1 where call: "call_tool env svc m q ''cli'' st = (Inr r, st1)"
    using call_tool_survives [of env "''cli''" q r svc m st] checks disk assms(2,7,8,10,11) by auto
  have strings: "all_strings valid_utf8 (make_tool_call_response i r) \<longleftrightarrow> (\<forall>e \<in> set (resp_evidence r). valid_utf8 (ev_body e))"
    using assms(10,11) by (intro response_strings assms(5,9)) (simp_all add: survives_def refs_survive_def)
  show ?thesis
  proof (cases "\<forall>e \<in> set (resp_evidence r). valid_utf8 (ev_body e)")
    case True
    then obtain reply where "json_dump jl (make_tool_call_response i r) = Inr reply"
      using dumps_utf8 [OF checks] strings by blast
    with True dispatched_call [OF assms(4) _ call] assms(2,3) show ?thesis by simp
  next
    case False
    then obtain e where e: "json_dump jl (make_tool_call_response i r) = Inl e"
      using checks strings unfolding checks_utf8_def by (metis old.sum.exhaust)
    have what: "what (json_what jl) e = msg" "is_std_exception e" using err [OF e] assms(12) by simp_all
    have "daemon_bound_audit_string msg = msg" "daemon_bound_audit_string i = i"
      using assms(6,14) by (simp_all add: daemon_bound_audit_string_def)
    then have "fst (audit_protocol_error env (svc_audit_path svc) i msg st1) = Inr ()"
      using assms(5,13) by (simp add: audit_protocol_error_def emit_result [OF assms(1)])
    then obtain st2 where "audit_protocol_error env (svc_audit_path svc) i msg st1 = (Inr (), st2)"
      by (metis prod.collapse)
    moreover obtain reply where "json_dump jl (make_error_response i msg) = Inr reply"
      using dumps_utf8 [OF checks error_response_strings] assms(5,13) by metis
    ultimately show ?thesis
      using False dispatched_unprintable_call [OF assms(4) _ call] e what assms(2,3) by simp
  qed
qed

section \<open>An instance\<close>

text \<open>
  A tool whose body of 64 KiB and more has a character of two bytes where it is cut. The call succeeds and is
  audited as ok; the client gets an error.
\<close>

definition cut_body :: string where
  "cut_body = clip (64 * 1024)
     (replicate 65520 (CHR ''x'') @ [char_of (0xC3 :: nat), char_of (0xA9 :: nat)] @ replicate 20 (CHR ''x''))"

lemma cut_body_invalid: "\<not> valid_utf8 cut_body"
proof -
  let ?p = "replicate 65520 (CHR ''x'')"
  have a: "ascii ?p" by (simp add: ascii_def)
  then have "valid_utf8 (?p @ [char_of (0xC3 :: nat), char_of (0xA9 :: nat)] @ replicate 20 (CHR ''x''))"
    by (simp add: valid_utf8_append valid_utf8.simps(2) utf8_head_def continuation_def ascii_valid_utf8 ascii_def)
  from clip_utf8 [OF this] show ?thesis
    unfolding cut_body_def
    using a by (simp add: valid_utf8_append valid_utf8.simps(2) utf8_head_def continuation_def)
qed

definition cut_response :: tool_response where
  "cut_response = sample_response\<lparr>resp_evidence :=
     map (\<lambda>e. e\<lparr>ev_body := cut_body\<rparr>) (resp_evidence sample_response)\<rparr>"

definition cut_service :: "unit session_service" where
  "cut_service = sample_service\<lparr>svc_registry := [sample_tool\<lparr>tool_call := (\<lambda>m q. Inr cut_response)\<rparr>]\<rparr>"

lemma cut_outcome: "tool_outcome jl cut_service m sample_request = cut_response"
proof (rule outcome_Inr)
  show "pd_allowed (decide (svc_policy cut_service) sample_request)"
    using sample_allowed by (simp add: cut_service_def)
qed ((simp_all add: cut_service_def sample_tool_def registry_find_def sample_request_def)+)

lemma tool_call_reply_is_exact_witness:
  "\<exists>l reply. json_parse utf8_json_lib l = Inr (make_tool_call_request ''7'' sample_request)
     \<and> fst (handle_request (de_session utf8_daemon_env) cut_service () (\<lambda>_. Inr ''fine'') l sample_state) = Inr reply
     \<and> json_dump utf8_json_lib (make_error_response ''7'' (json_what utf8_json_lib JsonInvalidUtf8)) = Inr reply"
proof -
  have lib: "env_json (de_session utf8_daemon_env) = utf8_json_lib"
    by (simp add: utf8_daemon_env_def cli_env_def)
  have q: "req_id sample_request = ''r1''" "req_tool_name sample_request = ''disk.usage''" "req_params sample_request = []"
    by (simp_all add: sample_request_def)
  have "all_strings valid_utf8 (make_tool_call_request ''7'' sample_request)"
    by (simp add: make_tool_call_request_def request_to_json_def q json_string_map_def)
  then obtain l where "json_dump utf8_json_lib (make_tool_call_request ''7'' sample_request) = Inr l"
    using dumps_utf8 utf8_json_lib_checks by blast
  then have l: "json_parse utf8_json_lib l = Inr (make_tool_call_request ''7'' sample_request)"
    by (rule utf8_json_lib_reads_back)
  have bad: "\<not> (\<forall>e \<in> set (resp_evidence cut_response). valid_utf8 (ev_body e))"
    by (simp add: cut_response_def sample_response_def cut_body_invalid)
  have "\<exists>reply. fst (handle_request (de_session utf8_daemon_env) cut_service () (\<lambda>_. Inr ''fine'') l sample_state) = Inr reply
     \<and> json_dump utf8_json_lib (if \<forall>e \<in> set (resp_evidence cut_response). valid_utf8 (ev_body e)
         then make_tool_call_response ''7'' cut_response
         else make_error_response ''7'' (json_what utf8_json_lib JsonInvalidUtf8)) = Inr reply"
  proof (rule tool_call_reply_is_exact [OF utf8_daemon_steady lib [symmetric] l])
    show "cut_response = tool_outcome utf8_json_lib cut_service () sample_request" by (rule cut_outcome [symmetric])
    show "refs_survive utf8_json_lib (resp_evidence cut_response)"
      by (simp add: refs_survive_def utf8_json_lib_checks cut_response_def sample_response_def)
    show "request_survives utf8_json_lib sample_request"
      by (simp add: request_survives_def utf8_json_lib_checks q)
  qed (simp_all add: cut_response_def sample_response_def utf8_json_lib_def model_json_lib_def)
  then show ?thesis unfolding if_not_P [OF bad] using l by blast
qed

end
