(* ===== verification/Daemon_Options.thy ===== *)
theory Daemon_Options
  imports Kaslid
begin

text \<open>
  The command line of the daemon, \<open>parse_options\<close> of \<open>src/kaslid/main.cpp\<close>, against a grammar: a sequence of
  the options \<open>--once\<close>, \<open>--socket PATH\<close> and \<open>--audit-log PATH\<close>, each at most once and in any order.
\<close>

section \<open>The grammar\<close>

datatype daemon_argument = Once | Socket string | Audit string

fun words :: "daemon_argument \<Rightarrow> string list" where
  "words Once = [''--once'']"
| "words (Socket v) = [''--socket'', v]"
| "words (Audit v) = [''--audit-log'', v]"

fun option_name :: "daemon_argument \<Rightarrow> string" where
  "option_name Once = ''--once''"
| "option_name (Socket v) = ''--socket''"
| "option_name (Audit v) = ''--audit-log''"

fun is_path_value :: "daemon_argument \<Rightarrow> bool" where
  "is_path_value Once = True"
| "is_path_value (Socket v) = (\<not> prefix ''--'' v)"
| "is_path_value (Audit v) = (\<not> prefix ''--'' v)"

fun set_option :: "daemon_argument \<Rightarrow> daemon_options \<Rightarrow> daemon_options" where
  "set_option Once opts = opts\<lparr>do_once := True\<rparr>"
| "set_option (Socket v) opts = opts\<lparr>do_socket_path := v\<rparr>"
| "set_option (Audit v) opts = opts\<lparr>do_audit_path := v\<rparr>"

text \<open>The arguments are admissible after the options whose names are in a set.\<close>

definition admissible :: "string set \<Rightarrow> daemon_argument list \<Rightarrow> bool" where
  "admissible seen as \<longleftrightarrow> distinct (map option_name as) \<and> set (map option_name as) \<inter> seen = {}
     \<and> list_all is_path_value as"

lemma admissible_simps [simp]:
  "admissible seen []"
  "admissible seen (a # as) \<longleftrightarrow>
     option_name a \<notin> seen \<and> is_path_value a \<and> admissible (insert (option_name a) seen) as"
  by (auto simp: admissible_def)

text \<open>The flags of the loop as a set of names.\<close>

definition seen_options :: "bool \<Rightarrow> bool \<Rightarrow> daemon_options \<Rightarrow> string set" where
  "seen_options socket_seen audit_seen opts =
     (if socket_seen then {''--socket''} else {}) \<union> (if audit_seen then {''--audit-log''} else {})
     \<union> (if do_once opts then {''--once''} else {})"

lemma seen_options_mem:
  "''--once'' \<in> seen_options s a opts \<longleftrightarrow> do_once opts"
  "''--socket'' \<in> seen_options s a opts \<longleftrightarrow> s"
  "''--audit-log'' \<in> seen_options s a opts \<longleftrightarrow> a"
  by (auto simp: seen_options_def)

lemma seen_options_set:
  "seen_options s a (opts\<lparr>do_once := True\<rparr>) = insert ''--once'' (seen_options s a opts)"
  "seen_options True a (opts\<lparr>do_socket_path := v\<rparr>) = insert ''--socket'' (seen_options s a opts)"
  "seen_options s True (opts\<lparr>do_audit_path := v\<rparr>) = insert ''--audit-log'' (seen_options s a opts)"
  by (auto simp: seen_options_def)

lemma parse_accepts:
  "admissible (seen_options s a opts) as \<Longrightarrow>
     parse_arguments (concat (map words as)) s a opts = Inr (fold set_option as opts)"
proof (induction as arbitrary: s a opts)
  case (Cons x as)
  show ?case
  proof (cases x)
    case Once
    with Cons show ?thesis by (simp add: seen_options_mem seen_options_set [symmetric])
  next
    case (Socket v)
    with Cons.prems have p: "\<not> s \<and> \<not> prefix ''--'' v \<and> admissible (insert ''--socket'' (seen_options s a opts)) as"
      by (auto simp: seen_options_mem)
    from p have "admissible (seen_options True a (opts\<lparr>do_socket_path := v\<rparr>)) as"
      unfolding seen_options_set(2) [where s = s] by blast
    with p Cons.IH Socket show ?thesis by simp
  next
    case (Audit v)
    with Cons.prems have p: "\<not> a \<and> \<not> prefix ''--'' v \<and> admissible (insert ''--audit-log'' (seen_options s a opts)) as"
      by (auto simp: seen_options_mem)
    from p have "admissible (seen_options s True (opts\<lparr>do_audit_path := v\<rparr>)) as"
      unfolding seen_options_set(3) [where a = a] by blast
    with p Cons.IH Audit show ?thesis by simp
  qed
qed simp

lemma parse_only:
  "parse_arguments args s a opts = Inr opts' \<Longrightarrow>
     \<exists>as. args = concat (map words as) \<and> admissible (seen_options s a opts) as"
proof (induction args s a opts rule: parse_arguments.induct)
  case (2 arg args s a opts)
  note ih = "2.IH" and parsed = "2.prems"
  consider "arg = ''--once''" | "arg = ''--socket''" | "arg = ''--audit-log''"
    using parsed by (auto split: if_splits)
  then show ?case
  proof cases
    case 1
    with parsed have p: "\<not> do_once opts" "parse_arguments args s a (opts\<lparr>do_once := True\<rparr>) = Inr opts'"
      by (auto split: if_splits)
    from ih(1) [OF 1 p] obtain as where
      "args = concat (map words as)" "admissible (seen_options s a (opts\<lparr>do_once := True\<rparr>)) as"
      by blast
    with 1 p(1) show ?thesis
      by (intro exI [of _ "Once # as"]) (simp add: seen_options_mem seen_options_set)
  next
    case 2
    with parsed obtain v rest where p: "\<not> s" "args = v # rest" "\<not> prefix ''--'' v"
      "parse_arguments rest True a (opts\<lparr>do_socket_path := v\<rparr>) = Inr opts'"
      by (auto split: if_splits list.splits)
    have "\<exists>as. rest = concat (map words as) \<and> admissible (seen_options True a (opts\<lparr>do_socket_path := v\<rparr>)) as"
      by (rule ih(2)) (use 2 p in simp_all)
    then obtain as where
      "rest = concat (map words as)" "admissible (seen_options True a (opts\<lparr>do_socket_path := v\<rparr>)) as" by blast
    with 2 p(1-3) show ?thesis
      by (intro exI [of _ "Socket v # as"]) (simp add: seen_options_mem seen_options_set(2) [where s = s])
  next
    case 3
    with parsed obtain v rest where p: "\<not> a" "args = v # rest" "\<not> prefix ''--'' v"
      "parse_arguments rest s True (opts\<lparr>do_audit_path := v\<rparr>) = Inr opts'"
      by (auto split: if_splits list.splits)
    have "\<exists>as. rest = concat (map words as) \<and> admissible (seen_options s True (opts\<lparr>do_audit_path := v\<rparr>)) as"
      by (rule ih(3)) (use 3 p in simp_all)
    then obtain as where
      "rest = concat (map words as)" "admissible (seen_options s True (opts\<lparr>do_audit_path := v\<rparr>)) as" by blast
    with 3 p(1-3) show ?thesis
      by (intro exI [of _ "Audit v # as"]) (simp add: seen_options_mem seen_options_set(3) [where a = a])
  qed
qed (rule exI [of _ "[]"], simp)

text \<open>
  C21: The daemon accepts exactly the command lines of the grammar, and means by them what they say: every other
  one ends it with exit code 2 before it touches the file system, a socket or the audit log. An option that is
  not given has its default; a path may be empty or start with one dash, but not with two.
\<close>

theorem daemon_options_are_exact:
  "(parse_options env args = Inr opts \<longleftrightarrow>
     (\<exists>as. args = concat (map words as) \<and> distinct (map option_name as) \<and> list_all is_path_value as
        \<and> opts = fold set_option as
            \<lparr>do_socket_path = default_socket_path (de_getenv env) (de_is_directory env) (de_euid env),
             do_audit_path = default_audit_log_path (de_getenv env), do_once = False\<rparr>))
   \<and> ((\<nexists>opts. parse_options env args = Inr opts) \<longrightarrow>
       (\<exists>msg. daemon_main env args rounds w st = ((Exited_with 2, [], [msg], st), w)))"
proof (intro conjI impI)
  let ?d = "\<lparr>do_socket_path = default_socket_path (de_getenv env) (de_is_directory env) (de_euid env),
      do_audit_path = default_audit_log_path (de_getenv env), do_once = False\<rparr>"
  have start: "seen_options False False ?d = {}" by (simp add: seen_options_def)
  have accepts: "parse_options env (concat (map words as)) = Inr (fold set_option as ?d)"
    if "distinct (map option_name as)" "list_all is_path_value as" for as
    unfolding parse_options_def using that by (intro parse_accepts) (simp add: start admissible_def)
  show "parse_options env args = Inr opts \<longleftrightarrow>
     (\<exists>as. args = concat (map words as) \<and> distinct (map option_name as) \<and> list_all is_path_value as
        \<and> opts = fold set_option as ?d)"
  proof
    assume parsed: "parse_options env args = Inr opts"
    then obtain as where as: "args = concat (map words as)" "admissible {} as"
      unfolding parse_options_def using parse_only start by metis
    then have "distinct (map option_name as)" "list_all is_path_value as" by (simp_all add: admissible_def)
    with accepts [OF this] as(1) parsed show "\<exists>as. args = concat (map words as) \<and> distinct (map option_name as)
        \<and> list_all is_path_value as \<and> opts = fold set_option as ?d" by auto
  qed (use accepts in blast)
  show "\<exists>msg. daemon_main env args rounds w st = ((Exited_with 2, [], [msg], st), w)"
    if "\<nexists>opts. parse_options env args = Inr opts"
    using that by (cases "parse_options env args") (simp_all add: daemon_main_def Let_def)
qed

lemma daemon_options_are_exact_witness:
  "\<exists>msg. daemon_main sample_daemon_env [''--once'', ''--socket'', ''--once''] [] \<lparr>sw_open_fds = 3, sw_path_exists = False\<rparr> sample_state
     = ((Exited_with 2, [], [msg], sample_state), \<lparr>sw_open_fds = 3, sw_path_exists = False\<rparr>)
   \<and> parse_options sample_daemon_env [''--audit-log'', ''-'', ''--once'', ''--socket'', []]
     = Inr \<lparr>do_socket_path = [], do_audit_path = ''-'', do_once = True\<rparr>"
proof -
  let ?as = "[Audit ''-'', Once, Socket []]"
  have "\<nexists>opts. parse_options sample_daemon_env [''--once'', ''--socket'', ''--once''] = Inr opts"
    by (simp add: parse_options_def)
  with daemon_options_are_exact [THEN conjunct2] obtain msg where
    "daemon_main sample_daemon_env [''--once'', ''--socket'', ''--once''] [] \<lparr>sw_open_fds = 3, sw_path_exists = False\<rparr> sample_state
       = ((Exited_with 2, [], [msg], sample_state), \<lparr>sw_open_fds = 3, sw_path_exists = False\<rparr>)"
    by blast
  moreover have "parse_options sample_daemon_env (concat (map words ?as))
      = Inr \<lparr>do_socket_path = [], do_audit_path = ''-'', do_once = True\<rparr>"
    unfolding daemon_options_are_exact [THEN conjunct1] by (intro exI [of _ ?as]) simp
  ultimately show ?thesis by simp
qed

end
