(* ===== verification/Cli_Arguments.thy ===== *)
theory Cli_Arguments
  imports Kasli_Cli Default_Paths
begin

text \<open>
  The options of the client, the first half of \<open>main\<close> in \<open>src/kasli-cli/main.cpp\<close>: the defaults, the
  constraints between the options, and whether the daemon may be started. The parser CLI11 is not in the
  repository: the model starts with what it reports of each option, and with the documented meaning of
  \<open>excludes\<close> and \<open>needs\<close>, that a command line that breaks one is refused.
\<close>

section \<open>The code\<close>

text \<open>What the parser found: the value of each option that occurs, and the values of \<open>--param\<close>.\<close>

record cli_line =
  cl_socket :: "string option"
  cl_tools_list :: bool
  cl_call_tool :: "string option"
  cl_ask :: "string option"
  cl_ask_tool :: "string option"
  cl_params :: "string list"

definition cli_accepts :: "cli_line \<Rightarrow> bool" where
  "cli_accepts line \<longleftrightarrow>
     \<not> (cl_tools_list line \<and> cl_call_tool line \<noteq> None) \<and> \<not> (cl_tools_list line \<and> cl_ask line \<noteq> None)
     \<and> \<not> (cl_call_tool line \<noteq> None \<and> cl_ask line \<noteq> None)
     \<and> (cl_ask_tool line \<noteq> None \<longrightarrow> cl_ask line \<noteq> None)"

definition given_or :: "string \<Rightarrow> string option \<Rightarrow> string" where
  "given_or fallback opt = (case opt of None \<Rightarrow> fallback | Some v \<Rightarrow> v)"

definition cli_options_of :: "string \<Rightarrow> cli_line \<Rightarrow> cli_options" where
  "cli_options_of default_socket line =
     \<lparr>co_socket_path = given_or default_socket (cl_socket line), co_socket_given = (cl_socket line \<noteq> None),
      co_list_tools = cl_tools_list line, co_call_tool = given_or [] (cl_call_tool line),
      co_ask_prompt = given_or [] (cl_ask line), co_ask_tool = given_or ''system.info'' (cl_ask_tool line),
      co_tool_params = cl_params line\<rparr>"

text \<open>The whole client; \<open>refused\<close> is how \<open>CLI11_PARSE\<close> leaves it.\<close>

definition cli_process ::
  "json_lib \<Rightarrow> string \<Rightarrow> cli_outcome \<Rightarrow> (string \<Rightarrow> string option) \<Rightarrow> (string \<Rightarrow> bool) \<Rightarrow> nat
   \<Rightarrow> (string \<Rightarrow> string \<Rightarrow> bool \<Rightarrow> string result) \<Rightarrow> cli_line \<Rightarrow> cli_outcome" where
  "cli_process jl help refused getenv is_directory euid send line =
     (if cli_accepts line
      then cli_main jl help send (cli_options_of (default_socket_path getenv is_directory euid) line)
      else refused)"

section \<open>What is sent\<close>

text \<open>The path, the request line and the permission to start the daemon that go out, if anything does.\<close>

definition cli_sends :: "json_lib \<Rightarrow> cli_options \<Rightarrow> (string \<times> string \<times> bool) option" where
  "cli_sends jl opts =
     (case bind_result (parse_tool_params (co_tool_params opts) []) (\<lambda>params.
             case cli_request [] opts params of
               Inl err \<Rightarrow> Inl (RuntimeError err)
             | Inr j \<Rightarrow> json_dump jl j) of
        Inl e \<Rightarrow> None
      | Inr request \<Rightarrow> Some (co_socket_path opts, request, \<not> co_socket_given opts))"

lemma cli_request_help:
  "cli_request help opts params = Inr j \<longleftrightarrow> cli_request help' opts params = Inr j"
  by (simp add: cli_request_def)

lemma cli_sends_Some:
  assumes "cli_sends jl opts = Some m"
  obtains params j request where "parse_tool_params (co_tool_params opts) [] = Inr params"
    "cli_request [] opts params = Inr j" "json_dump jl j = Inr request"
    "m = (co_socket_path opts, request, \<not> co_socket_given opts)"
proof (cases "parse_tool_params (co_tool_params opts) []")
  case (Inr params)
  with assms that show thesis
    by (cases "cli_request [] opts params") (auto simp: cli_sends_def split: sum.splits)
qed (use assms in \<open>simp add: cli_sends_def\<close>)

lemma cli_main_sends:
  assumes "cli_sends jl opts = Some (path, request, allow)"
  shows "cli_main jl help send opts =
     (case send path request allow of
        Inr reply \<Rightarrow> CliExit 0 (reply @ [newline]) []
      | Inl e \<Rightarrow> if is_std_exception e then CliExit 1 [] (what (json_what jl) e @ [newline]) else CliAborts e)"
proof -
  obtain params j where "parse_tool_params (co_tool_params opts) [] = Inr params"
    "cli_request [] opts params = Inr j" "json_dump jl j = Inr request"
    "path = co_socket_path opts" "allow = (\<not> co_socket_given opts)"
    using cli_sends_Some [OF assms] by (metis prod.inject)
  then show ?thesis
    using cli_request_help [of "[]" opts params j "help"] by (simp add: cli_main_def)
qed

text \<open>What a request says: nothing is asked for by two different requests of the client.\<close>

datatype cli_request_kind = Lists | Calls tool_request | Asks string tool_request

fun request_of_kind :: "cli_request_kind \<Rightarrow> json" where
  "request_of_kind Lists = make_tools_list_request ''cli-1''"
| "request_of_kind (Calls q) = make_tool_call_request ''cli-2'' q"
| "request_of_kind (Asks p q) = make_ask_request ''cli-ask-1'' p q"

lemma request_of_kind_inject [simp]: "request_of_kind k = request_of_kind k' \<longleftrightarrow> k = k'"
proof
  define decode where "decode j = (json_field ''method'' j, json_field ''prompt'' j,
    bind_result (json_at ''tool'' j) request_from_json)" for j
  have decode: "decode (request_of_kind k) = (case k of
      Lists \<Rightarrow> (Inr ''tools.list'', Inl (JsonExn (JsonMissingKey ''prompt'')), Inl (JsonExn (JsonMissingKey ''tool'')))
    | Calls q \<Rightarrow> (Inr ''tool.call'', Inl (JsonExn (JsonMissingKey ''prompt'')), Inr q)
    | Asks p q \<Rightarrow> (Inr ''ask'', Inr p, Inr q))" for k
    by (cases k) (simp_all add: decode_def make_tools_list_request_def make_tool_call_request_def
        make_ask_request_def request.from_to)
  assume "request_of_kind k = request_of_kind k'"
  then have "decode (request_of_kind k) = decode (request_of_kind k')" by (rule arg_cong)
  then show "k = k'" unfolding decode by (cases k; cases k') simp_all
qed simp

definition kind_of :: "cli_line \<Rightarrow> string smap \<Rightarrow> cli_request_kind option" where
  "kind_of line params =
     (if cl_tools_list line then if params = [] then Some Lists else None
      else case cl_call_tool line of
             Some tool \<Rightarrow>
               if tool = [] then None
               else Some (Calls \<lparr>req_id = ''cli-tool-1'', req_tool_name = tool, req_risk = ReadOnly, req_params = params\<rparr>)
           | None \<Rightarrow>
               (case cl_ask line of
                  Some prompt \<Rightarrow>
                    if prompt = [] then None
                    else Some (Asks prompt \<lparr>req_id = ''cli-ask-tool-1'',
                      req_tool_name = given_or ''system.info'' (cl_ask_tool line), req_risk = ReadOnly, req_params = params\<rparr>)
                | None \<Rightarrow> None))"

lemma accepted_request:
  assumes "cli_accepts line"
  shows "cli_request help (cli_options_of d line) params =
     (case kind_of line params of None \<Rightarrow> Inl (if cl_tools_list line then ''--param requires --call-tool or --ask'' else help)
        | Some k \<Rightarrow> Inr (request_of_kind k))"
  using assms
  by (auto simp: cli_request_def cli_options_of_def kind_of_def cli_accepts_def given_or_def split: option.split)

text \<open>With the exclusions, a request determines the options.\<close>

lemma kind_of_determines:
  assumes "cli_accepts line" "kind_of line params = Some k"
  shows "cl_tools_list line = (k = Lists)"
    "cl_call_tool line = (case k of Calls q \<Rightarrow> Some (req_tool_name q) | _ \<Rightarrow> None)"
    "cl_ask line = (case k of Asks p q \<Rightarrow> Some p | _ \<Rightarrow> None)"
    "given_or ''system.info'' (cl_ask_tool line) = (case k of Asks p q \<Rightarrow> req_tool_name q | _ \<Rightarrow> ''system.info'')"
    "params = (case k of Lists \<Rightarrow> [] | Calls q \<Rightarrow> req_params q | Asks p q \<Rightarrow> req_params q)"
  using assms by (cases line; auto simp: kind_of_def cli_accepts_def given_or_def split: if_splits option.splits)+

lemma accepted_sends:
  assumes "cli_accepts line" "cli_sends jl (cli_options_of d line) = Some (path, request, allow)"
  obtains params k where "parse_tool_params (cl_params line) [] = Inr params" "kind_of line params = Some k"
    "json_dump jl (request_of_kind k) = Inr request" "path = given_or d (cl_socket line)" "allow = (cl_socket line = None)"
proof -
  obtain params j where p: "parse_tool_params (cl_params line) [] = Inr params"
    "cli_request [] (cli_options_of d line) params = Inr j" "json_dump jl j = Inr request"
    "path = given_or d (cl_socket line)" "allow = (cl_socket line = None)"
    using cli_sends_Some [OF assms(2)] by (simp add: cli_options_of_def) blast
  moreover from p(2) obtain k where "kind_of line params = Some k" "j = request_of_kind k"
    unfolding accepted_request [OF assms(1)] by (auto split: option.splits)
  ultimately show thesis using that by blast
qed

text \<open>
  C22: The client says what its command line says. Two command lines that CLI11 accepts and that lead to the same
  request, to the same socket and with the same permission to start the daemon, agree on every option: whether
  the tools are listed, the tool called, the question, the tool asked for evidence (\<open>system.info\<close> if none is
  named), the parameters and the socket. No option that is given is ignored or overridden by another, thanks to the
  declared exclusions; the daemon may be started only if no socket is named; and the outcome of the client is the
  outcome of sending exactly that request. The JSON library is assumed to read back what it prints.
\<close>

theorem client_says_its_command_line:
  assumes "\<And>j s. json_dump jl j = Inr s \<Longrightarrow> json_parse jl s = Inr j"
    and "cli_accepts l1" "cli_accepts l2" "d = default_socket_path getenv is_directory euid"
    and "cli_sends jl (cli_options_of d l1) = Some (path, request, allow)"
    and "cli_sends jl (cli_options_of d l2) = Some (path, request, allow)"
  shows "cl_tools_list l1 = cl_tools_list l2 \<and> cl_call_tool l1 = cl_call_tool l2 \<and> cl_ask l1 = cl_ask l2
     \<and> given_or ''system.info'' (cl_ask_tool l1) = given_or ''system.info'' (cl_ask_tool l2)
     \<and> parse_tool_params (cl_params l1) [] = parse_tool_params (cl_params l2) [] \<and> cl_socket l1 = cl_socket l2
     \<and> allow = (cl_socket l1 = None)
     \<and> cli_process jl help refused getenv is_directory euid send l1 =
          (case send path request allow of
             Inr reply \<Rightarrow> CliExit 0 (reply @ [newline]) []
           | Inl e \<Rightarrow> if is_std_exception e then CliExit 1 [] (what (json_what jl) e @ [newline]) else CliAborts e)"
proof -
  obtain p1 k1 where 1: "parse_tool_params (cl_params l1) [] = Inr p1" "kind_of l1 p1 = Some k1"
    "json_dump jl (request_of_kind k1) = Inr request" "path = given_or d (cl_socket l1)" "allow = (cl_socket l1 = None)"
    using accepted_sends [OF assms(2,5)] by metis
  obtain p2 k2 where 2: "parse_tool_params (cl_params l2) [] = Inr p2" "kind_of l2 p2 = Some k2"
    "json_dump jl (request_of_kind k2) = Inr request" "path = given_or d (cl_socket l2)" "allow = (cl_socket l2 = None)"
    using accepted_sends [OF assms(3,6)] by metis
  have "request_of_kind k1 = request_of_kind k2"
    using assms(1) [OF 1(3)] assms(1) [OF 2(3)] by simp
  then have k: "k1 = k2" by simp
  have "cl_socket l1 = cl_socket l2"
    using 1(4,5) 2(4,5) by (auto simp: given_or_def split: option.splits)
  moreover have "cl_tools_list l1 = cl_tools_list l2 \<and> cl_call_tool l1 = cl_call_tool l2 \<and> cl_ask l1 = cl_ask l2
     \<and> given_or ''system.info'' (cl_ask_tool l1) = given_or ''system.info'' (cl_ask_tool l2) \<and> p1 = p2"
    using kind_of_determines [OF assms(2) 1(2)] kind_of_determines [OF assms(3) 2(2)] unfolding k by simp
  ultimately show ?thesis
    using 1(1,5) 2(1) assms(2,4) cli_main_sends [OF assms(5)] by (simp add: cli_process_def)
qed

definition sample_line :: cli_line where
  "sample_line = \<lparr>cl_socket = None, cl_tools_list = False, cl_call_tool = Some ''disk.usage'', cl_ask = None,
     cl_ask_tool = None, cl_params = [''a=1'', ''b=2'']\<rparr>"

definition reordered_line :: cli_line where
  "reordered_line = sample_line\<lparr>cl_params := [''b=2'', ''a=3'', ''a=1'']\<rparr>"

lemma sample_line_sends:
  "\<exists>request. cli_sends model_json_lib (cli_options_of ''kaslid.sock'' sample_line) = Some (''kaslid.sock'', request, True)
     \<and> cli_sends model_json_lib (cli_options_of ''kaslid.sock'' reordered_line) = Some (''kaslid.sock'', request, True)"
proof -
  obtain params where "parse_tool_params (cl_params sample_line) [] = Inr params"
    "parse_tool_params (cl_params reordered_line) [] = Inr params"
    by (simp add: sample_line_def reordered_line_def)
  then show ?thesis
    by (simp add: cli_sends_def cli_options_of_def given_or_def cli_request_def model_json_lib_laws(1))
      (simp add: sample_line_def reordered_line_def)
qed

lemma client_says_its_command_line_witness:
  "cli_process model_json_lib [] (CliExit 106 [] []) (\<lambda>_. None) (\<lambda>_. False) 1000 (\<lambda>_ _ _. Inr ''{}'') sample_line
     = CliExit 0 (''{}'' @ [newline]) []
   \<and> parse_tool_params (cl_params sample_line) [] = parse_tool_params (cl_params reordered_line) []"
proof -
  have d: "default_socket_path (\<lambda>_. None) (\<lambda>_. False) 1000 = ''kaslid.sock''"
    by (simp add: default_socket_path_def default_socket_path_from_env_def getenv_value_def linux_user_runtime_dir_def Let_def)
  obtain request where sends:
    "cli_sends model_json_lib (cli_options_of ''kaslid.sock'' sample_line) = Some (''kaslid.sock'', request, True)"
    "cli_sends model_json_lib (cli_options_of ''kaslid.sock'' reordered_line) = Some (''kaslid.sock'', request, True)"
    using sample_line_sends by blast
  have "cli_accepts sample_line" "cli_accepts reordered_line"
    by (simp_all add: cli_accepts_def sample_line_def reordered_line_def)
  from client_says_its_command_line [OF _ this d [symmetric] sends, of "[]" "CliExit 106 [] []" "\<lambda>_ _ _. Inr ''{}''"]
  show ?thesis using model_json_lib_laws(2) by simp
qed

end
