(* ===== verification/Command_Child.thy ===== *)
theory Command_Child
  imports Command_Runner
begin

text \<open>
  The child's side of \<open>run_fixed_command\<close> of \<open>src/tools/package_tool.cpp\<close>: what it does between \<open>fork\<close> and
  \<open>execv\<close> to the descriptors it inherited, and which program then runs with which descriptors. The parent sees
  of it the bytes in the pipe and the exit status, which are the answers of \<open>Command_Runner\<close>.
\<close>

section \<open>Descriptors\<close>

datatype open_file = PipeReadEnd | PipeWriteEnd | DevNull | OtherFile nat

type_synonym descriptors = "nat \<rightharpoonup> open_file"

definition close_descriptor :: "nat \<Rightarrow> descriptors \<Rightarrow> descriptors" where
  "close_descriptor d t = t(d := None)"

text \<open>\<open>dup2(from, to)\<close> where it succeeds; with equal arguments it does nothing.\<close>

definition duplicate_descriptor :: "nat \<Rightarrow> nat \<Rightarrow> descriptors \<Rightarrow> descriptors" where
  "duplicate_descriptor from_d to_d t = t(to_d := t from_d)"

text \<open>The answers of the kernel in the child; \<open>open\<close> answers with the descriptor it made.\<close>

record child_kernel =
  ck_dup_output :: bool
  ck_open_null :: "nat option"
  ck_dup_error :: bool
  ck_exec :: bool

datatype child_outcome =
    ChildExits nat
  | ChildRuns string "string list" descriptors

section \<open>The child\<close>

definition silence_errors :: "child_kernel \<Rightarrow> descriptors \<Rightarrow> descriptors" where
  "silence_errors k t =
     (case ck_open_null k of
        None \<Rightarrow> t
      | Some dev_null \<Rightarrow>
          let opened = t(dev_null \<mapsto> DevNull);
              redirected = (if ck_dup_error k then duplicate_descriptor dev_null 2 opened else opened)
          in close_descriptor dev_null redirected)"

definition command_argv :: "string \<Rightarrow> string list \<Rightarrow> string list" where
  "command_argv executable arguments = executable # arguments"

definition run_child ::
  "child_kernel \<Rightarrow> nat \<Rightarrow> nat \<Rightarrow> string \<Rightarrow> string list \<Rightarrow> descriptors \<Rightarrow> child_outcome" where
  "run_child k read_end write_end executable arguments t =
     (let t1 = close_descriptor read_end t
      in if \<not> ck_dup_output k then ChildExits 126
         else
           let t2 = close_descriptor write_end (duplicate_descriptor write_end 1 t1);
               t3 = silence_errors k t2
           in if ck_exec k then ChildRuns executable (command_argv executable arguments) t3
              else ChildExits 127)"

section \<open>What the command gets\<close>

text \<open>The descriptors of the command, in the common case that the three standard ones were open.\<close>

definition command_descriptors :: "child_kernel \<Rightarrow> nat \<Rightarrow> nat \<Rightarrow> descriptors \<Rightarrow> descriptors" where
  "command_descriptors k read_end write_end t =
     (\<lambda>d. if d = 1 then Some PipeWriteEnd
          else if d = read_end \<or> d = write_end then None
          else if d = 2 \<and> ck_open_null k \<noteq> None \<and> ck_dup_error k then Some DevNull
          else t d)"

lemma silence_errors_result:
  assumes "\<And>d. ck_open_null k = Some d \<Longrightarrow> 2 < d \<and> t d = None"
  shows "silence_errors k t = (if ck_open_null k \<noteq> None \<and> ck_dup_error k then t(2 \<mapsto> DevNull) else t)"
proof (cases "ck_open_null k")
  case (Some d)
  with assms have "2 < d" "t d = None" by blast+
  then show ?thesis
    using Some by (auto simp: silence_errors_def close_descriptor_def duplicate_descriptor_def)
qed (simp add: silence_errors_def)

lemma failed_child_is_an_error:
  assumes "run_fixed_command env = Some (r, st)" "code \<noteq> 0"
    and "\<And>j s. ce_wait env j = WaitReaped s \<Longrightarrow> s = Exited code"
  shows "\<not> cr_ok r \<and> cr_output r = []"
  using assms(1)
proof (cases rule: run_fixed_command_cases)
  case (4 st')
  then obtain j where "ce_wait env j = WaitReaped (rs_status st')" unfolding runner_inv_def by blast
  then have "rs_status st' = Exited code" by (rule assms(3))
  with 4(3) assms(2) show ?thesis by (simp add: command_finished_def command_failed_def Let_def)
qed (simp_all add: command_failed_def given_up_def)

text \<open>
  C24: The command writes into the pipe and nothing else of it is open: with the standard descriptors open
  in the daemon, the program that is executed is the one named, with the fixed arguments, its standard output
  is the pipe's write end, its standard error goes to \<open>/dev/null\<close> if that could be opened, neither descriptor of the
  pipe stays open under its old number, and every other descriptor is the daemon's own. If the output cannot be
  redirected or the program cannot be executed the child exits with 126 or 127, and a run of the parent
  in which that is the child's status is no success and has no output.
\<close>

theorem command_writes_into_the_pipe:
  assumes "2 < read_end" "2 < write_end" "read_end \<noteq> write_end" "t write_end = Some PipeWriteEnd"
    and "\<And>d. ck_open_null k = Some d \<Longrightarrow> 2 < d \<and> (d = read_end \<or> d = write_end \<or> t d = None)"
  shows "case run_child k read_end write_end executable arguments t of
      ChildRuns program argv t' \<Rightarrow> program = executable \<and> argv = executable # arguments
        \<and> t' = command_descriptors k read_end write_end t
    | ChildExits code \<Rightarrow> code = (if ck_dup_output k then 127 else 126)
        \<and> (\<forall>env r st. run_fixed_command env = Some (r, st)
             \<longrightarrow> (\<forall>j s. ce_wait env j = WaitReaped s \<longrightarrow> s = Exited code)
             \<longrightarrow> \<not> cr_ok r \<and> cr_output r = [])"
proof -
  let ?t = "t(read_end := None, 1 \<mapsto> PipeWriteEnd, write_end := None)"
  have redirected: "close_descriptor write_end (duplicate_descriptor write_end 1 (close_descriptor read_end t)) = ?t"
    using assms(3,4) by (simp add: close_descriptor_def duplicate_descriptor_def)
  have "silence_errors k ?t = (if ck_open_null k \<noteq> None \<and> ck_dup_error k then ?t(2 \<mapsto> DevNull) else ?t)"
    using assms(1,2,5) by (intro silence_errors_result) auto
  also have "\<dots> = command_descriptors k read_end write_end t"
    using assms(1,2) by (auto simp: command_descriptors_def)
  finally have "silence_errors k ?t = command_descriptors k read_end write_end t" .
  moreover have "\<not> cr_ok r \<and> cr_output r = []"
    if "run_fixed_command env = Some (r, st)" "\<forall>j s. ce_wait env j = WaitReaped s \<longrightarrow> s = Exited code"
      "code = 126 \<or> code = 127" for env r st code
    using failed_child_is_an_error [OF that(1), of code] that(2,3) by auto
  ultimately show ?thesis
    unfolding run_child_def Let_def redirected by (auto simp: command_argv_def)
qed

text \<open>A daemon with its listening socket as descriptor 3 and a client's connection as 4.\<close>

definition sample_descriptors :: descriptors where
  "sample_descriptors =
     [0 \<mapsto> OtherFile 0, 1 \<mapsto> OtherFile 1, 2 \<mapsto> OtherFile 2, 3 \<mapsto> OtherFile 3, 4 \<mapsto> OtherFile 4,
      5 \<mapsto> PipeReadEnd, 6 \<mapsto> PipeWriteEnd]"

definition sample_kernel :: child_kernel where
  "sample_kernel = \<lparr>ck_dup_output = True, ck_open_null = Some 5, ck_dup_error = True, ck_exec = True\<rparr>"

lemma command_writes_into_the_pipe_witness:
  "run_child sample_kernel 5 6 ''/usr/bin/rpm'' [''-qa''] sample_descriptors
   = ChildRuns ''/usr/bin/rpm'' [''/usr/bin/rpm'', ''-qa'']
       (command_descriptors sample_kernel 5 6 sample_descriptors)"
proof -
  have "case run_child sample_kernel 5 6 ''/usr/bin/rpm'' [''-qa''] sample_descriptors of
      ChildRuns program argv t' \<Rightarrow> program = ''/usr/bin/rpm'' \<and> argv = ''/usr/bin/rpm'' # [''-qa'']
        \<and> t' = command_descriptors sample_kernel 5 6 sample_descriptors
    | ChildExits code \<Rightarrow> code = (if ck_dup_output sample_kernel then 127 else 126)
        \<and> (\<forall>env r st. run_fixed_command env = Some (r, st)
             \<longrightarrow> (\<forall>j s. ce_wait env j = WaitReaped s \<longrightarrow> s = Exited code)
             \<longrightarrow> \<not> cr_ok r \<and> cr_output r = [])"
    by (rule command_writes_into_the_pipe) (simp_all add: sample_descriptors_def sample_kernel_def)
  then show ?thesis by (simp add: run_child_def sample_kernel_def Let_def)
qed

text \<open>
  No descriptor of the daemon is closed on \<open>execv\<close>, so the command holds its listening socket and the
  connection that is being served.
\<close>

lemma command_inherits_the_connection:
  "case run_child sample_kernel 5 6 ''/usr/bin/rpm'' [''-qa''] sample_descriptors of
     ChildRuns _ _ t' \<Rightarrow> t' 3 = Some (OtherFile 3) \<and> t' 4 = Some (OtherFile 4)
   | ChildExits _ \<Rightarrow> False"
  by (simp add: run_child_def sample_kernel_def Let_def close_descriptor_def duplicate_descriptor_def
      silence_errors_def sample_descriptors_def)

end
