(* ===== verification/Spec2Isabelle.thy ===== *)
theory Spec2Isabelle
  imports Audit_Secrets Reply_Encoding Daemon_Options Cli_Arguments Command_Child
begin

text \<open>
  A verification development of kasli-os, a local assistant for Linux systems: a daemon, \<open>kaslid\<close>,
  serves read-only tools over a unix socket to a command line client, \<open>kasli\<close>, and may hand the evidence
  a tool collected to a language model. Every definition is translated from the C++ sources under \<open>src/\<close>
  and keeps the source's name where Isabelle allows it.

  \<^bold>\<open>The parts and how they interact.\<close> A request is one line of JSON.

    \<^item> Client: \<open>Kasli_Cli\<close> (\<open>src/kasli-cli/main.cpp\<close>) makes the request of its options and sends it through
      \<open>Daemon_Autostart\<close> (\<open>src/app/daemon_autostart.cpp\<close>), which may start the user service once and wait.
      \<open>Cli_Arguments\<close> has the options of the client and their exclusions.
      \<open>Default_Paths\<close> (\<open>src/app/default_paths.cpp\<close>) says where the socket and the audit log are.
    \<^item> Transport: \<open>Unix_Socket\<close> (\<open>src/ipc/unix_socket.cpp\<close>) has the line framing, the server's constructor
      and destructor, \<open>accept_one\<close> with the check of the peer's user, and the client's exchange;
      \<open>Line_Protocol\<close> (\<open>src/ipc/line_protocol.cpp\<close>) has the JSON values of requests and responses.
      \<open>Socket_Bounds\<close> says how long a connection can last.
    \<^item> Daemon: \<open>Kaslid\<close> and \<open>Request_Handler\<close> (\<open>src/kaslid/main.cpp\<close>) have the options, the set-up of the
      thirteen tools, the serving loop and \<open>handle_request\<close>. \<open>Daemon_Options\<close> compares the loop over the
      arguments with a grammar; \<open>Daemon_Robustness\<close> says that no connection stops the daemon or is seen in
      the reply to another, \<open>Reply_Encoding\<close> what becomes of evidence that is not UTF-8.
    \<^item> Core: \<open>Session\<close> (\<open>src/session/session_service.cpp\<close>) asks \<open>Policy_Broker\<close>
      (\<open>src/policy/policy_broker.cpp\<close>), calls a tool of \<open>Tool_Registry\<close> (\<open>src/tools/tool_registry.cpp\<close>),
      writes to \<open>Audit_Log\<close> (\<open>src/audit/audit_log.cpp\<close>) what \<open>Redaction\<close> (\<open>src/core/json.cpp\<close>) leaves of it,
      and consults the model. \<open>Core_Types\<close> (\<open>src/core/types.cpp\<close>, \<open>src/core/uuid.cpp\<close>) has the data
      and its JSON codecs. \<open>Session_Properties\<close> holds the lemmas of the session, \<open>Audit_Trail\<close> the audit log
      over a whole run, \<open>Audit_Secrets\<close> what redaction followed by a cut leaves of secrets in it, \<open>Text_Encoding\<close> which texts survive redaction and the audit's limits as UTF-8.
    \<^item> Tools (\<open>src/tools\<close>): \<open>Disk_Tool\<close>, \<open>Power_Tool\<close> (with \<open>system_info_tool.cpp\<close>), \<open>Network_Tool\<close>,
      \<open>Hardware_Tool\<close>, \<open>Package_Tool\<close> with \<open>Command_Runner\<close> and \<open>Command_Child\<close> (the two processes
      of \<open>run_fixed_command\<close> in \<open>package_tool.cpp\<close>),
      \<open>Systemd_Tool\<close>, \<open>Journal_Tool\<close> and \<open>Service_Diagnose_Tool\<close>, which calls two of the others.
    \<^item> Model: \<open>Model_Provider\<close> (\<open>src/model\<close>) has the prompt, the configuration and the two providers.
    \<^item> Shared: \<open>Kasli_Prelude\<close> (exceptions, results, \<open>std::string\<close>, \<open>std::map\<close>), \<open>Number_Text\<close>
      (\<open>std::to_string\<close>, \<open>std::stoull\<close>, streams), \<open>Bounded_Text\<close> (the \<open>append_bounded\<close> every tool has a copy
      of), \<open>Machine\<close> (what tools observe, and the helpers their sources repeat), \<open>Json_Value\<close> (JSON values
      and the library's interface) and \<open>Json_Model\<close> (an instance of that interface, for witnesses).

  \<^bold>\<open>How code is modelled.\<close> Code that may throw returns \<open>exn + 'a\<close>. The state of the session (audit file,
  event counter, number of events) is passed along and survives a throw. What the kernel, the clock or a
  library answers is an argument: a record of observations for each tool, lists of outcomes of
  \<open>send\<close>, \<open>read\<close> and \<open>accept\<close> for the socket, sequences of answers for the command runner. A list of outcomes
  that ends means the call has not returned, and the result is \<open>None\<close>. Integers are kept at their width
  (\<open>64 word\<close>) where overflow matters: sizes, percentages, counters. Loops over input are
  structural, the waiting loop has a measure, and the two loops of the command runner are partial functions
  with a theorem that they return; no fuel occurs in a model of code (\<open>Json_Model\<close> reads with the length of
  its input as fuel, which suffices by its own lemma).

  \<^bold>\<open>Bounds of the code, and kept in the model.\<close> 64 KiB for a tool body, 16 KiB for journal bodies, 12 KiB
  for a diagnosis; 16 graphics and power rows, 50 journal entries, 100 rows for disks, interfaces, failed
  services and package changes (of 2000 collected), 200 for units and enabled services, 500 packages;
  1 MiB for a line on the socket; 4 MiB and five seconds for a command; two seconds in steps of a tenth for
  the start of the daemon; 2048, 4096 and 512 bytes and 64 references in an audit record.

  \<^bold>\<open>State machines.\<close> \<open>emission\<close> is the step relation of the audit log (a record appended whole, or what is left
  of one), \<open>trail\<close> its runs, \<open>reachable_session\<close> the states that handling requests leads to; \<open>audit_step\<close> is the
  automaton that says which event may follow which, and every reachable log is one it accepts. The descriptors of
  the command's child are a map from numbers to open files.

  \<^bold>\<open>Interfaces.\<close> \<open>tool_contract\<close>, \<open>plain_tool\<close>, \<open>bounded_tool\<close> and \<open>reporting_tool\<close> are what tools promise; each
  tool interprets the strongest it keeps, and \<open>diagnosis\<close> states what \<open>service.diagnose\<close> needs of the two tools
  it calls. \<open>tool_directory\<close> is the registry, \<open>line_log\<close> the audit log, \<open>line_channel\<close> the framing,
  \<open>bounded_appender\<close>, \<open>field_splitter\<close>, \<open>range_sort\<close>, \<open>string_map\<close>, \<open>json_codec\<close>, \<open>enum_codec\<close> and the pattern
  locales of \<open>Redaction\<close> the rest. All are interpreted on the code's model.

  \<^bold>\<open>What is shown.\<close> Safety of the session: an unregistered or not read-only tool is
  never called, no answer leaves without its audit record, evidence bodies stay out of the log, and so do
  values behind a keyword in the two forms that redaction knows, also where a text is cut in the middle of a
  replacement; the model is consulted only with evidence, and over a whole run the log is a lawful sequence
  of events with different ids. Redaction keeps UTF-8, and a session whose texts are ASCII or within the
  audit's limits always answers; one character of several bytes at a limit loses an answer, for the JSON
  library prints UTF-8 only; evidence that is not UTF-8 is answered with an error. The daemon: its registry
  is well-formed on every host, serving connections refines handling requests in order, no connection stops
  it, a reply does not depend on other connections or on the log, its command line is read exactly by a
  grammar, and below, a call typed at the command line is served end to end and a question is answered end
  to end. What the client sends determines its command line. The transport: framing is exact, an exchange is
  transparent, another user's connection is never served. Liveness and termination: a connection ends after
  at most 1 MiB and one completed reads, starting the daemon is bounded and a daemon that comes up answers,
  a package command always returns and is cleaned up, and writes into the pipe and nowhere else. The tools:
  each report is the one its specification gives on every branch, errors included, and what is parsed is
  what was printed. Round trips of all JSON codecs.

  \<^bold>\<open>Parameters.\<close> The JSON library (\<open>json_lib\<close>; where a law is needed, that it reads back what it prints, or
  throws its own exceptions only, prints one line, or refuses exactly what is not UTF-8), libcurl (\<open>curl_lib\<close>, with
  the pieces of a body as it hands them to the callback), libsystemd (bus replies and journal walks), the
  option parser CLI11 (what it found of each option; that it refuses a command line that breaks an exclusion is
  its documented behaviour), the kernel and the clock.

  \<^bold>\<open>Not modelled.\<close> The branches for systems other than Linux; the waiting inside \<open>poll\<close> and \<open>sleep\<close>; the handles
  of libcurl and libsystemd, whose release the libraries do; locking of the audit log, which serialises appends
  and is mirrored by passing the state; build files, packaging, documentation and tests.

  \<^bold>\<open>Left for later.\<close> A bound on the length of the replies: a reply over 1 MiB is lost (lemma
  \<open>oversized_reply_is_lost\<close>), and which tools can make one depends on how much longer the JSON library
  prints a text; the daemon under a limit on time.
\<close>

section \<open>From the command line to the tool and back\<close>

text \<open>
  C13: A tool call typed at the command line is served end to end. With the daemon set up, parameters of the
  form \<open>key=value\<close>, and a connection of the same user that delivers the bytes in whatever chunks, the client
  prints the daemon's response to exactly this call and exits with 0; the call reaches the tools with a
  repeated parameter at its last value; the audit log has grown; the daemon's state is the one the
  session left; and the response is a denial exactly if the name is none of the daemon's thirteen tools.
  The JSON library is assumed to read back what it printed.
\<close>

theorem typed_call_is_served:
  assumes reads_back: "\<And>j s. json_dump jl j = Inr s \<Longrightarrow> json_parse jl s = Inr j"
    and lib: "jl = env_json (de_session env)"
    and daemon: "daemon_setup env dopts = Inr (svc, complete)"
    and cli: "\<not> co_list_tools opts" "co_call_tool opts \<noteq> []" "co_tool_params opts = map encode_param kvs"
      "\<forall>kv \<in> set kvs. param_key_ok (fst kv)"
    and q: "q = \<lparr>req_id = ''cli-tool-1'', req_tool_name = co_call_tool opts, req_risk = ReadOnly,
           req_params = fold (\<lambda>(k, v) m. smap_assign k v m) kvs []\<rparr>"
    and l: "json_dump jl (make_tool_call_request ''cli-2'' q) = Inr l"
    and client: "make_address (co_socket_path opts) = Inr address" "prepare_connected_socket se cl = Inr ()"
      "write_line se (cn_sends cl) l = (Some (Inr ()), bytes_out)" "delivers (cn_reads cl) bytes_back"
    and server: "accept_loop se (cn_accept srv) = Some (Inr ())"
      "bind_result (prepare_connected_socket se srv) (\<lambda>_. validate_same_uid_peer se euid srv) = Inr ()"
      "delivers (cn_reads srv) bytes_out"
      "accept_one se euid srv (daemon_handler env svc complete h) st = (Some (Inr ()), bytes_back, st')"
    and called: "call_tool (de_session env) svc h q ''cli'' st = (Inr r, st1)"
    and reply: "json_dump jl (make_tool_call_response ''cli-2'' r) = Inr reply"
  shows "cli_main jl help (\<lambda>path request allow.
           fst (request_with_optional_user_service_start linux
             (start\<lparr>as_first := the (fst (request_over_unix_socket se None None cl path request))\<rparr>) path allow)) opts
         = CliExit 0 (reply @ [newline]) []
     \<and> st' = st1 \<and> ss_log st \<noteq> ss_log st' \<and> prefix (ss_log st) (ss_log st')
     \<and> (\<forall>k. smap_find (req_params q) k = map_of (rev kvs) k)
     \<and> (resp_status r = Denied \<longleftrightarrow> co_call_tool opts \<notin>
          {''system.info'', ''disk.usage'', ''hardware.summary'', ''network.summary'', ''power.status'',
           ''packages.recent_changes'', ''packages.list'', ''systemd.units.list'', ''systemd.unit.status'',
           ''services.failed'', ''services.enabled'', ''journal.query'', ''service.diagnose''})"
proof -
  have handled: "daemon_handler env svc complete h l st = (Inr reply, st1)"
    unfolding daemon_handler_def using reads_back [OF l] called reply
    by (intro dispatched_call) (simp_all add: lib)
  note exchanged = line_is_exchanged [OF client server handled]
  have "parse_tool_params (co_tool_params opts) [] = Inr (req_params q)"
    using parse_encoded_params [OF cli(4)] cli(3) q by simp
  moreover have "json_dump jl (make_tool_call_request ''cli-2'' \<lparr>req_id = ''cli-tool-1'',
      req_tool_name = co_call_tool opts, req_risk = ReadOnly, req_params = req_params q\<rparr>) = Inr l"
    using l q by simp
  moreover have "fst (request_with_optional_user_service_start linux (start\<lparr>as_first :=
      the (fst (request_over_unix_socket se None None cl (co_socket_path opts) l))\<rparr>) (co_socket_path opts) allow)
    = Inr reply" for allow
    by (simp add: exchanged(1) first_reply_is_final)
  ultimately have printed: "cli_main jl help (\<lambda>path request allow.
           fst (request_with_optional_user_service_start linux
             (start\<lparr>as_first := the (fst (request_over_unix_socket se None None cl path request))\<rparr>) path allow)) opts
         = CliExit 0 (reply @ [newline]) []"
    by (intro cli_main_call [OF cli(1,2)]) simp_all
  have "smap_find (req_params q) k = map_of (rev kvs) k" for k
    using smap.find_fold_assign [of kvs "[]" k] q by (simp add: smap_find_def split: option.splits)
  moreover note daemon_denies_unregistered [OF daemon called] call_extends_log [OF called]
  ultimately show ?thesis
    using printed exchanged(2) q by (simp add: daemon_registry_names)
qed


text \<open>An unknown tool called with a repeated parameter, over a connection that delivers each line at once.\<close>

definition sample_call_request :: tool_request where
  "sample_call_request = \<lparr>req_id = ''cli-tool-1'', req_tool_name = ''rm'', req_risk = ReadOnly, req_params = [(''a'', ''2'')]\<rparr>"

definition sample_denial :: tool_response where
  "sample_denial = \<lparr>resp_request_id = ''cli-tool-1'', resp_status = Denied,
     resp_message = ''tool is not registered in policy allowlist'', resp_evidence = []\<rparr>"

definition sample_call_line :: string where
  "sample_call_line = print_json (make_tool_call_request ''cli-2'' sample_call_request) []"

definition sample_denial_line :: string where
  "sample_denial_line = print_json (make_tool_call_response ''cli-2'' sample_denial) []"

definition sample_connection :: "string \<Rightarrow> connection" where
  "sample_connection inp = \<lparr>cn_accept = [None], cn_rcvtimeo = None, cn_sndtimeo = None, cn_peer = Inr (True, 1000),
     cn_reads = [ReadBytes (inp @ [newline])], cn_sends = [Sent 1048577]\<rparr>"

lemma sample_lines_ok: "line_payload sample_call_line" "line_payload sample_denial_line"
proof -
  have "length sample_call_line < 1000 \<and> newline \<notin> set sample_call_line" by code_simp
  then show "line_payload sample_call_line" by (simp add: line_payload_def max_line_def)
  have "length sample_denial_line < 1000 \<and> newline \<notin> set sample_denial_line" by code_simp
  then show "line_payload sample_denial_line" by (simp add: line_payload_def max_line_def)
qed

lemma sample_connection_facts:
  assumes "line_payload x"
  shows "accept_loop se (cn_accept (sample_connection inp)) = Some (Inr ())"
    "prepare_connected_socket se (sample_connection inp) = Inr ()"
    "validate_same_uid_peer se 1000 (sample_connection inp) = Inr ()"
    "read_line se role (cn_reads (sample_connection x)) = Some (Inr x)"
    "write_line se (cn_sends (sample_connection inp)) x = (Some (Inr ()), x @ [newline])"
    "delivers (cn_reads (sample_connection inp)) (inp @ [newline])"
proof -
  show d: "delivers (cn_reads (sample_connection inp)) (inp @ [newline])" for inp
    by (simp add: sample_connection_def)
  show "read_line se role (cn_reads (sample_connection x)) = Some (Inr x)"
    by (rule socket.receives_frame [OF assms d])
  have "length (x @ [newline]) \<le> 1048577"
    using assms by (simp add: line_payload_def max_line_def)
  then have "take 1048577 (x @ [newline]) = x @ [newline]" "drop 1048577 (x @ [newline]) = []"
    by (simp_all only: take_all drop_all)
  then have "write_all se [Sent 1048577] (x @ [newline]) = (Some (Inr ()), x @ [newline])"
    by (cases "x @ [newline]") simp_all
  then show "write_line se (cn_sends (sample_connection inp)) x = (Some (Inr ()), x @ [newline])"
    using assms by (simp add: write_line_def sample_connection_def line_payload_def find_char_None)
qed (simp_all add: sample_connection_def prepare_defs validate_same_uid_peer_def)

definition sample_daemon_options :: daemon_options where
  "sample_daemon_options = \<lparr>do_socket_path = ''k.sock'', do_audit_path = ''audit.jsonl'', do_once = False\<rparr>"

lemma sample_daemon_setup:
  "\<exists>complete. daemon_setup sample_daemon_env sample_daemon_options = Inr (sample_daemon_service, complete)"
proof -
  have "de_getenv sample_daemon_env = (\<lambda>_. None)" by (simp add: sample_daemon_env_def)
  then have "\<exists>config. model_config_from_env (de_getenv sample_daemon_env) = Inr config"
    by (simp add: model_config_from_env_def configured_provider_def)
  then show ?thesis
    by (auto simp: daemon_setup_def make_registry_ok audit_log_new_def sample_daemon_service_def
        sample_daemon_options_def)
qed

definition sample_cli_options :: cli_options where
  "sample_cli_options = \<lparr>co_socket_path = ''k.sock'', co_socket_given = True, co_list_tools = False,
     co_call_tool = ''rm'', co_ask_prompt = [], co_ask_tool = ''system.info'',
     co_tool_params = [''a=1'', ''a=2'']\<rparr>"

lemma sample_session: "env_json (de_session sample_daemon_env) = model_json_lib"
  "env_disk (de_session sample_daemon_env) n = DiskOk"
  by (simp_all add: sample_daemon_env_def cli_env_def sample_env_def)

lemma sample_called:
  "\<exists>st1. call_tool (de_session sample_daemon_env) sample_daemon_service sample_host sample_call_request ''cli'' sample_state
     = (Inr sample_denial, st1)"
proof -
  have "registry_find (svc_registry sample_daemon_service) (req_tool_name sample_call_request) = None"
    by (simp add: sample_daemon_service_def registry_find_None daemon_registry_names sample_call_request_def)
  then have "tool_outcome model_json_lib sample_daemon_service sample_host sample_call_request = sample_denial"
    by (simp add: tool_outcome_def sample_daemon_service_def reg.broker_reason sample_denial_def sample_call_request_def)
  then show ?thesis
    using call_tool_answers [of "de_session sample_daemon_env" sample_daemon_service sample_host sample_call_request
        "''cli''" sample_state] sample_session model_json_lib_laws(1) by metis
qed

lemma sample_served:
  assumes "call_tool (de_session sample_daemon_env) sample_daemon_service sample_host sample_call_request ''cli'' sample_state
    = (Inr sample_denial, st1)"
  shows "accept_one se 1000 (sample_connection sample_call_line)
      (daemon_handler sample_daemon_env sample_daemon_service complete sample_host) sample_state
    = (Some (Inr ()), sample_denial_line @ [newline], st1)"
proof -
  have "daemon_handler sample_daemon_env sample_daemon_service complete sample_host sample_call_line sample_state
      = (Inr sample_denial_line, st1)"
    unfolding daemon_handler_def using assms sample_session(1) model_json_lib_laws
    by (intro dispatched_call) (simp_all add: sample_call_line_def sample_denial_line_def)
  then show ?thesis
    using sample_connection_facts [OF sample_lines_ok(1)] sample_connection_facts(5) [OF sample_lines_ok(2)]
    by (simp add: accept_one_def)
qed

lemma typed_call_is_served_witness:
  "\<exists>linux start. cli_main model_json_lib [] (\<lambda>path request allow.
       fst (request_with_optional_user_service_start linux (start\<lparr>as_first :=
         the (fst (request_over_unix_socket (\<lambda>_. []) None None (sample_connection sample_denial_line) path request))\<rparr>)
         path allow)) sample_cli_options
     = CliExit 0 (sample_denial_line @ [newline]) []"
proof -
  let ?senv = "de_session sample_daemon_env" and ?cl = "sample_connection sample_denial_line"
    and ?srv = "sample_connection sample_call_line"
  obtain complete where daemon: "daemon_setup sample_daemon_env sample_daemon_options
      = Inr (sample_daemon_service, complete)"
    using sample_daemon_setup by blast
  note lib = sample_session
  obtain st1 where called: "call_tool ?senv sample_daemon_service sample_host sample_call_request ''cli'' sample_state
      = (Inr sample_denial, st1)"
    using sample_called by blast
  note served = sample_served [OF called, of "\<lambda>_. []" complete]
  have "cli_main model_json_lib [] (\<lambda>path request allow.
       fst (request_with_optional_user_service_start True (sample_autostart\<lparr>as_first :=
         the (fst (request_over_unix_socket (\<lambda>_. []) None None ?cl path request))\<rparr>) path allow)) sample_cli_options
     = CliExit 0 (sample_denial_line @ [newline]) []"
    by (rule typed_call_is_served [where kvs = "[(''a'', ''1''), (''a'', ''2'')]" and q = sample_call_request, THEN conjunct1,
          OF _ lib(1) [symmetric] daemon _ _ _ _ _ _ _ _ _ _ _ _ _ served called])
      (use sample_connection_facts [OF sample_lines_ok(1)] sample_connection_facts(6) [OF sample_lines_ok(2)] in
        \<open>simp_all add: model_json_lib_laws sample_cli_options_def sample_call_request_def encode_param_def
          param_key_ok_def sample_denial_line_def sample_call_line_def make_address_def\<close>)
  then show ?thesis by blast
qed

section \<open>From a question to its answer\<close>

lemma ascii_cli_id: "valid_utf8 ''cli-ask-1''"
  by simp

text \<open>
  C14: A question typed at the command line is answered end to end. Over a connection of the same user that
  delivers the bytes in whatever chunks, with an audit log that can be written and texts that survive the audit, the
  client prints the daemon's response and exits with 0, and that response carries the model's answer to
  exactly this prompt and the evidence of exactly this tool call, or the message of the model's failure, or, if
  the call did not succeed, the tool's message without the model being asked. The JSON library is assumed to
  print exactly the values whose strings are UTF-8, and to read back what it printed.
\<close>

theorem typed_question_is_answered:
  assumes reads_back: "\<And>j s. json_dump jl j = Inr s \<Longrightarrow> json_parse jl s = Inr j"
    and lib: "checks_utf8 jl" "jl = env_json (de_session env)" "\<And>n. env_disk (de_session env) n = DiskOk"
    and cli: "\<not> co_list_tools opts" "co_call_tool opts = []" "co_ask_prompt opts = prompt" "prompt \<noteq> []"
      "co_tool_params opts = map encode_param kvs" "\<forall>kv \<in> set kvs. param_key_ok (fst kv)"
    and q: "q = \<lparr>req_id = ''cli-ask-tool-1'', req_tool_name = co_ask_tool opts, req_risk = ReadOnly,
           req_params = fold (\<lambda>(k, v) m. smap_assign k v m) kvs []\<rparr>"
    and l: "json_dump jl (make_ask_request ''cli-ask-1'' prompt q) = Inr l"
    and client: "make_address (co_socket_path opts) = Inr address" "prepare_connected_socket se cl = Inr ()"
      "write_line se (cn_sends cl) l = (Some (Inr ()), bytes_out)" "delivers (cn_reads cl) bytes_back"
    and server: "accept_loop se (cn_accept srv) = Some (Inr ())"
      "bind_result (prepare_connected_socket se srv) (\<lambda>_. validate_same_uid_peer se euid srv) = Inr ()"
      "delivers (cn_reads srv) bytes_out"
      "accept_one se euid srv (daemon_handler env svc complete h) st = (Some (Inr ()), bytes_back, st')"
    and texts: "request_survives jl q" "survives 2048 prompt" "model_survives jl complete"
      "survives 2048 (resp_message r)" "refs_survive jl (resp_evidence r)"
    and r: "r = tool_outcome jl svc h q"
    and a: "a = answer_of jl complete prompt r"
  shows "\<exists>reply j. json_parse jl reply = Inr j
     \<and> json_field ''id'' j = Inr ''cli-ask-1'' \<and> json_at ''ok'' j = Inr (JBool (ask_ok a))
     \<and> (if ask_ok a then json_field ''answer'' j = Inr (ask_answer a) else json_field ''error'' j = Inr (ask_error a))
     \<and> cli_main jl help (\<lambda>path request allow.
           fst (request_with_optional_user_service_start linux
             (start\<lparr>as_first := the (fst (request_over_unix_socket se None None cl path request))\<rparr>) path allow)) opts
         = CliExit 0 (reply @ [newline]) []
     \<and> ask_with_tool (de_session env) svc h complete prompt q ''cli'' st = (Inr a, st')"
proof -
  obtain reply where reply:
    "json_dump jl (make_ask_response ''cli-ask-1'' (ask_ok a) (ask_answer a) (ask_error a)) = Inr reply"
    using dumps_utf8 [OF lib(1) ask_response_valid [OF _ answer_of_valid [OF texts(4,3), of prompt]]] a
    by (metis ascii_cli_id)
  have "fst (ask_with_tool (de_session env) svc h complete prompt q ''cli'' st) = Inr a"
    using texts r unfolding a lib(2) by (intro ask_with_tool_survives lib(1,3) [unfolded lib(2)]) simp_all
  then obtain st1 where asked: "ask_with_tool (de_session env) svc h complete prompt q ''cli'' st = (Inr a, st1)"
    by (metis prod.collapse)
  have handled: "daemon_handler env svc complete h l st = (Inr reply, st1)"
    unfolding daemon_handler_def using reads_back [OF l] asked reply
    by (intro dispatched_ask) (simp_all add: lib)
  note exchanged = line_is_exchanged [OF client server handled]
  have "parse_tool_params (co_tool_params opts) [] = Inr (req_params q)"
    using parse_encoded_params [OF cli(6)] cli(5) q by simp
  moreover have "json_dump jl (make_ask_request ''cli-ask-1'' (co_ask_prompt opts) \<lparr>req_id = ''cli-ask-tool-1'',
      req_tool_name = co_ask_tool opts, req_risk = ReadOnly, req_params = req_params q\<rparr>) = Inr l"
    using l cli(3) q by simp
  moreover have "fst (request_with_optional_user_service_start linux (start\<lparr>as_first :=
      the (fst (request_over_unix_socket se None None cl (co_socket_path opts) l))\<rparr>) (co_socket_path opts) allow)
    = Inr reply" for allow
    by (simp add: exchanged(1) first_reply_is_final)
  ultimately have "cli_main jl help (\<lambda>path request allow.
           fst (request_with_optional_user_service_start linux
             (start\<lparr>as_first := the (fst (request_over_unix_socket se None None cl path request))\<rparr>) path allow)) opts
         = CliExit 0 (reply @ [newline]) []"
    using cli(3,4) by (intro cli_main_ask [OF cli(1,2)]) simp_all
  moreover have "json_parse jl reply = Inr (make_ask_response ''cli-ask-1'' (ask_ok a) (ask_answer a) (ask_error a))"
    using reads_back [OF reply] .
  ultimately show ?thesis
    using asked exchanged(2) json_field_ask_response [of "''cli-ask-1''"] by fastforce
qed

text \<open>A question about the disk, with a character beyond ASCII in the prompt and in the answer.\<close>

definition disk_tool_of_host :: "host tool" where
  "disk_tool_of_host = \<lparr>tool_name = ''disk.usage'', tool_risk = ReadOnly,
     tool_call = (\<lambda>_ q. Inr (sample_response\<lparr>resp_request_id := req_id q\<rparr>))\<rparr>"

definition asked_service :: "host session_service" where
  "asked_service = \<lparr>svc_registry = [disk_tool_of_host],
     svc_policy = policy_broker (registry_policies [disk_tool_of_host]), svc_audit_path = ''audit.jsonl''\<rparr>"

definition asked_request :: tool_request where
  "asked_request = \<lparr>req_id = ''cli-ask-tool-1'', req_tool_name = ''disk.usage'', req_risk = ReadOnly, req_params = []\<rparr>"

definition asked_response :: tool_response where
  "asked_response = sample_response\<lparr>resp_request_id := ''cli-ask-tool-1''\<rparr>"

definition utf8_daemon_env :: daemon_env where
  "utf8_daemon_env = sample_daemon_env\<lparr>de_session := (de_session sample_daemon_env)\<lparr>env_json := utf8_json_lib\<rparr>\<rparr>"

definition asked_line :: string where
  "asked_line = letters (print_json (make_ask_request ''cli-ask-1'' coffee asked_request) [])"

definition answer_line :: string where
  "answer_line = letters (print_json (make_ask_response ''cli-ask-1'' True coffee []) [])"

definition asking_options :: cli_options where
  "asking_options = \<lparr>co_socket_path = ''k.sock'', co_socket_given = True, co_list_tools = False,
     co_call_tool = [], co_ask_prompt = coffee, co_ask_tool = ''disk.usage'', co_tool_params = []\<rparr>"

lemma asked_lines_ok: "line_payload asked_line" "line_payload answer_line"
proof -
  have "length (print_json (make_ask_request ''cli-ask-1'' coffee asked_request) []) < 1000" by code_simp
  then show "line_payload asked_line"
    by (simp add: line_payload_def max_line_def asked_line_def letters_plain)
  have "length (print_json (make_ask_response ''cli-ask-1'' True coffee []) []) < 1000" by code_simp
  then show "line_payload answer_line"
    by (simp add: line_payload_def max_line_def answer_line_def letters_plain)
qed

lemma coffee_valid: "valid_utf8 coffee"
  using coffee_survives by (simp add: survives_def)

lemma coffee_not_empty: "coffee \<noteq> []"
  by (simp add: coffee_def)

lemma asked_lines_dumped:
  "json_dump utf8_json_lib (make_ask_request ''cli-ask-1'' coffee asked_request) = Inr asked_line"
  "json_dump utf8_json_lib (make_ask_response ''cli-ask-1'' True coffee []) = Inr answer_line"
proof -
  have "all_strings valid_utf8 (make_ask_request ''cli-ask-1'' coffee asked_request)"
    by (simp add: make_ask_request_def request_to_json_def asked_request_def coffee_valid json_string_map_def)
  then show "json_dump utf8_json_lib (make_ask_request ''cli-ask-1'' coffee asked_request) = Inr asked_line"
    by (simp add: utf8_json_lib_def asked_line_def)
  have "all_strings valid_utf8 (make_ask_response ''cli-ask-1'' True coffee [])"
    by (rule ask_response_valid) (simp_all add: coffee_valid)
  then show "json_dump utf8_json_lib (make_ask_response ''cli-ask-1'' True coffee []) = Inr answer_line"
    by (simp add: utf8_json_lib_def answer_line_def)
qed

lemma asked_session: "env_json (de_session utf8_daemon_env) = utf8_json_lib"
  "env_disk (de_session utf8_daemon_env) n = DiskOk"
  by (simp_all add: utf8_daemon_env_def sample_session)

lemma asked_outcome: "tool_outcome jl asked_service h asked_request = asked_response"
proof (rule outcome_Inr)
  show "pd_allowed (decide (svc_policy asked_service) asked_request)"
    by (simp add: asked_service_def decide_allowed asked_request_def registry_policies_def find_policy_broker
        disk_tool_of_host_def)
  show "registry_find (svc_registry asked_service) (req_tool_name asked_request) = Some disk_tool_of_host"
    by (simp add: asked_service_def asked_request_def registry_find_def disk_tool_of_host_def)
qed (simp add: disk_tool_of_host_def asked_response_def asked_request_def)

lemma asked_texts: "request_survives utf8_json_lib asked_request" "model_survives jl (\<lambda>_. Inr coffee)"
  "survives 2048 (resp_message asked_response)" "refs_survive utf8_json_lib (resp_evidence asked_response)"
  by (simp_all add: request_survives_def asked_request_def model_survives_def coffee_survives asked_response_def
      sample_response_def refs_survive_def utf8_json_lib_checks)

lemma asked_answer: "answer_of jl (\<lambda>_. Inr coffee) coffee asked_response
    = \<lparr>ask_ok = True, ask_answer = coffee, ask_error = []\<rparr>"
  by (simp add: answer_of_def asked_response_def sample_response_def)

lemma asked_served:
  "\<exists>st'. accept_one se 1000 (sample_connection asked_line)
      (daemon_handler utf8_daemon_env asked_service (\<lambda>_. Inr coffee) h) st
    = (Some (Inr ()), answer_line @ [newline], st')"
proof -
  have "fst (ask_with_tool (de_session utf8_daemon_env) asked_service h (\<lambda>_. Inr coffee) coffee asked_request ''cli'' st)
      = Inr (answer_of (env_json (de_session utf8_daemon_env)) (\<lambda>_. Inr coffee) coffee asked_response)"
    using asked_texts coffee_survives
    by (intro ask_with_tool_survives) (simp_all add: asked_session asked_outcome utf8_json_lib_checks)
  then obtain st' where "ask_with_tool (de_session utf8_daemon_env) asked_service h (\<lambda>_. Inr coffee) coffee asked_request ''cli'' st
      = (Inr \<lparr>ask_ok = True, ask_answer = coffee, ask_error = []\<rparr>, st')"
    unfolding asked_answer by (metis prod.collapse)
  then have "daemon_handler utf8_daemon_env asked_service (\<lambda>_. Inr coffee) h asked_line st = (Inr answer_line, st')"
    unfolding daemon_handler_def
    by (rule dispatched_ask [rotated 2])
      (simp_all only: asked_session utf8_json_lib_reads_back [OF asked_lines_dumped(1)] asked_lines_dumped(2)
        ask_result.simps, simp)
  then show ?thesis
    using sample_connection_facts [OF asked_lines_ok(1)] sample_connection_facts(5) [OF asked_lines_ok(2)]
    by (simp add: accept_one_def)
qed

lemma typed_question_is_answered_witness:
  "\<exists>linux start reply j. json_parse utf8_json_lib reply = Inr j \<and> json_field ''answer'' j = Inr coffee
     \<and> cli_main utf8_json_lib [] (\<lambda>path request allow.
       fst (request_with_optional_user_service_start linux (start\<lparr>as_first :=
         the (fst (request_over_unix_socket (\<lambda>_. []) None None (sample_connection answer_line) path request))\<rparr>)
         path allow)) asking_options
     = CliExit 0 (reply @ [newline]) []"
proof -
  obtain st' where served: "accept_one (\<lambda>_. []) 1000 (sample_connection asked_line)
      (daemon_handler utf8_daemon_env asked_service (\<lambda>_. Inr coffee) sample_host) sample_state
    = (Some (Inr ()), answer_line @ [newline], st')"
    using asked_served by blast
  have "\<exists>reply j. json_parse utf8_json_lib reply = Inr j
     \<and> json_field ''id'' j = Inr ''cli-ask-1'' \<and> json_at ''ok'' j = Inr (JBool True)
     \<and> (if True then json_field ''answer'' j = Inr coffee else json_field ''error'' j = Inr [])
     \<and> cli_main utf8_json_lib [] (\<lambda>path request allow.
       fst (request_with_optional_user_service_start True (sample_autostart\<lparr>as_first :=
         the (fst (request_over_unix_socket (\<lambda>_. []) None None (sample_connection answer_line) path request))\<rparr>)
         path allow)) asking_options
     = CliExit 0 (reply @ [newline]) []
     \<and> ask_with_tool (de_session utf8_daemon_env) asked_service sample_host (\<lambda>_. Inr coffee) coffee asked_request ''cli''
         sample_state = (Inr \<lparr>ask_ok = True, ask_answer = coffee, ask_error = []\<rparr>, st')"
  proof (rule typed_question_is_answered [where kvs = "[]" and l = asked_line and r = asked_response and srv = "sample_connection asked_line"
        and a = "\<lparr>ask_ok = True, ask_answer = coffee, ask_error = []\<rparr>", simplified ask_result.simps])
    show "accept_one (\<lambda>_. []) 1000 (sample_connection asked_line)
        (daemon_handler utf8_daemon_env asked_service (\<lambda>_. Inr coffee) sample_host) sample_state
      = (Some (Inr ()), answer_line @ [newline], st')" by (rule served)
    show "delivers (cn_reads (sample_connection answer_line)) (answer_line @ [newline])"
      by (rule sample_connection_facts(6) [OF asked_lines_ok(2)])
    show "write_line (\<lambda>_. []) (cn_sends (sample_connection answer_line)) asked_line
        = (Some (Inr ()), asked_line @ [newline])"
      by (rule sample_connection_facts(5) [OF asked_lines_ok(1)])
  qed (use sample_connection_facts [OF asked_lines_ok(1)] in \<open>simp_all add: asking_options_def make_address_def
      asked_session asked_texts asked_outcome asked_answer asked_lines_dumped utf8_json_lib_checks
      utf8_json_lib_reads_back coffee_survives coffee_not_empty asked_request_def [symmetric]\<close>)
  then show ?thesis unfolding if_True by blast
qed

section \<open>The audit log of a whole run\<close>

text \<open>
  C5: The audit log of a whole run of the daemon is lawful: whatever the arguments, the connections, the bytes
  they carry, the observations of the tools and the answers of the model, if no record is written in part the
  log reads back as a list of events that the automaton of the audit log accepts. Every event has the client as
  actor; a call whose status is ok was allowed by the policy; the model is asked only directly after an ok call
  and skipped only directly after another, under the same request id; an answer or error of the model comes
  only directly after it was asked, under the same id; and no two events have the same id. The hypotheses on
  the JSON library are that a text it prints is one line that it reads back.
\<close>

theorem audit_log_is_lawful:
  assumes "daemon_main env args rounds w st = ((fate, sents, errs, st'), w')" "ss_log st = []"
    and "writes_whole_records (de_session env)" "reads_back_lines (env_json (de_session env))"
    and "5 * length rounds \<le> 2 ^ 64"
  shows "\<exists>es. read_audit (env_json (de_session env)) (ss_log st') = Inr es \<and> lawful_log es \<and> distinct (map ae_id es)"
proof -
  obtain svc :: "host session_service" where r: "reachable_session (de_session env) svc st st'"
    and "ss_made st' \<le> ss_made st + 5 * length rounds"
    using daemon_main_reaches [OF assms(1)] by blast
  then have "ss_made st' - ss_made st \<le> 2 ^ 64" using assms(5) by simp
  from reachable_log_lawful [OF r assms(2,3,4) this] show ?thesis by blast
qed

lemma model_json_lib_lines: "reads_back_lines model_json_lib"
  by (auto simp: reads_back_lines_def dumps_line_def model_json_lib_laws)

text \<open>A run with one connection, which calls an unknown tool.\<close>

lemma sample_run:
  assumes "call_tool (de_session sample_daemon_env) sample_daemon_service sample_host sample_call_request ''cli'' sample_state
    = (Inr sample_denial, st1)"
  shows "\<exists>w'. daemon_main sample_daemon_env [''--socket'', ''k.sock'', ''--audit-log'', ''audit.jsonl'']
      [(sample_connection sample_call_line, sample_host)] \<lparr>sw_open_fds = 3, sw_path_exists = False\<rparr> sample_state
    = ((Serving, [sample_denial_line @ [newline]], [], st1), w')"
proof -
  obtain complete where "daemon_setup sample_daemon_env sample_daemon_options = Inr (sample_daemon_service, complete)"
    using sample_daemon_setup by blast
  moreover have "parse_options sample_daemon_env [''--socket'', ''k.sock'', ''--audit-log'', ''audit.jsonl'']
      = Inr sample_daemon_options"
    by (simp add: parse_options_def sample_daemon_options_def)
  moreover obtain w' where "server_new (de_strerror sample_daemon_env) (de_server sample_daemon_env) ''k.sock''
      \<lparr>sw_open_fds = 3, sw_path_exists = False\<rparr> = (Inr (), w')"
    by (simp add: server_new_def sample_daemon_env_def sample_os_def stale_os_def make_address_def
        reject_active_socket_or_remove_stale_def bind_and_listen_def restrict_socket_path_def check_call_def)
  moreover have "de_euid sample_daemon_env = 1000" by (simp add: sample_daemon_env_def)
  ultimately show ?thesis
    using sample_served [OF assms] by (simp add: daemon_main_def sample_daemon_options_def)
qed

lemma read_audit_not_Nil: "read_audit jl file = Inr es \<Longrightarrow> file \<noteq> [] \<Longrightarrow> es \<noteq> []"
  by (cases "get_lines file") (auto simp: read_audit_def get_lines_eq_Nil bind_result_eq_Inr)

lemma audit_log_is_lawful_witness:
  "\<exists>fate sents errs st' w' es. daemon_main sample_daemon_env [''--socket'', ''k.sock'', ''--audit-log'', ''audit.jsonl'']
      [(sample_connection sample_call_line, sample_host)] \<lparr>sw_open_fds = 3, sw_path_exists = False\<rparr> sample_state
    = ((fate, sents, errs, st'), w')
    \<and> read_audit model_json_lib (ss_log st') = Inr es \<and> es \<noteq> [] \<and> lawful_log es"
proof -
  obtain st1 where c: "call_tool (de_session sample_daemon_env) sample_daemon_service sample_host sample_call_request
      ''cli'' sample_state = (Inr sample_denial, st1)" using sample_called by blast
  obtain w' where run: "daemon_main sample_daemon_env [''--socket'', ''k.sock'', ''--audit-log'', ''audit.jsonl'']
      [(sample_connection sample_call_line, sample_host)] \<lparr>sw_open_fds = 3, sw_path_exists = False\<rparr> sample_state
    = ((Serving, [sample_denial_line @ [newline]], [], st1), w')"
    using sample_run [OF c] by blast
  obtain es where es: "read_audit model_json_lib (ss_log st1) = Inr es" "lawful_log es"
    using audit_log_is_lawful [OF run] sample_session model_json_lib_lines
    by (auto simp: sample_state_def writes_whole_records_def)
  have "ss_log st1 \<noteq> []" using call_extends_log [OF c] by (auto simp: sample_state_def)
  then have "es \<noteq> []" by (rule read_audit_not_Nil [OF es(1)])
  with run es show ?thesis by blast
qed

section \<open>Secrets in the audit log\<close>



end
